theory Spec2Isabelle
  imports Complex_Main "HOL-Library.Log_Nat"
begin

section \<open>Tensor elements\<close>

text \<open>
  The program (\<^verbatim>\<open>RBM_2.py\<close>) works on torch tensors of floats. An element is modelled
  as a real number or one of the three floats that are no numbers, \<open>+inf\<close>, \<open>-inf\<close> and
  \<open>nan\<close>; these arise without any exception when a tensor is divided by the integer zero
  and when the mean of an empty tensor is taken, and the program goes on computing with
  them. On real numbers the operations are the exact ones (rounding is left out: the
  statements below are about which elements are combined, along which axis and with which
  divisor); on the other three values they follow IEEE 754.
\<close>

datatype fl = is_Fin: Fin (val: real) | PInf | NInf | NaN
where
  "val PInf = 0"
| "val NInf = 0"
| "val NaN = 0"

text \<open>The infinity with the sign of a real number; \<open>nan\<close> for the sign of zero.\<close>

definition inf_of :: "real \<Rightarrow> fl" where
  "inf_of s = (if 0 < s then PInf else if s < 0 then NInf else NaN)"

fun sign :: "fl \<Rightarrow> real" where
  "sign (Fin a) = sgn a"
| "sign PInf = 1"
| "sign NInf = - 1"
| "sign NaN = 0"

instantiation fl :: comm_monoid_add
begin

definition zero_fl :: fl where
  "zero_fl = Fin 0"

fun plus_fl :: "fl \<Rightarrow> fl \<Rightarrow> fl" where
  "plus_fl (Fin a) (Fin b) = Fin (a + b)"
| "plus_fl NaN y = NaN"
| "plus_fl x NaN = NaN"
| "plus_fl PInf NInf = NaN"
| "plus_fl NInf PInf = NaN"
| "plus_fl PInf y = PInf"
| "plus_fl x PInf = PInf"
| "plus_fl NInf y = NInf"
| "plus_fl x NInf = NInf"

instance
proof
  fix x y z :: fl
  show "0 + x = x"
    by (cases x) (simp_all add: zero_fl_def)
  show "x + y = y + x"
    by (cases x; cases y) simp_all
  show "x + y + z = x + (y + z)"
    by (cases x; cases y; cases z) simp_all
qed

end

instantiation fl :: "{uminus, minus, times, abs}"
begin

fun uminus_fl :: "fl \<Rightarrow> fl" where
  "uminus_fl (Fin a) = Fin (- a)"
| "uminus_fl PInf = NInf"
| "uminus_fl NInf = PInf"
| "uminus_fl NaN = NaN"

definition minus_fl :: "fl \<Rightarrow> fl \<Rightarrow> fl" where
  "minus_fl x y = x + (- y)"

fun times_fl :: "fl \<Rightarrow> fl \<Rightarrow> fl" where
  "times_fl (Fin a) (Fin b) = Fin (a * b)"
| "times_fl NaN y = NaN"
| "times_fl x NaN = NaN"
| "times_fl x y = inf_of (sign x * sign y)"

fun abs_fl :: "fl \<Rightarrow> fl" where
  "abs_fl (Fin a) = Fin \<bar>a\<bar>"
| "abs_fl PInf = PInf"
| "abs_fl NInf = PInf"
| "abs_fl NaN = NaN"

instance ..

end

text \<open>A tensor element divided by a Python integer, \<^verbatim>\<open>F.relu\<close> of an element, and the
  comparison \<^verbatim>\<open>>=\<close> of two elements, which is false as soon as one of them is \<open>nan\<close>.\<close>

fun div_int :: "fl \<Rightarrow> int \<Rightarrow> fl" where
  "div_int (Fin a) d = (if d = 0 then inf_of a else Fin (a / real_of_int d))"
| "div_int PInf d = (if 0 \<le> d then PInf else NInf)"
| "div_int NInf d = (if 0 \<le> d then NInf else PInf)"
| "div_int NaN d = NaN"

fun relu_fl :: "fl \<Rightarrow> fl" where
  "relu_fl (Fin a) = Fin (max 0 a)"
| "relu_fl PInf = PInf"
| "relu_fl NInf = Fin 0"
| "relu_fl NaN = NaN"

fun ge_fl :: "fl \<Rightarrow> fl \<Rightarrow> bool" where
  "ge_fl (Fin a) (Fin b) = (b \<le> a)"
| "ge_fl NaN y = False"
| "ge_fl x NaN = False"
| "ge_fl PInf y = True"
| "ge_fl x NInf = True"
| "ge_fl x y = False"

section \<open>Tensors\<close>

text \<open>
  The tensors of the program have rank one or two. A tensor is its shape together with
  its contents; the contents are read by index, and only the indices inside the shape
  mean anything.
\<close>

record vec =
  len :: nat
  elt :: "nat \<Rightarrow> fl"

record mat =
  nrows :: nat
  ncols :: nat
  cell :: "nat \<Rightarrow> nat \<Rightarrow> fl"

datatype error =
    RuntimeError         \<comment> \<open>torch: shapes do not fit, negative dimension\<close>
  | UnboundLocalError    \<comment> \<open>Python: a local read before any assignment\<close>
  | ZeroDivisionError    \<comment> \<open>Python: scalar division by zero\<close>
  | OverflowError        \<comment> \<open>Python: a float result too large\<close>
  | ValueError           \<comment> \<open>torch: a batch size that is not a positive integer\<close>

text \<open>Broadcasting of one dimension against another, and the index read in a
  dimension of extent one that is stretched.\<close>

definition bdim :: "nat \<Rightarrow> nat \<Rightarrow> error + nat" where
  "bdim a b = (if a = b then Inr a else if a = 1 then Inr b
               else if b = 1 then Inr a else Inl RuntimeError)"

definition bix :: "nat \<Rightarrow> nat \<Rightarrow> nat" where
  "bix d i = (if d = 1 then 0 else i)"

text \<open>An elementwise binary operation on two matrices, on a matrix and a vector (the
  vector is aligned with the last axis), and on two vectors.\<close>

definition mat_op :: "(fl \<Rightarrow> fl \<Rightarrow> fl) \<Rightarrow> mat \<Rightarrow> mat \<Rightarrow> error + mat" where
  "mat_op f A B =
     (case bdim (nrows A) (nrows B) of Inl e \<Rightarrow> Inl e | Inr n \<Rightarrow>
     (case bdim (ncols A) (ncols B) of Inl e \<Rightarrow> Inl e | Inr m \<Rightarrow>
        Inr \<lparr>nrows = n, ncols = m,
             cell = (\<lambda>i j. f (cell A (bix (nrows A) i) (bix (ncols A) j))
                             (cell B (bix (nrows B) i) (bix (ncols B) j)))\<rparr>))"

definition mat_vec_op :: "(fl \<Rightarrow> fl \<Rightarrow> fl) \<Rightarrow> mat \<Rightarrow> vec \<Rightarrow> error + mat" where
  "mat_vec_op f A b =
     (case bdim (ncols A) (len b) of Inl e \<Rightarrow> Inl e | Inr m \<Rightarrow>
        Inr \<lparr>nrows = nrows A, ncols = m,
             cell = (\<lambda>i j. f (cell A i (bix (ncols A) j)) (elt b (bix (len b) j)))\<rparr>)"

definition vec_op :: "(fl \<Rightarrow> fl \<Rightarrow> fl) \<Rightarrow> vec \<Rightarrow> vec \<Rightarrow> error + vec" where
  "vec_op f a b =
     (case bdim (len a) (len b) of Inl e \<Rightarrow> Inl e | Inr m \<Rightarrow>
        Inr \<lparr>len = m, elt = (\<lambda>j. f (elt a (bix (len a) j)) (elt b (bix (len b) j)))\<rparr>)"

text \<open>\<^verbatim>\<open>a += b\<close> on tensors: the broadcast result must have the shape of \<open>a\<close>.\<close>

definition mat_iadd :: "mat \<Rightarrow> mat \<Rightarrow> error + mat" where
  "mat_iadd A B =
     (case mat_op (+) A B of Inl e \<Rightarrow> Inl e
      | Inr C \<Rightarrow> if nrows C = nrows A \<and> ncols C = ncols A then Inr C else Inl RuntimeError)"

definition vec_iadd :: "vec \<Rightarrow> vec \<Rightarrow> error + vec" where
  "vec_iadd a b =
     (case vec_op (+) a b of Inl e \<Rightarrow> Inl e
      | Inr c \<Rightarrow> if len c = len a then Inr c else Inl RuntimeError)"

text \<open>A Python float (a real number here) times a tensor, and a tensor divided by a
  Python integer; neither raises, whatever the divisor.\<close>

definition mat_scale :: "real \<Rightarrow> mat \<Rightarrow> mat" where
  "mat_scale c A = A\<lparr>cell := (\<lambda>i j. Fin c * cell A i j)\<rparr>"

definition vec_scale :: "real \<Rightarrow> vec \<Rightarrow> vec" where
  "vec_scale c a = a\<lparr>elt := (\<lambda>j. Fin c * elt a j)\<rparr>"

definition mat_div :: "mat \<Rightarrow> int \<Rightarrow> mat" where
  "mat_div A d = A\<lparr>cell := (\<lambda>i j. div_int (cell A i j) d)\<rparr>"

definition vec_div :: "vec \<Rightarrow> int \<Rightarrow> vec" where
  "vec_div a d = a\<lparr>elt := (\<lambda>j. div_int (elt a j) d)\<rparr>"

text \<open>\<^verbatim>\<open>torch.matmul\<close> of two matrices, \<^verbatim>\<open>.t()\<close>, \<^verbatim>\<open>F.relu\<close>, \<^verbatim>\<open>**2\<close>,
  \<^verbatim>\<open>torch.sum(_, dim=0)\<close>, \<^verbatim>\<open>torch.mean\<close> of a vector (the sum divided by the number
  of elements, \<open>nan\<close> when there is none) and \<^verbatim>\<open>torch.sum(torch.abs(_))\<close>.\<close>

definition matmul :: "mat \<Rightarrow> mat \<Rightarrow> error + mat" where
  "matmul A B =
     (if ncols A = nrows B
      then Inr \<lparr>nrows = nrows A, ncols = ncols B,
                cell = (\<lambda>i j. sum_list (map (\<lambda>l. cell A i l * cell B l j) [0..<ncols A]))\<rparr>
      else Inl RuntimeError)"

definition mat_t :: "mat \<Rightarrow> mat" where
  "mat_t A = \<lparr>nrows = ncols A, ncols = nrows A, cell = (\<lambda>i j. cell A j i)\<rparr>"

definition relu :: "mat \<Rightarrow> mat" where
  "relu A = A\<lparr>cell := (\<lambda>i j. relu_fl (cell A i j))\<rparr>"

definition mat_square :: "mat \<Rightarrow> mat" where
  "mat_square A = A\<lparr>cell := (\<lambda>i j. cell A i j * cell A i j)\<rparr>"

definition sum_dim0 :: "mat \<Rightarrow> vec" where
  "sum_dim0 A = \<lparr>len = ncols A,
                 elt = (\<lambda>j. sum_list (map (\<lambda>i. cell A i j) [0..<nrows A]))\<rparr>"

definition mean_vec :: "vec \<Rightarrow> fl" where
  "mean_vec a = div_int (sum_list (map (elt a) [0..<len a])) (int (len a))"

definition sum_abs :: "mat \<Rightarrow> fl" where
  "sum_abs A =
     sum_list (map (\<lambda>i. sum_list (map (\<lambda>j. \<bar>cell A i j\<bar>) [0..<ncols A])) [0..<nrows A])"

text \<open>\<^verbatim>\<open>batch.view(n, v)\<close> of a matrix: the same elements in row-major order, when their
  number fits.\<close>

definition view :: "mat \<Rightarrow> nat \<Rightarrow> nat \<Rightarrow> error + mat" where
  "view A n v =
     (if nrows A * ncols A = n * v
      then Inr \<lparr>nrows = n, ncols = v,
                cell = (\<lambda>i j. cell A ((i * v + j) div ncols A) ((i * v + j) mod ncols A))\<rparr>
      else Inl RuntimeError)"

section \<open>The random generator\<close>

text \<open>
  The generator is the sequence of tensors its future draws will return: \<open>g n i j\<close> is
  the number at position \<open>(i, j)\<close> of the \<open>n\<close>-th draw from now. A draw takes the head of
  the sequence in the shape of its argument and leaves the tail. \<open>unit_draws\<close> says that
  the numbers lie in \<open>[0, 1)\<close>, as \<^verbatim>\<open>torch.rand_like\<close> promises.
\<close>

type_synonym rng = "nat \<Rightarrow> nat \<Rightarrow> nat \<Rightarrow> real"

definition rand_like :: "rng \<Rightarrow> mat \<Rightarrow> mat \<times> rng" where
  "rand_like g A =
     (\<lparr>nrows = nrows A, ncols = ncols A, cell = (\<lambda>i j. Fin (g 0 i j))\<rparr>, (\<lambda>n. g (Suc n)))"

definition unit_draws :: "rng \<Rightarrow> bool" where
  "unit_draws g = (\<forall>n i j. 0 \<le> g n i j \<and> g n i j < 1)"

section \<open>The model and its activation engine\<close>

record rbm =
  visible_units :: nat
  hidden_units :: nat
  k :: int
  learning_rate :: real
  learning_rate_decay :: bool
  weight_decay :: real
  momentum :: real
  final_momentum :: real
  xavier_init :: bool
  increase_to_cd_k :: bool
  use_gpu :: bool
  batch_size :: int
  W :: mat
  h_bias :: vec
  v_bias :: vec
  v_bias_update_acc :: vec    \<comment> \<open>the field \<^verbatim>\<open>v_bias_update\<close>\<close>
  h_bias_update_acc :: vec    \<comment> \<open>the field \<^verbatim>\<open>h_bias_update\<close>\<close>
  grad_update :: mat

text \<open>\<^verbatim>\<open>s = (prob >= torch.rand_like(prob)).float()\<close>\<close>

definition sampling :: "rng \<Rightarrow> mat \<Rightarrow> mat \<times> rng" where
  "sampling g prob =
     (case rand_like g prob of (u, g') \<Rightarrow>
        (prob\<lparr>cell := (\<lambda>i j. if ge_fl (cell prob i j) (cell u i j) then Fin 1 else Fin 0)\<rparr>,
         g'))"

definition to_hidden :: "rbm \<Rightarrow> rng \<Rightarrow> mat \<Rightarrow> error + (mat \<times> mat \<times> rng)" where
  "to_hidden r g X =
     (case matmul X (W r) of Inl e \<Rightarrow> Inl e | Inr X_prob \<Rightarrow>
     (case mat_vec_op (+) X_prob (h_bias r) of Inl e \<Rightarrow> Inl e | Inr X_prob \<Rightarrow>
     (case sampling g (relu X_prob) of (sample_X_prob, g') \<Rightarrow>
        Inr (relu X_prob, sample_X_prob, g'))))"

definition to_visible :: "rbm \<Rightarrow> rng \<Rightarrow> mat \<Rightarrow> error + (mat \<times> mat \<times> rng)" where
  "to_visible r g X =
     (case matmul X (mat_t (W r)) of Inl e \<Rightarrow> Inl e | Inr X_prob \<Rightarrow>
     (case mat_vec_op (+) X_prob (v_bias r) of Inl e \<Rightarrow> Inl e | Inr X_prob \<Rightarrow>
     (case sampling g (relu X_prob) of (sample_X_prob, g') \<Rightarrow>
        Inr (relu X_prob, sample_X_prob, g'))))"

definition forward :: "rbm \<Rightarrow> rng \<Rightarrow> mat \<Rightarrow> error + (mat \<times> mat \<times> rng)" where
  "forward r g input_data = to_hidden r g input_data"

section \<open>Contrastive divergence\<close>

text \<open>
  The locals of \<^verbatim>\<open>contrastive_divergence\<close> that outlive the two phases. The loop of the
  negative phase carries the hidden sample and, once it has run, the last visible and
  hidden probabilities; before the first round these two names are unbound.
\<close>

record phases =
  positive_hidden_probabilities :: mat
  positive_associations :: mat
  negative_visible_probabilities :: mat
  negative_hidden_probabilities :: mat
  negative_associations :: mat

fun gibbs_loop ::
  "rbm \<Rightarrow> nat \<Rightarrow> rng \<Rightarrow> mat \<Rightarrow> (mat \<times> mat) option \<Rightarrow> error + (rng \<times> mat \<times> (mat \<times> mat) option)"
where
  "gibbs_loop r 0 g hidden_activations probs = Inr (g, hidden_activations, probs)"
| "gibbs_loop r (Suc n) g hidden_activations probs =
     (case to_visible r g hidden_activations of Inl e \<Rightarrow> Inl e
      | Inr (visible_probabilities, _, g1) \<Rightarrow>
     (case to_hidden r g1 visible_probabilities of Inl e \<Rightarrow> Inl e
      | Inr (hidden_probabilities, hidden_activations', g2) \<Rightarrow>
          gibbs_loop r n g2 hidden_activations'
            (Some (visible_probabilities, hidden_probabilities))))"

definition cd_phases :: "rbm \<Rightarrow> rng \<Rightarrow> mat \<Rightarrow> int \<Rightarrow> error + (phases \<times> rng)" where
  "cd_phases r g input_data n_gibbs_sampling_steps =
     (case to_hidden r g input_data of Inl e \<Rightarrow> Inl e
      | Inr (php, positive_hidden_act, g1) \<Rightarrow>
     (case matmul (mat_t input_data) php of Inl e \<Rightarrow> Inl e | Inr pa \<Rightarrow>
     (case gibbs_loop r (nat n_gibbs_sampling_steps) g1 positive_hidden_act None of
        Inl e \<Rightarrow> Inl e
      | Inr (g2, _, None) \<Rightarrow> Inl UnboundLocalError
      | Inr (g2, _, Some (nvp, nhp)) \<Rightarrow>
     (case matmul (mat_t nvp) nhp of Inl e \<Rightarrow> Inl e | Inr na \<Rightarrow>
        Inr (\<lparr>positive_hidden_probabilities = php, positive_associations = pa,
              negative_visible_probabilities = nvp, negative_hidden_probabilities = nhp,
              negative_associations = na\<rparr>, g2)))))"

text \<open>The six statements of the training branch, each of which either fails or
  assigns one field.\<close>

definition set_grad_update :: "phases \<Rightarrow> real \<Rightarrow> rbm \<Rightarrow> error + rbm" where
  "set_grad_update ph lr r =
     (case mat_op (-) (positive_associations ph) (negative_associations ph) of
        Inl e \<Rightarrow> Inl e | Inr g \<Rightarrow>
     (case mat_op (-) (mat_div g (batch_size r)) (mat_scale (weight_decay r) (W r)) of
        Inl e \<Rightarrow> Inl e | Inr d \<Rightarrow>
     (case mat_op (+) (mat_scale (momentum r) (grad_update r)) (mat_scale lr d) of
        Inl e \<Rightarrow> Inl e | Inr u \<Rightarrow> Inr (r\<lparr>grad_update := u\<rparr>))))"

definition set_v_bias_update :: "mat \<Rightarrow> phases \<Rightarrow> real \<Rightarrow> rbm \<Rightarrow> error + rbm" where
  "set_v_bias_update input_data ph lr r =
     (case mat_op (-) input_data (negative_visible_probabilities ph) of
        Inl e \<Rightarrow> Inl e | Inr d \<Rightarrow>
     (case vec_op (+) (vec_scale (momentum r) (v_bias_update_acc r))
             (vec_div (vec_scale lr (sum_dim0 d)) (batch_size r)) of
        Inl e \<Rightarrow> Inl e | Inr u \<Rightarrow> Inr (r\<lparr>v_bias_update_acc := u\<rparr>)))"

definition set_h_bias_update :: "phases \<Rightarrow> real \<Rightarrow> rbm \<Rightarrow> error + rbm" where
  "set_h_bias_update ph lr r =
     (case mat_op (-) (positive_hidden_probabilities ph) (negative_hidden_probabilities ph) of
        Inl e \<Rightarrow> Inl e | Inr d \<Rightarrow>
     (case vec_op (+) (vec_scale (momentum r) (h_bias_update_acc r))
             (vec_div (vec_scale lr (sum_dim0 d)) (batch_size r)) of
        Inl e \<Rightarrow> Inl e | Inr u \<Rightarrow> Inr (r\<lparr>h_bias_update_acc := u\<rparr>)))"

definition add_W :: "rbm \<Rightarrow> error + rbm" where
  "add_W r = (case mat_iadd (W r) (grad_update r) of
                Inl e \<Rightarrow> Inl e | Inr w \<Rightarrow> Inr (r\<lparr>W := w\<rparr>))"

definition add_v_bias :: "rbm \<Rightarrow> error + rbm" where
  "add_v_bias r = (case vec_iadd (v_bias r) (v_bias_update_acc r) of
                     Inl e \<Rightarrow> Inl e | Inr b \<Rightarrow> Inr (r\<lparr>v_bias := b\<rparr>))"

definition add_h_bias :: "rbm \<Rightarrow> error + rbm" where
  "add_h_bias r = (case vec_iadd (h_bias r) (h_bias_update_acc r) of
                     Inl e \<Rightarrow> Inl e | Inr b \<Rightarrow> Inr (r\<lparr>h_bias := b\<rparr>))"

text \<open>Statements run in order; the first one that fails leaves the object as the
  earlier ones made it.\<close>

fun run_stmts :: "(rbm \<Rightarrow> error + rbm) list \<Rightarrow> rbm \<Rightarrow> rbm \<times> (error + unit)" where
  "run_stmts [] r = (r, Inr ())"
| "run_stmts (s # ss) r = (case s r of Inl e \<Rightarrow> (r, Inl e) | Inr r' \<Rightarrow> run_stmts ss r')"

definition cd_update :: "mat \<Rightarrow> phases \<Rightarrow> real \<Rightarrow> rbm \<Rightarrow> rbm \<times> (error + unit)" where
  "cd_update input_data ph lr r =
     run_stmts [set_grad_update ph lr, set_v_bias_update input_data ph lr,
                set_h_bias_update ph lr, add_W, add_v_bias, add_h_bias] r"

definition cd_error :: "mat \<Rightarrow> phases \<Rightarrow> error + fl" where
  "cd_error input_data ph =
     (case mat_op (-) input_data (negative_visible_probabilities ph) of
        Inl e \<Rightarrow> Inl e | Inr d \<Rightarrow> Inr (mean_vec (sum_dim0 (mat_square d))))"

text \<open>A method returns the object as it leaves it, and either the exception or the
  returned value with the generator after the call.\<close>

definition contrastive_divergence ::
  "rbm \<Rightarrow> rng \<Rightarrow> mat \<Rightarrow> bool \<Rightarrow> int \<Rightarrow> real \<Rightarrow> rbm \<times> (error + ((fl \<times> fl) \<times> rng))"
where
  "contrastive_divergence r g input_data training n_gibbs_sampling_steps lr =
     (case cd_phases r g input_data n_gibbs_sampling_steps of Inl e \<Rightarrow> (r, Inl e)
      | Inr (ph, g') \<Rightarrow>
     (case (if training then cd_update input_data ph lr r else (r, Inr ())) of
        (r', Inl e) \<Rightarrow> (r', Inl e)
      | (r', Inr _) \<Rightarrow>
     (case cd_error input_data ph of Inl e \<Rightarrow> (r', Inl e)
      | Inr err \<Rightarrow> (r', Inr ((err, sum_abs (grad_update r')), g')))))"

definition reconstruction_error ::
  "rbm \<Rightarrow> rng \<Rightarrow> mat \<Rightarrow> rbm \<times> (error + ((fl \<times> fl) \<times> rng))"
where
  "reconstruction_error r g data = contrastive_divergence r g data False 1 0.001"

fun reconstruct_loop ::
  "rbm \<Rightarrow> nat \<Rightarrow> rng \<Rightarrow> mat \<Rightarrow> mat option \<Rightarrow> error + (rng \<times> mat \<times> mat option)"
where
  "reconstruct_loop r 0 g v prob_v = Inr (g, v, prob_v)"
| "reconstruct_loop r (Suc n) g v prob_v =
     (case to_hidden r g v of Inl e \<Rightarrow> Inl e | Inr (prob_h, h, g1) \<Rightarrow>
     (case to_visible r g1 prob_h of Inl e \<Rightarrow> Inl e | Inr (prob_v', v', g2) \<Rightarrow>
        reconstruct_loop r n g2 v' (Some prob_v')))"

definition reconstruct ::
  "rbm \<Rightarrow> rng \<Rightarrow> mat \<Rightarrow> int \<Rightarrow> rbm \<times> (error + ((mat \<times> mat) \<times> rng))"
where
  "reconstruct r g X n_gibbs =
     (case reconstruct_loop r (nat n_gibbs) g X None of Inl e \<Rightarrow> (r, Inl e)
      | Inr (g', v, None) \<Rightarrow> (r, Inl UnboundLocalError)
      | Inr (g', v, Some prob_v) \<Rightarrow> (r, Inr ((prob_v, v), g')))"

section \<open>Python floats in the schedule\<close>

text \<open>
  The number of Gibbs steps is an integer computed through Python floats, and one unit
  in the last place decides which integer it is; so here the floats are modelled as they
  are: IEEE 754 binary64 values, written as the rationals they denote. \<open>to_double\<close>
  rounds a rational to the nearest double, ties to the even significand, with gradual
  underflow below \<open>2\<^sup>-\<^sup>1\<^sup>0\<^sup>2\<^sup>2\<close>; a result of magnitude \<open>2\<^sup>1\<^sup>0\<^sup>2\<^sup>4\<close> or more does not exist.
  Python's \<^verbatim>\<open>int / int\<close> and its conversion of an \<^verbatim>\<open>int\<close> to a \<^verbatim>\<open>float\<close> are correctly
  rounded and raise \<^verbatim>\<open>OverflowError\<close>; a float product that overflows is \<open>inf\<close>, on
  which \<^verbatim>\<open>math.ceil\<close> raises \<^verbatim>\<open>OverflowError\<close>.
\<close>

definition pow2 :: "int \<Rightarrow> rat" where
  "pow2 e = (if 0 \<le> e then 2 ^ nat e else 1 / 2 ^ nat (- e))"

definition ilog2 :: "rat \<Rightarrow> int" where
  "ilog2 a = (if 1 \<le> a then bitlen \<lfloor>a\<rfloor> - 1 else - bitlen (\<lceil>1 / a\<rceil> - 1))"

definition round_half_even :: "rat \<Rightarrow> int" where
  "round_half_even x =
     (let f = \<lfloor>x\<rfloor>; d = x - of_int f
      in if d < 1 / 2 then f else if 1 / 2 < d then f + 1
         else if even f then f else f + 1)"

definition to_double :: "rat \<Rightarrow> error + rat" where
  "to_double x =
     (if x = 0 then Inr 0
      else let a = \<bar>x\<bar>;
               q = pow2 (max (ilog2 a) (- 1022) - 52);
               y = of_int (round_half_even (a / q)) * q
           in if pow2 1024 \<le> y then Inl OverflowError else Inr (sgn x * y))"

text \<open>\<^verbatim>\<open>int(math.ceil((epoch / num_epochs) * self.k))\<close>\<close>

definition ramp_steps :: "int \<Rightarrow> int \<Rightarrow> int \<Rightarrow> error + int" where
  "ramp_steps epoch num_epochs kk =
     (if num_epochs = 0 then Inl ZeroDivisionError
      else
     (case to_double (of_int epoch / of_int num_epochs) of Inl e \<Rightarrow> Inl e | Inr q \<Rightarrow>
     (case to_double (of_int kk) of Inl e \<Rightarrow> Inl e | Inr kf \<Rightarrow>
     (case to_double (q * kf) of Inl e \<Rightarrow> Inl e | Inr y \<Rightarrow> Inr \<lceil>y\<rceil>))))"

section \<open>The training step and the training loop\<close>

text \<open>The learning rate is a float in the program and a real number here.\<close>

definition step_lr :: "rbm \<Rightarrow> int \<Rightarrow> error + real" where
  "step_lr r epoch =
     (if learning_rate_decay r
      then (if epoch = 0 then Inl ZeroDivisionError
            else Inr (learning_rate r / real_of_int epoch))
      else Inr (learning_rate r))"

definition step_n_gibbs :: "rbm \<Rightarrow> int \<Rightarrow> int \<Rightarrow> error + int" where
  "step_n_gibbs r epoch num_epochs =
     (if increase_to_cd_k r then ramp_steps epoch num_epochs (k r) else Inr (k r))"

definition step_momentum :: "rbm \<Rightarrow> int \<Rightarrow> rbm" where
  "step_momentum r epoch = (if 5 < epoch then r\<lparr>momentum := final_momentum r\<rparr> else r)"

definition step ::
  "rbm \<Rightarrow> rng \<Rightarrow> mat \<Rightarrow> int \<Rightarrow> int \<Rightarrow> rbm \<times> (error + ((fl \<times> fl) \<times> rng))"
where
  "step r g input_data epoch num_epochs =
     (case step_n_gibbs r epoch num_epochs of Inl e \<Rightarrow> (r, Inl e)
      | Inr n_gibbs_sampling_steps \<Rightarrow>
     (case step_lr r epoch of Inl e \<Rightarrow> (r, Inl e)
      | Inr lr \<Rightarrow>
          contrastive_divergence (step_momentum r epoch) g input_data True
            n_gibbs_sampling_steps lr))"

text \<open>
  \<^verbatim>\<open>train\<close> is given either a \<^verbatim>\<open>DataLoader\<close>, here the batches it yields in one pass
  (the same in every epoch), or a dataset, here the matrix whose rows are its samples.
  A dataset is wrapped in \<^verbatim>\<open>DataLoader(train_dataloader, batch_size=batch_size)\<close>, which
  raises \<^verbatim>\<open>ValueError\<close> unless the batch size is positive and otherwise yields the
  samples in order, \<open>batch_size\<close> at a time, the last batch holding what is left. The
  labels, the two statistics tensors and the line printed every tenth epoch touch nothing
  of the model and are left out. An exception ends the run.
\<close>

datatype data_source = DataLoader "mat list" | Dataset mat

definition take_rows :: "mat \<Rightarrow> nat \<Rightarrow> nat \<Rightarrow> mat" where
  "take_rows A start n = \<lparr>nrows = n, ncols = ncols A, cell = (\<lambda>i j. cell A (start + i) j)\<rparr>"

definition batches_of :: "mat \<Rightarrow> nat \<Rightarrow> mat list" where
  "batches_of A b =
     map (\<lambda>i. take_rows A (i * b) (min b (nrows A - i * b))) [0..<(nrows A + b - 1) div b]"

definition make_loader :: "data_source \<Rightarrow> int \<Rightarrow> error + mat list" where
  "make_loader train_dataloader batch_size' =
     (case train_dataloader of
        DataLoader batches \<Rightarrow> Inr batches
      | Dataset samples \<Rightarrow>
          if batch_size' \<le> 0 then Inl ValueError
          else Inr (batches_of samples (nat batch_size')))"

fun train_batches :: "rbm \<Rightarrow> rng \<Rightarrow> int \<Rightarrow> int \<Rightarrow> mat list \<Rightarrow> rbm \<times> (error + rng)" where
  "train_batches r g epoch num_epochs [] = (r, Inr g)"
| "train_batches r g epoch num_epochs (batch # rest) =
     (case view batch (nrows batch) (visible_units r) of Inl e \<Rightarrow> (r, Inl e)
      | Inr batch' \<Rightarrow>
     (case step r g batch' epoch num_epochs of (r', Inl e) \<Rightarrow> (r', Inl e)
      | (r', Inr (_, g')) \<Rightarrow> train_batches r' g' epoch num_epochs rest))"

fun train_epochs :: "rbm \<Rightarrow> rng \<Rightarrow> mat list \<Rightarrow> int \<Rightarrow> int list \<Rightarrow> rbm \<times> (error + rng)" where
  "train_epochs r g train_loader num_epochs [] = (r, Inr g)"
| "train_epochs r g train_loader num_epochs (epoch # later) =
     (case train_batches r g epoch num_epochs train_loader of (r', Inl e) \<Rightarrow> (r', Inl e)
      | (r', Inr g') \<Rightarrow> train_epochs r' g' train_loader num_epochs later)"

definition train ::
  "rbm \<Rightarrow> rng \<Rightarrow> data_source \<Rightarrow> int \<Rightarrow> int \<Rightarrow> rbm \<times> (error + rng)"
where
  "train r g train_dataloader num_epochs batch_size' =
     (case make_loader train_dataloader batch_size' of
        Inl e \<Rightarrow> (r\<lparr>batch_size := batch_size'\<rparr>, Inl e)
      | Inr train_loader \<Rightarrow>
          train_epochs (r\<lparr>batch_size := batch_size'\<rparr>) g train_loader num_epochs
            [1..num_epochs])"

section \<open>Construction\<close>

text \<open>
  The constructor stores its arguments, draws the weights and zeroes the biases and the
  accumulators. \<^verbatim>\<open>torch.randn\<close> and \<^verbatim>\<open>torch.rand\<close> refuse a negative size, and
  \<^verbatim>\<open>1.0 / (visible_units + hidden_units)\<close> is a Python division. The draw is the head of
  the generator. Moving the tensors to an accelerator changes no value and is left out.
\<close>

definition zeros_vec :: "nat \<Rightarrow> vec" where
  "zeros_vec n = \<lparr>len = n, elt = (\<lambda>_. Fin 0)\<rparr>"

definition zeros_mat :: "nat \<Rightarrow> nat \<Rightarrow> mat" where
  "zeros_mat n m = \<lparr>nrows = n, ncols = m, cell = (\<lambda>_ _. Fin 0)\<rparr>"

definition init_W :: "bool \<Rightarrow> int \<Rightarrow> int \<Rightarrow> rng \<Rightarrow> error + mat" where
  "init_W xavier v h g =
     (if \<not> xavier
      then (if v < 0 \<or> h < 0 then Inl RuntimeError
            else Inr \<lparr>nrows = nat v, ncols = nat h,
                      cell = (\<lambda>i j. Fin (g 0 i j) * Fin 0.1)\<rparr>)
      else (if v + h = 0 then Inl ZeroDivisionError
            else if v < 0 \<or> h < 0 then Inl RuntimeError
            else let xavier_value = sqrt (1.0 / real_of_int (v + h))
                 in Inr \<lparr>nrows = nat v, ncols = nat h,
                         cell = (\<lambda>i j. Fin (- xavier_value)
                                         + Fin (g 0 i j) * Fin (2 * xavier_value))\<rparr>))"

definition RBM_init ::
  "int \<Rightarrow> int \<Rightarrow> int \<Rightarrow> real \<Rightarrow> bool \<Rightarrow> real \<Rightarrow> real \<Rightarrow> real \<Rightarrow> bool \<Rightarrow> bool \<Rightarrow> bool \<Rightarrow> rng
     \<Rightarrow> error + rbm"
where
  "RBM_init visible_units' hidden_units' k' learning_rate' learning_rate_decay'
      weight_decay' initial_momentum final_momentum' xavier_init' increase_to_cd_k'
      use_gpu' g =
     (case init_W xavier_init' visible_units' hidden_units' g of Inl e \<Rightarrow> Inl e
      | Inr w \<Rightarrow>
          Inr \<lparr>visible_units = nat visible_units', hidden_units = nat hidden_units',
               k = k', learning_rate = learning_rate',
               learning_rate_decay = learning_rate_decay', weight_decay = weight_decay',
               momentum = initial_momentum, final_momentum = final_momentum',
               xavier_init = xavier_init', increase_to_cd_k = increase_to_cd_k',
               use_gpu = use_gpu', batch_size = 16,
               W = w, h_bias = zeros_vec (nat hidden_units'),
               v_bias = zeros_vec (nat visible_units'),
               v_bias_update_acc = zeros_vec (nat visible_units'),
               h_bias_update_acc = zeros_vec (nat hidden_units'),
               grad_update = zeros_mat (nat visible_units') (nat hidden_units')\<rparr>)"

section \<open>Shapes\<close>

text \<open>The shapes the constructor gives the tensors of a model with \<open>visible_units\<close>
  visible and \<open>hidden_units\<close> hidden units; a batch fits when it has one column for
  each visible unit.\<close>

definition wf_rbm :: "rbm \<Rightarrow> bool" where
  "wf_rbm r =
     (nrows (W r) = visible_units r \<and> ncols (W r) = hidden_units r \<and>
      len (h_bias r) = hidden_units r \<and> len (v_bias r) = visible_units r \<and>
      len (v_bias_update_acc r) = visible_units r \<and>
      len (h_bias_update_acc r) = hidden_units r \<and>
      nrows (grad_update r) = visible_units r \<and> ncols (grad_update r) = hidden_units r)"

text \<open>What a method call returns, without the object and the generator.\<close>

definition returned :: "'s \<times> (error + ('a \<times> rng)) \<Rightarrow> error + 'a" where
  "returned res = map_sum id fst (snd res)"

definition phases_ok :: "rbm \<Rightarrow> mat \<Rightarrow> phases \<Rightarrow> bool" where
  "phases_ok r X ph =
     (nrows (positive_hidden_probabilities ph) = nrows X \<and>
      ncols (positive_hidden_probabilities ph) = hidden_units r \<and>
      nrows (positive_associations ph) = visible_units r \<and>
      ncols (positive_associations ph) = hidden_units r \<and>
      nrows (negative_visible_probabilities ph) = nrows X \<and>
      ncols (negative_visible_probabilities ph) = visible_units r \<and>
      nrows (negative_hidden_probabilities ph) = nrows X \<and>
      ncols (negative_hidden_probabilities ph) = hidden_units r \<and>
      nrows (negative_associations ph) = visible_units r \<and>
      ncols (negative_associations ph) = hidden_units r)"

section \<open>Concrete inputs\<close>

text \<open>
  A model with one visible and one hidden unit, weight 1, visible bias 1, hidden bias
  0, the constructor's batch size 16, and a weight accumulator that already holds 2; a
  batch of two samples, both 1; a generator whose draws are all \<open>1/2\<close>.
\<close>

definition const_vec :: "nat \<Rightarrow> fl \<Rightarrow> vec" where
  "const_vec n c = \<lparr>len = n, elt = (\<lambda>_. c)\<rparr>"

definition const_mat :: "nat \<Rightarrow> nat \<Rightarrow> fl \<Rightarrow> mat" where
  "const_mat n m c = \<lparr>nrows = n, ncols = m, cell = (\<lambda>_ _. c)\<rparr>"

definition const_rng :: "real \<Rightarrow> rng" where
  "const_rng c = (\<lambda>_ _ _. c)"

definition ex_rbm :: rbm where
  "ex_rbm =
     \<lparr>visible_units = 1, hidden_units = 1, k = 1, learning_rate = 1,
      learning_rate_decay = False, weight_decay = 1 / 2, momentum = 1 / 2,
      final_momentum = 9 / 10, xavier_init = False, increase_to_cd_k = False,
      use_gpu = False, batch_size = 16,
      W = const_mat 1 1 (Fin 1), h_bias = const_vec 1 (Fin 0), v_bias = const_vec 1 (Fin 1),
      v_bias_update_acc = const_vec 1 (Fin 0), h_bias_update_acc = const_vec 1 (Fin 0),
      grad_update = const_mat 1 1 (Fin 2)\<rparr>"

text \<open>The model the constructor returns for one visible and one hidden unit when
  the weight drawn is 10: weight 1, biases and accumulators 0, momentum the initial
  \<open>1/2\<close>.\<close>

definition ex_fresh :: rbm where
  "ex_fresh =
     ex_rbm\<lparr>v_bias := const_vec 1 (Fin 0), grad_update := const_mat 1 1 (Fin 0)\<rparr>"

definition ex_batch :: mat where
  "ex_batch = const_mat 2 1 (Fin 1)"

definition ex_rng :: rng where
  "ex_rng = const_rng (1 / 2)"

section \<open>The two readings of the reconstruction error\<close>

text \<open>
  \<open>feature_mean_error\<close> sums the squared differences over the batch axis, one sum for
  each feature, and averages these sums over the features. \<open>batch_mean_error\<close> follows
  the words of the specification: it sums the squared differences over the features, one
  sum for each sample, and averages these sums over the samples of the batch.
  \<open>cd_claimed_error\<close> is the second one at the negative-phase visible reconstruction
  that \<open>contrastive_divergence\<close> computes.
\<close>

definition feature_mean_error :: "mat \<Rightarrow> mat \<Rightarrow> fl" where
  "feature_mean_error X V =
     div_int (\<Sum>j<ncols X. \<Sum>i<nrows X.
                (cell X i j - cell V i j) * (cell X i j - cell V i j))
       (int (ncols X))"

definition batch_mean_error :: "mat \<Rightarrow> mat \<Rightarrow> fl" where
  "batch_mean_error X V =
     div_int (\<Sum>i<nrows X. \<Sum>j<ncols X.
                (cell X i j - cell V i j) * (cell X i j - cell V i j))
       (int (nrows X))"

definition cd_claimed_error :: "rbm \<Rightarrow> rng \<Rightarrow> mat \<Rightarrow> int \<Rightarrow> error + fl" where
  "cd_claimed_error r g X n =
     (case cd_phases r g X n of Inl e \<Rightarrow> Inl e
      | Inr (ph, _) \<Rightarrow> Inr (batch_mean_error X (negative_visible_probabilities ph)))"

section \<open>The update rule as the specification words it\<close>

text \<open>
  \<open>claimed_grad_update\<close> is the new value of the weight accumulator when the gradient
  is divided by the number of rows of the batch, as the specification has it;
  \<open>cd_claimed_grad_update\<close> takes the two associations from the phases that
  \<open>contrastive_divergence\<close> computes.
\<close>

definition claimed_grad_update :: "rbm \<Rightarrow> mat \<Rightarrow> phases \<Rightarrow> real \<Rightarrow> nat \<Rightarrow> nat \<Rightarrow> fl" where
  "claimed_grad_update r X ph lr i j =
     Fin (momentum r) * cell (grad_update r) i j
     + Fin lr * (div_int (cell (positive_associations ph) i j
                            - cell (negative_associations ph) i j) (int (nrows X))
                 - Fin (weight_decay r) * cell (W r) i j)"

definition cd_claimed_grad_update ::
  "rbm \<Rightarrow> rng \<Rightarrow> mat \<Rightarrow> int \<Rightarrow> real \<Rightarrow> nat \<Rightarrow> nat \<Rightarrow> error + fl" where
  "cd_claimed_grad_update r g X n lr i j =
     (case cd_phases r g X n of Inl e \<Rightarrow> Inl e
      | Inr (ph, _) \<Rightarrow> Inr (claimed_grad_update r X ph lr i j))"

text \<open>The fields that no statement of \<^verbatim>\<open>contrastive_divergence\<close>, \<^verbatim>\<open>step\<close> or the loops of
  \<^verbatim>\<open>train\<close> assigns; \<open>momentum\<close> is assigned by \<^verbatim>\<open>step\<close> and kept apart.\<close>

definition hyper ::
  "rbm \<Rightarrow> nat \<times> nat \<times> int \<times> real \<times> bool \<times> real \<times> real \<times> bool \<times> bool \<times> bool \<times> int" where
  "hyper r = (visible_units r, hidden_units r, k r, learning_rate r, learning_rate_decay r,
              weight_decay r, final_momentum r, xavier_init r, increase_to_cd_k r,
              use_gpu r, batch_size r)"

section \<open>Tensors of real numbers\<close>

text \<open>A tensor is finite when every element inside its shape is a real number; a
  model is finite when its weights, biases and accumulators are.\<close>

definition fin_mat :: "mat \<Rightarrow> bool" where
  "fin_mat A = (\<forall>i<nrows A. \<forall>j<ncols A. is_Fin (cell A i j))"

definition fin_vec :: "vec \<Rightarrow> bool" where
  "fin_vec a = (\<forall>j<len a. is_Fin (elt a j))"

definition fin_rbm :: "rbm \<Rightarrow> bool" where
  "fin_rbm r =
     (fin_mat (W r) \<and> fin_vec (h_bias r) \<and> fin_vec (v_bias r) \<and>
      fin_vec (v_bias_update_acc r) \<and> fin_vec (h_bias_update_acc r) \<and>
      fin_mat (grad_update r))"

definition fin_phases :: "phases \<Rightarrow> bool" where
  "fin_phases ph =
     (fin_mat (positive_hidden_probabilities ph) \<and> fin_mat (positive_associations ph) \<and>
      fin_mat (negative_visible_probabilities ph) \<and>
      fin_mat (negative_hidden_probabilities ph) \<and> fin_mat (negative_associations ph))"

section \<open>The new accumulators, element by element\<close>

text \<open>What the three assignments to the accumulators compute at one position, read
  off lines 186 to 193 of the program: the product with the learning rate comes before
  the division in the two bias accumulators and after it in the weight accumulator.\<close>

definition grad_update_rule :: "rbm \<Rightarrow> phases \<Rightarrow> real \<Rightarrow> nat \<Rightarrow> nat \<Rightarrow> fl" where
  "grad_update_rule r ph lr i j =
     Fin (momentum r) * cell (grad_update r) i j
     + Fin lr * (div_int (cell (positive_associations ph) i j
                            - cell (negative_associations ph) i j) (batch_size r)
                 - Fin (weight_decay r) * cell (W r) i j)"

definition v_bias_update_rule :: "rbm \<Rightarrow> mat \<Rightarrow> phases \<Rightarrow> real \<Rightarrow> nat \<Rightarrow> fl" where
  "v_bias_update_rule r X ph lr j =
     Fin (momentum r) * elt (v_bias_update_acc r) j
     + div_int (Fin lr * (\<Sum>i<nrows X. cell X i j
                                        - cell (negative_visible_probabilities ph) i j))
         (batch_size r)"

definition h_bias_update_rule :: "rbm \<Rightarrow> mat \<Rightarrow> phases \<Rightarrow> real \<Rightarrow> nat \<Rightarrow> fl" where
  "h_bias_update_rule r X ph lr j =
     Fin (momentum r) * elt (h_bias_update_acc r) j
     + div_int (Fin lr * (\<Sum>i<nrows X. cell (positive_hidden_probabilities ph) i j
                                        - cell (negative_hidden_probabilities ph) i j))
         (batch_size r)"

section \<open>Basic facts about elements and tensor operations\<close>

lemma zero_fl [simp]: "(0::fl) = Fin 0"
  by (simp add: zero_fl_def)

lemma fin_plus: "is_Fin a \<Longrightarrow> is_Fin b \<Longrightarrow> a + b = Fin (val a + val b)"
  by (cases a; cases b) simp_all

lemma fin_minus: "is_Fin a \<Longrightarrow> is_Fin b \<Longrightarrow> a - b = Fin (val a - val b)"
  by (cases a; cases b) (simp_all add: minus_fl_def)

lemma fin_times: "is_Fin a \<Longrightarrow> is_Fin b \<Longrightarrow> a * b = Fin (val a * val b)"
  by (cases a; cases b) simp_all

lemma fin_div_int: "is_Fin a \<Longrightarrow> d \<noteq> 0 \<Longrightarrow> div_int a d = Fin (val a / real_of_int d)"
  by (cases a) simp_all

lemma fin_relu: "is_Fin a \<Longrightarrow> relu_fl a = Fin (max 0 (val a))"
  by (cases a) simp_all

lemma fin_abs: "is_Fin a \<Longrightarrow> \<bar>a\<bar> = Fin \<bar>val a\<bar>"
  by (cases a) simp_all

lemma fin_ge: "is_Fin a \<Longrightarrow> ge_fl a (Fin u) = (u \<le> val a)"
  by (cases a) simp_all

lemmas fin_arith = fin_plus fin_minus fin_times fin_div_int fin_relu fin_abs fin_ge

lemma fin_sum: "\<forall>l<(n::nat). is_Fin (f l) \<Longrightarrow> (\<Sum>l<n. f l) = Fin (\<Sum>l<n. val (f l))"
  by (induction n) (simp_all add: fin_plus)

lemma sum_list_upt: "sum_list (map f [0..<n]) = (\<Sum>l<n. f l)"
  by (simp add: interv_sum_list_conv_sum_set_nat atLeast0LessThan)

lemma bdim_same [simp]: "bdim a a = Inr a"
  by (simp add: bdim_def)

lemma bix_less: "j < d \<Longrightarrow> bix d j = j"
  by (auto simp: bix_def)

lemma to_hidden_ok:
  assumes "ncols X = nrows (W r)" "len (h_bias r) = ncols (W r)"
  shows "\<exists>P S. to_hidden r g X = Inr (P, S, (\<lambda>n. g (Suc n))) \<and>
           nrows P = nrows X \<and> ncols P = ncols (W r) \<and>
           nrows S = nrows X \<and> ncols S = ncols (W r) \<and>
           (\<forall>i. \<forall>j<ncols (W r). cell P i j =
               relu_fl ((\<Sum>l<ncols X. cell X i l * cell (W r) l j) + elt (h_bias r) j)) \<and>
           (\<forall>i j. cell S i j = (if ge_fl (cell P i j) (Fin (g 0 i j)) then Fin 1 else Fin 0))"
  using assms
  by (simp add: to_hidden_def matmul_def mat_vec_op_def relu_def sampling_def rand_like_def
      sum_list_upt bix_less)

lemma to_visible_ok:
  assumes "ncols X = ncols (W r)" "len (v_bias r) = nrows (W r)"
  shows "\<exists>P S. to_visible r g X = Inr (P, S, (\<lambda>n. g (Suc n))) \<and>
           nrows P = nrows X \<and> ncols P = nrows (W r) \<and>
           nrows S = nrows X \<and> ncols S = nrows (W r) \<and>
           (\<forall>i. \<forall>j<nrows (W r). cell P i j =
               relu_fl ((\<Sum>l<ncols X. cell X i l * cell (W r) j l) + elt (v_bias r) j)) \<and>
           (\<forall>i j. cell S i j = (if ge_fl (cell P i j) (Fin (g 0 i j)) then Fin 1 else Fin 0))"
  using assms
  by (simp add: to_visible_def matmul_def mat_vec_op_def relu_def sampling_def rand_like_def
      sum_list_upt bix_less mat_t_def)

text \<open>Finite inputs give finite activations and samples.\<close>

lemma affine_fin:
  fixes n :: nat
  assumes "\<And>l. l < n \<Longrightarrow> is_Fin (x l)" "\<And>l. l < n \<Longrightarrow> is_Fin (w l)" "is_Fin c"
  shows "relu_fl ((\<Sum>l<n. x l * w l) + c) =
           Fin (max 0 ((\<Sum>l<n. val (x l) * val (w l)) + val c))"
proof -
  have "\<forall>l<n. is_Fin (x l * w l)"
    using assms(1,2) by (simp add: fin_times)
  then have "(\<Sum>l<n. x l * w l) = Fin (\<Sum>l<n. val (x l * w l))"
    by (rule fin_sum)
  also have "(\<Sum>l<n. val (x l * w l)) = (\<Sum>l<n. val (x l) * val (w l))"
    using assms(1,2) by (intro sum.cong) (simp_all add: fin_times)
  finally show ?thesis
    using assms(3) by (simp add: fin_plus fin_relu)
qed

lemma to_hidden_fin:
  assumes "ncols X = nrows (W r)" "len (h_bias r) = ncols (W r)"
    and "fin_mat X" "fin_mat (W r)" "fin_vec (h_bias r)"
  shows "\<exists>P S. to_hidden r g X = Inr (P, S, (\<lambda>n. g (Suc n))) \<and>
           nrows P = nrows X \<and> ncols P = ncols (W r) \<and>
           nrows S = nrows X \<and> ncols S = ncols (W r) \<and> fin_mat P \<and> fin_mat S \<and>
           (\<forall>i<nrows X. \<forall>j<ncols (W r). cell P i j =
               Fin (max 0 ((\<Sum>l<ncols X. val (cell X i l) * val (cell (W r) l j))
                           + val (elt (h_bias r) j)))) \<and>
           (\<forall>i<nrows X. \<forall>j<ncols (W r).
              cell S i j = (if g 0 i j \<le> val (cell P i j) then Fin 1 else Fin 0))"
proof -
  from to_hidden_ok [OF assms(1,2), of g] obtain P S where
    h: "to_hidden r g X = Inr (P, S, (\<lambda>n. g (Suc n)))"
      "nrows P = nrows X" "ncols P = ncols (W r)" "nrows S = nrows X" "ncols S = ncols (W r)"
      "\<forall>i. \<forall>j<ncols (W r). cell P i j =
               relu_fl ((\<Sum>l<ncols X. cell X i l * cell (W r) l j) + elt (h_bias r) j)"
      "\<forall>i j. cell S i j = (if ge_fl (cell P i j) (Fin (g 0 i j)) then Fin 1 else Fin 0)"
    by blast
  have P: "cell P i j =
             Fin (max 0 ((\<Sum>l<ncols X. val (cell X i l) * val (cell (W r) l j))
                         + val (elt (h_bias r) j)))"
    if "i < nrows X" "j < ncols (W r)" for i j
  proof -
    have "relu_fl ((\<Sum>l<ncols X. cell X i l * cell (W r) l j) + elt (h_bias r) j) =
            Fin (max 0 ((\<Sum>l<ncols X. val (cell X i l) * val (cell (W r) l j))
                        + val (elt (h_bias r) j)))"
      using assms that by (intro affine_fin) (simp_all add: fin_mat_def fin_vec_def)
    with h(6) that show ?thesis by simp
  qed
  have S: "cell S i j = (if g 0 i j \<le> val (cell P i j) then Fin 1 else Fin 0)"
    if "i < nrows X" "j < ncols (W r)" for i j
    using h(7) P [OF that] by simp
  have "fin_mat P" using P h(2,3) by (simp add: fin_mat_def)
  moreover have "fin_mat S" using S h(4,5) by (simp add: fin_mat_def)
  ultimately show ?thesis
    using h(1-5) P S by blast
qed

lemma to_visible_fin:
  assumes "ncols X = ncols (W r)" "len (v_bias r) = nrows (W r)"
    and "fin_mat X" "fin_mat (W r)" "fin_vec (v_bias r)"
  shows "\<exists>P S. to_visible r g X = Inr (P, S, (\<lambda>n. g (Suc n))) \<and>
           nrows P = nrows X \<and> ncols P = nrows (W r) \<and>
           nrows S = nrows X \<and> ncols S = nrows (W r) \<and> fin_mat P \<and> fin_mat S \<and>
           (\<forall>i<nrows X. \<forall>j<nrows (W r). cell P i j =
               Fin (max 0 ((\<Sum>l<ncols X. val (cell X i l) * val (cell (W r) j l))
                           + val (elt (v_bias r) j)))) \<and>
           (\<forall>i<nrows X. \<forall>j<nrows (W r).
              cell S i j = (if g 0 i j \<le> val (cell P i j) then Fin 1 else Fin 0))"
proof -
  from to_visible_ok [OF assms(1,2), of g] obtain P S where
    h: "to_visible r g X = Inr (P, S, (\<lambda>n. g (Suc n)))"
      "nrows P = nrows X" "ncols P = nrows (W r)" "nrows S = nrows X" "ncols S = nrows (W r)"
      "\<forall>i. \<forall>j<nrows (W r). cell P i j =
               relu_fl ((\<Sum>l<ncols X. cell X i l * cell (W r) j l) + elt (v_bias r) j)"
      "\<forall>i j. cell S i j = (if ge_fl (cell P i j) (Fin (g 0 i j)) then Fin 1 else Fin 0)"
    by blast
  have P: "cell P i j =
             Fin (max 0 ((\<Sum>l<ncols X. val (cell X i l) * val (cell (W r) j l))
                         + val (elt (v_bias r) j)))"
    if "i < nrows X" "j < nrows (W r)" for i j
  proof -
    have "relu_fl ((\<Sum>l<ncols X. cell X i l * cell (W r) j l) + elt (v_bias r) j) =
            Fin (max 0 ((\<Sum>l<ncols X. val (cell X i l) * val (cell (W r) j l))
                        + val (elt (v_bias r) j)))"
      using assms that by (intro affine_fin) (simp_all add: fin_mat_def fin_vec_def)
    with h(6) that show ?thesis by simp
  qed
  have S: "cell S i j = (if g 0 i j \<le> val (cell P i j) then Fin 1 else Fin 0)"
    if "i < nrows X" "j < nrows (W r)" for i j
    using h(7) P [OF that] by simp
  have "fin_mat P" using P h(2,3) by (simp add: fin_mat_def)
  moreover have "fin_mat S" using S h(4,5) by (simp add: fin_mat_def)
  ultimately show ?thesis
    using h(1-5) P S by blast
qed

lemma sum_Fin: "(\<Sum>l<(n::nat). Fin (f l)) = Fin (\<Sum>l<n. f l)"
  by (induction n) simp_all

section \<open>Contrastive divergence on well-shaped inputs\<close>

lemma set_grad_update_ok:
  assumes "wf_rbm r" "phases_ok r X ph"
  shows "\<exists>gu. set_grad_update ph lr r = Inr (r\<lparr>grad_update := gu\<rparr>) \<and>
           nrows gu = visible_units r \<and> ncols gu = hidden_units r \<and>
           (\<forall>i<visible_units r. \<forall>j<hidden_units r. cell gu i j = grad_update_rule r ph lr i j)"
  using assms
  apply (simp add: set_grad_update_def wf_rbm_def phases_ok_def mat_op_def mat_div_def
      mat_scale_def bix_less grad_update_rule_def)
  apply (rule exI, rule conjI, rule refl)
  apply (simp add: bix_less)
  done

lemma set_v_bias_update_ok:
  assumes "wf_rbm r" "phases_ok r X ph" "ncols X = visible_units r"
  shows "\<exists>vu. set_v_bias_update X ph lr r = Inr (r\<lparr>v_bias_update_acc := vu\<rparr>) \<and>
           len vu = visible_units r \<and>
           (\<forall>j<visible_units r. elt vu j = v_bias_update_rule r X ph lr j)"
  using assms
  apply (simp add: set_v_bias_update_def wf_rbm_def phases_ok_def mat_op_def vec_div_def
      vec_scale_def vec_op_def sum_dim0_def bix_less sum_list_upt v_bias_update_rule_def)
  apply (rule exI, rule conjI, rule refl)
  apply (simp add: bix_less)
  done

lemma set_h_bias_update_ok:
  assumes "wf_rbm r" "phases_ok r X ph"
  shows "\<exists>hu. set_h_bias_update ph lr r = Inr (r\<lparr>h_bias_update_acc := hu\<rparr>) \<and>
           len hu = hidden_units r \<and>
           (\<forall>j<hidden_units r. elt hu j = h_bias_update_rule r X ph lr j)"
  using assms
  apply (simp add: set_h_bias_update_def wf_rbm_def phases_ok_def mat_op_def vec_div_def
      vec_scale_def vec_op_def sum_dim0_def bix_less sum_list_upt h_bias_update_rule_def)
  apply (rule exI, rule conjI, rule refl)
  apply (simp add: bix_less)
  done

lemma add_W_ok:
  assumes "nrows (grad_update r) = nrows (W r)" "ncols (grad_update r) = ncols (W r)"
  shows "\<exists>w. add_W r = Inr (r\<lparr>W := w\<rparr>) \<and> nrows w = nrows (W r) \<and> ncols w = ncols (W r) \<and>
           (\<forall>i<nrows (W r). \<forall>j<ncols (W r). cell w i j = cell (W r) i j + cell (grad_update r) i j)"
  using assms
  apply (simp add: add_W_def mat_iadd_def mat_op_def)
  apply (rule exI, rule conjI, rule refl)
  apply (simp add: bix_less)
  done

lemma add_v_bias_ok:
  assumes "len (v_bias_update_acc r) = len (v_bias r)"
  shows "\<exists>b. add_v_bias r = Inr (r\<lparr>v_bias := b\<rparr>) \<and> len b = len (v_bias r) \<and>
           (\<forall>j<len (v_bias r). elt b j = elt (v_bias r) j + elt (v_bias_update_acc r) j)"
  using assms
  apply (simp add: add_v_bias_def vec_iadd_def vec_op_def)
  apply (rule exI, rule conjI, rule refl)
  apply (simp add: bix_less)
  done

lemma add_h_bias_ok:
  assumes "len (h_bias_update_acc r) = len (h_bias r)"
  shows "\<exists>b. add_h_bias r = Inr (r\<lparr>h_bias := b\<rparr>) \<and> len b = len (h_bias r) \<and>
           (\<forall>j<len (h_bias r). elt b j = elt (h_bias r) j + elt (h_bias_update_acc r) j)"
  using assms
  apply (simp add: add_h_bias_def vec_iadd_def vec_op_def)
  apply (rule exI, rule conjI, rule refl)
  apply (simp add: bix_less)
  done

text \<open>The training branch on well-shaped tensors: all six assignments run, whatever
  the batch size is.\<close>

lemma cd_update_ok:
  assumes wf: "wf_rbm r" and ph: "phases_ok r X ph" and X: "ncols X = visible_units r"
  shows "\<exists>gu vu hu w vb hb.
           cd_update X ph lr r =
             (r\<lparr>grad_update := gu, v_bias_update_acc := vu, h_bias_update_acc := hu,
                W := w, v_bias := vb, h_bias := hb\<rparr>, Inr ()) \<and>
           nrows gu = visible_units r \<and> ncols gu = hidden_units r \<and>
           len vu = visible_units r \<and> len hu = hidden_units r \<and>
           nrows w = visible_units r \<and> ncols w = hidden_units r \<and>
           len vb = visible_units r \<and> len hb = hidden_units r \<and>
           (\<forall>i<visible_units r. \<forall>j<hidden_units r.
              cell gu i j = grad_update_rule r ph lr i j \<and>
              cell w i j = cell (W r) i j + cell gu i j) \<and>
           (\<forall>j<visible_units r.
              elt vu j = v_bias_update_rule r X ph lr j \<and>
              elt vb j = elt (v_bias r) j + elt vu j) \<and>
           (\<forall>j<hidden_units r.
              elt hu j = h_bias_update_rule r X ph lr j \<and>
              elt hb j = elt (h_bias r) j + elt hu j)"
proof -
  from set_grad_update_ok [OF wf ph, of lr] obtain gu where
    1: "set_grad_update ph lr r = Inr (r\<lparr>grad_update := gu\<rparr>)"
       "nrows gu = visible_units r" "ncols gu = hidden_units r"
       "\<forall>i<visible_units r. \<forall>j<hidden_units r. cell gu i j = grad_update_rule r ph lr i j"
    by blast
  let ?r1 = "r\<lparr>grad_update := gu\<rparr>"
  have wf1: "wf_rbm ?r1" using wf 1 by (simp add: wf_rbm_def)
  have ph1: "phases_ok ?r1 X ph" using ph by (simp add: phases_ok_def)
  from set_v_bias_update_ok [OF wf1 ph1, of lr] X obtain vu where
    2: "set_v_bias_update X ph lr ?r1 = Inr (?r1\<lparr>v_bias_update_acc := vu\<rparr>)"
       "len vu = visible_units r"
       "\<forall>j<visible_units r. elt vu j = v_bias_update_rule r X ph lr j"
    by (auto simp: v_bias_update_rule_def)
  let ?r2 = "?r1\<lparr>v_bias_update_acc := vu\<rparr>"
  have wf2: "wf_rbm ?r2" using wf1 2 by (simp add: wf_rbm_def)
  have ph2: "phases_ok ?r2 X ph" using ph by (simp add: phases_ok_def)
  from set_h_bias_update_ok [OF wf2 ph2, of lr] obtain hu where
    3: "set_h_bias_update ph lr ?r2 = Inr (?r2\<lparr>h_bias_update_acc := hu\<rparr>)"
       "len hu = hidden_units r"
       "\<forall>j<hidden_units r. elt hu j = h_bias_update_rule r X ph lr j"
    by (auto simp: h_bias_update_rule_def)
  let ?r3 = "?r2\<lparr>h_bias_update_acc := hu\<rparr>"
  from add_W_ok [of ?r3] wf 1 obtain w where
    4: "add_W ?r3 = Inr (?r3\<lparr>W := w\<rparr>)" "nrows w = visible_units r" "ncols w = hidden_units r"
       "\<forall>i<visible_units r. \<forall>j<hidden_units r. cell w i j = cell (W r) i j + cell gu i j"
    by (auto simp: wf_rbm_def)
  let ?r4 = "?r3\<lparr>W := w\<rparr>"
  from add_v_bias_ok [of ?r4] wf 2 obtain vb where
    5: "add_v_bias ?r4 = Inr (?r4\<lparr>v_bias := vb\<rparr>)" "len vb = visible_units r"
       "\<forall>j<visible_units r. elt vb j = elt (v_bias r) j + elt vu j"
    by (auto simp: wf_rbm_def)
  let ?r5 = "?r4\<lparr>v_bias := vb\<rparr>"
  from add_h_bias_ok [of ?r5] wf 3 obtain hb where
    6: "add_h_bias ?r5 = Inr (?r5\<lparr>h_bias := hb\<rparr>)" "len hb = hidden_units r"
       "\<forall>j<hidden_units r. elt hb j = elt (h_bias r) j + elt hu j"
    by (auto simp: wf_rbm_def)
  have run: "cd_update X ph lr r = (?r5\<lparr>h_bias := hb\<rparr>, Inr ())"
    using 1(1) 2(1) 3(1) 4(1) 5(1) 6(1) by (simp add: cd_update_def)
  show ?thesis
    apply (rule exI [of _ gu], rule exI [of _ vu], rule exI [of _ hu],
           rule exI [of _ w], rule exI [of _ vb], rule exI [of _ hb])
    using run 1(2-) 2(2-) 3(2-) 4(2-) 5(2-) 6(2-) by simp
qed

lemma gibbs_loop_ok:
  assumes "wf_rbm r" "ncols h = hidden_units r"
  shows "\<exists>g2 h' vp hp. gibbs_loop r (Suc n) g h probs = Inr (g2, h', Some (vp, hp)) \<and>
           nrows vp = nrows h \<and> ncols vp = visible_units r \<and>
           nrows hp = nrows h \<and> ncols hp = hidden_units r \<and>
           (fin_rbm r \<longrightarrow> fin_mat h \<longrightarrow> fin_mat vp \<and> fin_mat hp)"
  using assms(2)
proof (induction n arbitrary: g h probs)
  case 0
  from to_visible_ok [of h r g] assms(1) 0 obtain vp vs where
    v: "to_visible r g h = Inr (vp, vs, (\<lambda>n. g (Suc n)))" "nrows vp = nrows h"
      "ncols vp = visible_units r"
    by (auto simp: wf_rbm_def)
  from to_hidden_ok [of vp r "\<lambda>n. g (Suc n)"] assms(1) v obtain hp hs where
    h: "to_hidden r (\<lambda>n. g (Suc n)) vp = Inr (hp, hs, (\<lambda>n. g (Suc (Suc n))))"
      "nrows hp = nrows h" "ncols hp = hidden_units r"
    by (auto simp: wf_rbm_def)
  have f: "fin_mat vp \<and> fin_mat hp" if "fin_rbm r" "fin_mat h"
  proof -
    from to_visible_fin [of h r g] assms(1) 0 that v(1) have "fin_mat vp"
      by (auto simp: wf_rbm_def fin_rbm_def)
    moreover from to_hidden_fin [of vp r "\<lambda>n. g (Suc n)"] assms(1) v that h(1) this
    have "fin_mat hp"
      by (auto simp: wf_rbm_def fin_rbm_def)
    ultimately show ?thesis by simp
  qed
  show ?case using v h f by simp
next
  case (Suc n)
  from to_visible_ok [of h r g] assms(1) Suc.prems obtain vp vs where
    v: "to_visible r g h = Inr (vp, vs, (\<lambda>n. g (Suc n)))" "nrows vp = nrows h"
      "ncols vp = visible_units r"
    by (auto simp: wf_rbm_def)
  from to_hidden_ok [of vp r "\<lambda>n. g (Suc n)"] assms(1) v obtain hp hs where
    h: "to_hidden r (\<lambda>n. g (Suc n)) vp = Inr (hp, hs, (\<lambda>n. g (Suc (Suc n))))"
      "nrows hp = nrows h" "ncols hp = hidden_units r"
      "nrows hs = nrows h" "ncols hs = hidden_units r"
    by (auto simp: wf_rbm_def)
  have f: "fin_mat hs" if "fin_rbm r" "fin_mat h"
  proof -
    from to_visible_fin [of h r g] assms(1) Suc.prems that v(1) have "fin_mat vp"
      by (auto simp: wf_rbm_def fin_rbm_def)
    with to_hidden_fin [of vp r "\<lambda>n. g (Suc n)"] assms(1) v that h(1)
    show "fin_mat hs"
      by (auto simp: wf_rbm_def fin_rbm_def)
  qed
  from Suc.IH [of hs "\<lambda>n. g (Suc (Suc n))" "Some (vp, hp)"] h f
  obtain g2 h' vp' hp' where
    "gibbs_loop r (Suc n) (\<lambda>n. g (Suc (Suc n))) hs (Some (vp, hp)) =
       Inr (g2, h', Some (vp', hp'))"
    "nrows vp' = nrows h" "ncols vp' = visible_units r"
    "nrows hp' = nrows h" "ncols hp' = hidden_units r"
    "fin_rbm r \<longrightarrow> fin_mat h \<longrightarrow> fin_mat vp' \<and> fin_mat hp'"
    by auto
  then show ?case using v h
    by (simp del: gibbs_loop.simps add: gibbs_loop.simps(2) [of r "Suc n" g h probs])
qed

lemma matmul_t_fin:
  assumes "nrows A = nrows B" "fin_mat A" "fin_mat B"
  shows "\<exists>C. matmul (mat_t A) B = Inr C \<and> nrows C = ncols A \<and> ncols C = ncols B \<and> fin_mat C"
proof -
  have "is_Fin (\<Sum>l<nrows A. cell A l i * cell B l j)" if "i < ncols A" "j < ncols B" for i j
  proof -
    have "\<forall>l<nrows A. is_Fin (cell A l i * cell B l j)"
      using assms that by (simp add: fin_mat_def fin_times)
    from fin_sum [OF this] show ?thesis by simp
  qed
  then show ?thesis
    using assms(1) by (simp add: matmul_def mat_t_def fin_mat_def sum_list_upt)
qed

lemma cd_phases_ok:
  assumes "wf_rbm r" "ncols X = visible_units r" "1 \<le> n"
  shows "\<exists>ph g'. cd_phases r g X n = Inr (ph, g') \<and> phases_ok r X ph \<and>
           (fin_rbm r \<longrightarrow> fin_mat X \<longrightarrow> fin_phases ph)"
proof -
  from to_hidden_ok [of X r g] assms obtain php pha where
    p: "to_hidden r g X = Inr (php, pha, (\<lambda>n. g (Suc n)))"
      "nrows php = nrows X" "ncols php = hidden_units r"
      "nrows pha = nrows X" "ncols pha = hidden_units r"
    by (auto simp: wf_rbm_def)
  have pf: "fin_mat php \<and> fin_mat pha" if "fin_rbm r" "fin_mat X"
    using to_hidden_fin [of X r g] assms that p(1) by (auto simp: wf_rbm_def fin_rbm_def)
  from assms(3) obtain m where m: "nat n = Suc m"
    by (cases "nat n") auto
  from gibbs_loop_ok [OF assms(1), of pha m "\<lambda>n. g (Suc n)" None] p
  obtain g2 h' vp hp where
    l: "gibbs_loop r (Suc m) (\<lambda>n. g (Suc n)) pha None = Inr (g2, h', Some (vp, hp))"
      "nrows vp = nrows X" "ncols vp = visible_units r"
      "nrows hp = nrows X" "ncols hp = hidden_units r"
      "fin_rbm r \<longrightarrow> fin_mat pha \<longrightarrow> fin_mat vp \<and> fin_mat hp"
    by auto
  obtain pa where pa: "matmul (mat_t X) php = Inr pa"
    "nrows pa = visible_units r" "ncols pa = hidden_units r"
    using p(2,3) assms(2) by (simp add: matmul_def mat_t_def)
  obtain na where na: "matmul (mat_t vp) hp = Inr na"
    "nrows na = visible_units r" "ncols na = hidden_units r"
    using l(2-5) by (simp add: matmul_def mat_t_def)
  have fin: "fin_phases \<lparr>positive_hidden_probabilities = php, positive_associations = pa,
              negative_visible_probabilities = vp, negative_hidden_probabilities = hp,
              negative_associations = na\<rparr>" if "fin_rbm r" "fin_mat X"
  proof -
    from pf [OF that] l(6) that have f: "fin_mat php" "fin_mat vp" "fin_mat hp"
      by simp_all
    from matmul_t_fin [of X php] that(2) f(1) p(2) pa(1) have "fin_mat pa" by auto
    moreover from matmul_t_fin [of vp hp] f(2,3) l(2,4) na(1) have "fin_mat na" by auto
    ultimately show ?thesis using f by (simp add: fin_phases_def)
  qed
  show ?thesis
    using p l(1-5) m assms(2) pa na fin
    by (simp add: cd_phases_def phases_ok_def del: gibbs_loop.simps)
qed

lemma cd_error_ok:
  assumes "phases_ok r X ph" "ncols X = visible_units r"
  shows "cd_error X ph = Inr (feature_mean_error X (negative_visible_probabilities ph))"
  using assms
  by (simp add: cd_error_def phases_ok_def mat_op_def mean_vec_def sum_dim0_def
      mat_square_def sum_list_upt feature_mean_error_def bix_less)

lemmas ex_defs = ex_rbm_def ex_batch_def ex_rng_def const_mat_def const_vec_def const_rng_def

lemmas op_defs = to_hidden_def to_visible_def matmul_def mat_vec_op_def mat_op_def vec_op_def
  relu_def sampling_def rand_like_def mat_t_def bdim_def bix_def sum_dim0_def mean_vec_def
  mat_square_def sum_abs_def mat_div_def vec_div_def mat_scale_def vec_scale_def
  mat_iadd_def vec_iadd_def minus_fl_def inf_of_def

lemma ex_phases:
  "cd_phases ex_rbm ex_rng ex_batch 1 =
     Inr (\<lparr>positive_hidden_probabilities = const_mat 2 1 (Fin 1),
           positive_associations = const_mat 1 1 (Fin 2),
           negative_visible_probabilities = const_mat 2 1 (Fin 2),
           negative_hidden_probabilities = const_mat 2 1 (Fin 2),
           negative_associations = const_mat 1 1 (Fin 8)\<rparr>, ex_rng)"
  by (simp add: cd_phases_def ex_defs op_defs sum_list_upt sum_Fin)

lemma cd_eval_ok:
  assumes wf: "wf_rbm r" and X: "ncols X = visible_units r" and n: "1 \<le> n"
  shows "\<exists>ph g'. cd_phases r g X n = Inr (ph, g') \<and> phases_ok r X ph \<and>
           (fin_rbm r \<longrightarrow> fin_mat X \<longrightarrow> fin_phases ph) \<and>
           contrastive_divergence r g X False n lr =
             (r, Inr ((feature_mean_error X (negative_visible_probabilities ph),
                       sum_abs (grad_update r)), g'))"
proof -
  from cd_phases_ok [OF wf X n, of g] obtain ph g' where
    p: "cd_phases r g X n = Inr (ph, g')" "phases_ok r X ph"
       "fin_rbm r \<longrightarrow> fin_mat X \<longrightarrow> fin_phases ph"
    by blast
  from cd_error_ok [OF p(2) X] p show ?thesis
    by (simp add: contrastive_divergence_def)
qed

lemma cd_train_ok:
  assumes wf: "wf_rbm r" and X: "ncols X = visible_units r" and n: "1 \<le> n"
  shows "\<exists>ph g' gu vu hu w vb hb.
           cd_phases r g X n = Inr (ph, g') \<and> phases_ok r X ph \<and>
           (fin_rbm r \<longrightarrow> fin_mat X \<longrightarrow> fin_phases ph) \<and>
           contrastive_divergence r g X True n lr =
             (r\<lparr>grad_update := gu, v_bias_update_acc := vu, h_bias_update_acc := hu,
                W := w, v_bias := vb, h_bias := hb\<rparr>,
              Inr ((feature_mean_error X (negative_visible_probabilities ph), sum_abs gu),
                   g')) \<and>
           nrows gu = visible_units r \<and> ncols gu = hidden_units r \<and>
           len vu = visible_units r \<and> len hu = hidden_units r \<and>
           nrows w = visible_units r \<and> ncols w = hidden_units r \<and>
           len vb = visible_units r \<and> len hb = hidden_units r \<and>
           (\<forall>i<visible_units r. \<forall>j<hidden_units r.
              cell gu i j = grad_update_rule r ph lr i j \<and>
              cell w i j = cell (W r) i j + cell gu i j) \<and>
           (\<forall>j<visible_units r.
              elt vu j = v_bias_update_rule r X ph lr j \<and>
              elt vb j = elt (v_bias r) j + elt vu j) \<and>
           (\<forall>j<hidden_units r.
              elt hu j = h_bias_update_rule r X ph lr j \<and>
              elt hb j = elt (h_bias r) j + elt hu j)"
proof -
  from cd_phases_ok [OF wf X n, of g] obtain ph g' where
    p: "cd_phases r g X n = Inr (ph, g')" "phases_ok r X ph"
       "fin_rbm r \<longrightarrow> fin_mat X \<longrightarrow> fin_phases ph"
    by blast
  from cd_update_ok [OF wf p(2) X, of lr] obtain gu vu hu w vb hb where
    u: "cd_update X ph lr r =
             (r\<lparr>grad_update := gu, v_bias_update_acc := vu, h_bias_update_acc := hu,
                W := w, v_bias := vb, h_bias := hb\<rparr>, Inr ())"
      and rest: "nrows gu = visible_units r \<and> ncols gu = hidden_units r \<and>
           len vu = visible_units r \<and> len hu = hidden_units r \<and>
           nrows w = visible_units r \<and> ncols w = hidden_units r \<and>
           len vb = visible_units r \<and> len hb = hidden_units r \<and>
           (\<forall>i<visible_units r. \<forall>j<hidden_units r.
              cell gu i j = grad_update_rule r ph lr i j \<and>
              cell w i j = cell (W r) i j + cell gu i j) \<and>
           (\<forall>j<visible_units r.
              elt vu j = v_bias_update_rule r X ph lr j \<and>
              elt vb j = elt (v_bias r) j + elt vu j) \<and>
           (\<forall>j<hidden_units r.
              elt hu j = h_bias_update_rule r X ph lr j \<and>
              elt hb j = elt (h_bias r) j + elt hu j)"
    by blast
  have cd: "contrastive_divergence r g X True n lr =
             (r\<lparr>grad_update := gu, v_bias_update_acc := vu, h_bias_update_acc := hu,
                W := w, v_bias := vb, h_bias := hb\<rparr>,
              Inr ((feature_mean_error X (negative_visible_probabilities ph), sum_abs gu),
                   g'))"
    using p(1) u cd_error_ok [OF p(2) X] by (simp add: contrastive_divergence_def)
  show ?thesis
    apply (rule exI [of _ ph], rule exI [of _ g'])
    apply (rule exI [of _ gu], rule exI [of _ vu], rule exI [of _ hu],
           rule exI [of _ w], rule exI [of _ vb], rule exI [of _ hb])
    using p cd rest by blast
qed

lemma ex_step_state:
  "fst (contrastive_divergence ex_rbm ex_rng ex_batch True 1 1) =
     ex_rbm\<lparr>grad_update := const_mat 1 1 (Fin (1 / 8)),
            v_bias_update_acc := const_vec 1 (Fin (- 1 / 8)),
            h_bias_update_acc := const_vec 1 (Fin (- 1 / 8)),
            W := const_mat 1 1 (Fin (9 / 8)),
            v_bias := const_vec 1 (Fin (7 / 8)), h_bias := const_vec 1 (Fin (- 1 / 8))\<rparr>"
  unfolding contrastive_divergence_def ex_phases
  by (simp add: cd_update_def set_grad_update_def set_v_bias_update_def set_h_bias_update_def
      add_W_def add_v_bias_def add_h_bias_def cd_error_def ex_defs op_defs sum_list_upt sum_Fin)

text \<open>With real numbers everywhere and a divisor other than zero, the three rules are
  the usual arithmetic.\<close>

lemma diff_sum_fin:
  fixes n :: nat
  assumes "\<forall>i<n. is_Fin (a i)" "\<forall>i<n. is_Fin (b i)"
  shows "(\<Sum>i<n. a i - b i) = Fin (\<Sum>i<n. val (a i) - val (b i))"
proof -
  have "\<forall>i<n. is_Fin (a i - b i)"
    using assms by (simp add: fin_minus)
  then have "(\<Sum>i<n. a i - b i) = Fin (\<Sum>i<n. val (a i - b i))"
    by (rule fin_sum)
  also have "(\<Sum>i<n. val (a i - b i)) = (\<Sum>i<n. val (a i) - val (b i))"
    using assms by (intro sum.cong) (simp_all add: fin_minus)
  finally show ?thesis .
qed

lemma grad_update_rule_fin:
  assumes "is_Fin (cell (grad_update r) i j)" "is_Fin (cell (W r) i j)"
    "is_Fin (cell (positive_associations ph) i j)"
    "is_Fin (cell (negative_associations ph) i j)" "batch_size r \<noteq> 0"
  shows "grad_update_rule r ph lr i j =
           Fin (momentum r * val (cell (grad_update r) i j)
                + lr * ((val (cell (positive_associations ph) i j)
                           - val (cell (negative_associations ph) i j))
                          / real_of_int (batch_size r)
                        - weight_decay r * val (cell (W r) i j)))"
  using assms by (simp add: grad_update_rule_def fin_arith)

lemma v_bias_update_rule_fin:
  assumes "is_Fin (elt (v_bias_update_acc r) j)"
    "\<forall>i<nrows X. is_Fin (cell X i j)"
    "\<forall>i<nrows X. is_Fin (cell (negative_visible_probabilities ph) i j)"
    "batch_size r \<noteq> 0"
  shows "v_bias_update_rule r X ph lr j =
           Fin (momentum r * val (elt (v_bias_update_acc r) j)
                + lr * ((\<Sum>i<nrows X. val (cell X i j)
                                        - val (cell (negative_visible_probabilities ph) i j))
                          / real_of_int (batch_size r)))"
  using assms diff_sum_fin [OF assms(2,3)]
  by (simp add: v_bias_update_rule_def fin_arith)

lemma h_bias_update_rule_fin:
  assumes "is_Fin (elt (h_bias_update_acc r) j)"
    "\<forall>i<nrows X. is_Fin (cell (positive_hidden_probabilities ph) i j)"
    "\<forall>i<nrows X. is_Fin (cell (negative_hidden_probabilities ph) i j)"
    "batch_size r \<noteq> 0"
  shows "h_bias_update_rule r X ph lr j =
           Fin (momentum r * val (elt (h_bias_update_acc r) j)
                + lr * ((\<Sum>i<nrows X. val (cell (positive_hidden_probabilities ph) i j)
                                        - val (cell (negative_hidden_probabilities ph) i j))
                          / real_of_int (batch_size r)))"
  using assms diff_sum_fin [OF assms(2,3)]
  by (simp add: h_bias_update_rule_def fin_arith)

lemma feature_mean_error_fin:
  assumes "fin_mat X" "fin_mat V" "nrows V = nrows X" "ncols V = ncols X" "0 < ncols X"
  shows "feature_mean_error X V =
           Fin ((\<Sum>j<ncols X. \<Sum>i<nrows X. (val (cell X i j) - val (cell V i j))\<^sup>2)
                / real (ncols X))"
proof -
  have c: "(cell X i j - cell V i j) * (cell X i j - cell V i j) =
             Fin ((val (cell X i j) - val (cell V i j))\<^sup>2)"
    if "i < nrows X" "j < ncols X" for i j
    using assms that by (simp add: fin_mat_def fin_arith power2_eq_square)
  have "(\<Sum>i<nrows X. (cell X i j - cell V i j) * (cell X i j - cell V i j)) =
          Fin (\<Sum>i<nrows X. (val (cell X i j) - val (cell V i j))\<^sup>2)"
    if "j < ncols X" for j
  proof -
    have "(\<Sum>i<nrows X. (cell X i j - cell V i j) * (cell X i j - cell V i j)) =
            (\<Sum>i<nrows X. Fin ((val (cell X i j) - val (cell V i j))\<^sup>2))"
      using c that by (intro sum.cong) simp_all
    then show ?thesis by (simp add: sum_Fin)
  qed
  then have "(\<Sum>j<ncols X. \<Sum>i<nrows X.
                (cell X i j - cell V i j) * (cell X i j - cell V i j)) =
             (\<Sum>j<ncols X. Fin (\<Sum>i<nrows X. (val (cell X i j) - val (cell V i j))\<^sup>2))"
    by (intro sum.cong) simp_all
  then show ?thesis
    using assms(5) by (simp add: feature_mean_error_def sum_Fin)
qed

lemma rules_fin:
  assumes wf: "wf_rbm r" and ph: "phases_ok r X ph" and X: "ncols X = visible_units r"
    and f: "fin_rbm r" "fin_mat X" "fin_phases ph" and bs: "batch_size r \<noteq> 0"
  shows "\<forall>i<visible_units r. \<forall>j<hidden_units r.
           grad_update_rule r ph lr i j =
             Fin (momentum r * val (cell (grad_update r) i j)
                  + lr * ((val (cell (positive_associations ph) i j)
                             - val (cell (negative_associations ph) i j))
                            / real_of_int (batch_size r)
                          - weight_decay r * val (cell (W r) i j)))"
    and "\<forall>j<visible_units r.
           v_bias_update_rule r X ph lr j =
             Fin (momentum r * val (elt (v_bias_update_acc r) j)
                  + lr * ((\<Sum>i<nrows X. val (cell X i j)
                                          - val (cell (negative_visible_probabilities ph) i j))
                            / real_of_int (batch_size r)))"
    and "\<forall>j<hidden_units r.
           h_bias_update_rule r X ph lr j =
             Fin (momentum r * val (elt (h_bias_update_acc r) j)
                  + lr * ((\<Sum>i<nrows X. val (cell (positive_hidden_probabilities ph) i j)
                                          - val (cell (negative_hidden_probabilities ph) i j))
                            / real_of_int (batch_size r)))"
proof -
  show "\<forall>i<visible_units r. \<forall>j<hidden_units r.
           grad_update_rule r ph lr i j =
             Fin (momentum r * val (cell (grad_update r) i j)
                  + lr * ((val (cell (positive_associations ph) i j)
                             - val (cell (negative_associations ph) i j))
                            / real_of_int (batch_size r)
                          - weight_decay r * val (cell (W r) i j)))"
  proof (intro allI impI)
    fix i j assume "i < visible_units r" "j < hidden_units r"
    with wf ph f show "grad_update_rule r ph lr i j =
             Fin (momentum r * val (cell (grad_update r) i j)
                  + lr * ((val (cell (positive_associations ph) i j)
                             - val (cell (negative_associations ph) i j))
                            / real_of_int (batch_size r)
                          - weight_decay r * val (cell (W r) i j)))"
      by (intro grad_update_rule_fin bs)
         (simp_all add: wf_rbm_def phases_ok_def fin_rbm_def fin_phases_def fin_mat_def)
  qed
  show "\<forall>j<visible_units r.
           v_bias_update_rule r X ph lr j =
             Fin (momentum r * val (elt (v_bias_update_acc r) j)
                  + lr * ((\<Sum>i<nrows X. val (cell X i j)
                                          - val (cell (negative_visible_probabilities ph) i j))
                            / real_of_int (batch_size r)))"
  proof (intro allI impI)
    fix j assume "j < visible_units r"
    with wf ph X f show "v_bias_update_rule r X ph lr j =
             Fin (momentum r * val (elt (v_bias_update_acc r) j)
                  + lr * ((\<Sum>i<nrows X. val (cell X i j)
                                          - val (cell (negative_visible_probabilities ph) i j))
                            / real_of_int (batch_size r)))"
      by (intro v_bias_update_rule_fin bs)
         (simp_all add: wf_rbm_def phases_ok_def fin_rbm_def fin_phases_def fin_mat_def
            fin_vec_def)
  qed
  show "\<forall>j<hidden_units r.
           h_bias_update_rule r X ph lr j =
             Fin (momentum r * val (elt (h_bias_update_acc r) j)
                  + lr * ((\<Sum>i<nrows X. val (cell (positive_hidden_probabilities ph) i j)
                                          - val (cell (negative_hidden_probabilities ph) i j))
                            / real_of_int (batch_size r)))"
  proof (intro allI impI)
    fix j assume "j < hidden_units r"
    with wf ph f show "h_bias_update_rule r X ph lr j =
             Fin (momentum r * val (elt (h_bias_update_acc r) j)
                  + lr * ((\<Sum>i<nrows X. val (cell (positive_hidden_probabilities ph) i j)
                                          - val (cell (negative_hidden_probabilities ph) i j))
                            / real_of_int (batch_size r)))"
      by (intro h_bias_update_rule_fin bs)
         (simp_all add: wf_rbm_def phases_ok_def fin_rbm_def fin_phases_def fin_mat_def
            fin_vec_def)
  qed
qed

lemmas step_defs = step_def step_n_gibbs_def step_lr_def step_momentum_def
  contrastive_divergence_def cd_phases_def cd_error_def
  cd_update_def set_grad_update_def set_v_bias_update_def set_h_bias_update_def
  add_W_def add_v_bias_def add_h_bias_def

lemma ex_fresh_step_6:
  "fst (step ex_fresh ex_rng ex_batch 6 10) =
     ex_fresh\<lparr>momentum := 9 / 10, grad_update := const_mat 1 1 (Fin (- 1 / 2)),
              v_bias_update_acc := const_vec 1 (Fin 0),
              h_bias_update_acc := const_vec 1 (Fin 0),
              W := const_mat 1 1 (Fin (1 / 2)),
              v_bias := const_vec 1 (Fin 0), h_bias := const_vec 1 (Fin 0)\<rparr>"
  by (simp add: step_defs ex_fresh_def ex_defs op_defs sum_list_upt sum_Fin)

lemma ex_fresh_step_6_1:
  "fst (step (ex_fresh\<lparr>momentum := 9 / 10, grad_update := const_mat 1 1 (Fin (- 1 / 2)),
              v_bias_update_acc := const_vec 1 (Fin 0),
              h_bias_update_acc := const_vec 1 (Fin 0),
              W := const_mat 1 1 (Fin (1 / 2)),
              v_bias := const_vec 1 (Fin 0), h_bias := const_vec 1 (Fin 0)\<rparr>)
          ex_rng ex_batch 1 10) =
     ex_fresh\<lparr>momentum := 9 / 10, grad_update := const_mat 1 1 (Fin (- 209 / 320)),
              v_bias_update_acc := const_vec 1 (Fin (1 / 16)),
              h_bias_update_acc := const_vec 1 (Fin (1 / 32)),
              W := const_mat 1 1 (Fin (- 49 / 320)),
              v_bias := const_vec 1 (Fin (1 / 16)), h_bias := const_vec 1 (Fin (1 / 32))\<rparr>"
  by (simp add: step_defs ex_fresh_def ex_defs op_defs sum_list_upt sum_Fin)

section \<open>The reconstruction loop\<close>

lemma reconstruct_loop_first:
  "reconstruct_loop r (Suc n) g v p = reconstruct_loop r (Suc n) g v q"
  by simp

lemma gibbs_pair_ok:
  assumes "wf_rbm r" "ncols v = visible_units r"
  shows "\<exists>ph h pv v'. to_hidden r g v = Inr (ph, h, (\<lambda>m. g (Suc m))) \<and>
           to_visible r (\<lambda>m. g (Suc m)) ph = Inr (pv, v', (\<lambda>m. g (Suc (Suc m)))) \<and>
           nrows ph = nrows v \<and> ncols ph = hidden_units r \<and>
           nrows pv = nrows v \<and> ncols pv = visible_units r \<and>
           nrows v' = nrows v \<and> ncols v' = visible_units r"
proof -
  from to_hidden_ok [of v r g] assms obtain ph hs where
    h: "to_hidden r g v = Inr (ph, hs, (\<lambda>n. g (Suc n)))" "nrows ph = nrows v"
      "ncols ph = hidden_units r"
    by (auto simp: wf_rbm_def)
  from to_visible_ok [of ph r "\<lambda>n. g (Suc n)"] assms(1) h obtain pv vs where
    v: "to_visible r (\<lambda>n. g (Suc n)) ph = Inr (pv, vs, (\<lambda>n. g (Suc (Suc n))))"
      "nrows pv = nrows v" "ncols pv = visible_units r"
      "nrows vs = nrows v" "ncols vs = visible_units r"
    by (auto simp: wf_rbm_def)
  show ?thesis using h v by blast
qed

lemma reconstruct_loop_ok:
  assumes "wf_rbm r" "ncols v = visible_units r"
  shows "\<exists>v' pv. reconstruct_loop r (Suc n) g v prob_v =
                    Inr ((\<lambda>m. g (2 * Suc n + m)), v', Some pv) \<and>
           nrows pv = nrows v \<and> ncols pv = visible_units r \<and>
           nrows v' = nrows v \<and> ncols v' = visible_units r"
  using assms(2)
proof (induction n arbitrary: g v prob_v)
  case 0
  from gibbs_pair_ok [OF assms(1) 0, of g] show ?case
    by auto
next
  case (Suc n)
  from gibbs_pair_ok [OF assms(1) Suc.prems, of g] obtain ph h pv vs where
    p: "to_hidden r g v = Inr (ph, h, (\<lambda>m. g (Suc m)))"
       "to_visible r (\<lambda>m. g (Suc m)) ph = Inr (pv, vs, (\<lambda>m. g (Suc (Suc m))))"
       "nrows vs = nrows v" "ncols vs = visible_units r"
    by blast
  from Suc.IH [of vs "\<lambda>m. g (Suc (Suc m))" "Some pv"] p(4)
  obtain v' pv' where
    l: "reconstruct_loop r (Suc n) (\<lambda>m. g (Suc (Suc m))) vs (Some pv) =
          Inr ((\<lambda>m. g (Suc (Suc (2 * Suc n + m)))), v', Some pv')"
       "nrows pv' = nrows vs" "ncols pv' = visible_units r"
       "nrows v' = nrows vs" "ncols v' = visible_units r"
    by blast
  have "reconstruct_loop r (Suc (Suc n)) g v prob_v =
          reconstruct_loop r (Suc n) (\<lambda>m. g (Suc (Suc m))) vs (Some pv)"
    using p(1,2) by (simp del: reconstruct_loop.simps add: reconstruct_loop.simps(2) [of r "Suc n"])
  with l p(3) show ?case
    by (simp del: reconstruct_loop.simps)
qed

lemma reconstruct_unfold:
  assumes "wf_rbm r" "ncols X = visible_units r" "1 \<le> n"
  shows "\<exists>ph h pv v. to_hidden r g X = Inr (ph, h, (\<lambda>m. g (Suc m))) \<and>
           to_visible r (\<lambda>m. g (Suc m)) ph = Inr (pv, v, (\<lambda>m. g (Suc (Suc m)))) \<and>
           nrows v = nrows X \<and> ncols v = visible_units r \<and>
           reconstruct r g X n =
             (if n = 1 then (r, Inr ((pv, v), (\<lambda>m. g (Suc (Suc m)))))
              else reconstruct r (\<lambda>m. g (Suc (Suc m))) v (n - 1))"
proof -
  from gibbs_pair_ok [OF assms(1,2), of g] obtain ph h pv v where
    p: "to_hidden r g X = Inr (ph, h, (\<lambda>m. g (Suc m)))"
       "to_visible r (\<lambda>m. g (Suc m)) ph = Inr (pv, v, (\<lambda>m. g (Suc (Suc m))))"
       "nrows v = nrows X" "ncols v = visible_units r"
    by blast
  from assms(3) obtain m where m: "nat n = Suc m"
    by (cases "nat n") auto
  have u: "reconstruct_loop r (Suc m) g X None =
             reconstruct_loop r m (\<lambda>m. g (Suc (Suc m))) v (Some pv)"
    using p(1,2) by simp
  have e: "reconstruct r g X n =
             (if n = 1 then (r, Inr ((pv, v), (\<lambda>m. g (Suc (Suc m)))))
              else reconstruct r (\<lambda>m. g (Suc (Suc m))) v (n - 1))"
  proof (cases m)
    case 0
    with m assms(3) have "n = 1" by simp
    with u m 0 show ?thesis
      by (simp add: reconstruct_def)
  next
    case (Suc m')
    with m have n: "n \<noteq> 1" "nat (n - 1) = Suc m'" by simp_all
    have "reconstruct_loop r (Suc m') (\<lambda>m. g (Suc (Suc m))) v (Some pv) =
            reconstruct_loop r (Suc m') (\<lambda>m. g (Suc (Suc m))) v None"
      by (rule reconstruct_loop_first)
    with u Suc have "reconstruct_loop r (nat n) g X None =
            reconstruct_loop r (nat (n - 1)) (\<lambda>m. g (Suc (Suc m))) v None"
      using m n by (simp del: reconstruct_loop.simps)
    then show ?thesis
      using n(1) by (simp add: reconstruct_def del: reconstruct_loop.simps)
  qed
  from p e show ?thesis by blast
qed

section \<open>What training leaves alone\<close>

lemma stmt_frame:
  "set_grad_update ph lr r = Inr r' \<Longrightarrow> hyper r' = hyper r \<and> momentum r' = momentum r"
  "set_v_bias_update X ph lr r = Inr r' \<Longrightarrow> hyper r' = hyper r \<and> momentum r' = momentum r"
  "set_h_bias_update ph lr r = Inr r' \<Longrightarrow> hyper r' = hyper r \<and> momentum r' = momentum r"
  "add_W r = Inr r' \<Longrightarrow> hyper r' = hyper r \<and> momentum r' = momentum r"
  "add_v_bias r = Inr r' \<Longrightarrow> hyper r' = hyper r \<and> momentum r' = momentum r"
  "add_h_bias r = Inr r' \<Longrightarrow> hyper r' = hyper r \<and> momentum r' = momentum r"
  by (auto simp: set_grad_update_def set_v_bias_update_def set_h_bias_update_def add_W_def
      add_v_bias_def add_h_bias_def hyper_def split: sum.splits)

lemma run_stmts_frame:
  assumes "\<And>s r r'. s \<in> set ss \<Longrightarrow> s r = Inr r' \<Longrightarrow> f r' = f r"
  shows "f (fst (run_stmts ss r)) = f r"
  using assms
proof (induction ss arbitrary: r)
  case Nil
  then show ?case by simp
next
  case (Cons s ss)
  show ?case
  proof (cases "s r")
    case (Inl e)
    then show ?thesis by simp
  next
    case (Inr r')
    have "f (fst (run_stmts ss r')) = f r'"
      using Cons.prems by (intro Cons.IH) auto
    moreover have "f r' = f r"
      using Cons.prems [of s r r'] Inr by simp
    ultimately show ?thesis using Inr by simp
  qed
qed

lemma cd_update_frame:
  assumes "cd_update X ph lr r = (r', res)"
  shows "hyper r' = hyper r \<and> momentum r' = momentum r"
proof -
  have "(hyper (fst (cd_update X ph lr r)), momentum (fst (cd_update X ph lr r)))
          = (hyper r, momentum r)"
    unfolding cd_update_def
    by (rule run_stmts_frame [where f = "\<lambda>r. (hyper r, momentum r)"])
       (auto dest: stmt_frame)
  with assms show ?thesis by simp
qed

lemma cd_frame:
  "hyper (fst (contrastive_divergence r g X training n lr)) = hyper r \<and>
   momentum (fst (contrastive_divergence r g X training n lr)) = momentum r"
  by (auto simp: contrastive_divergence_def split: sum.splits prod.splits if_splits
      dest: cd_update_frame)

lemma step_frame:
  "hyper (fst (step r g X epoch ne)) = hyper r \<and>
   (momentum (fst (step r g X epoch ne)) = momentum r \<or>
    5 < epoch \<and> momentum (fst (step r g X epoch ne)) = final_momentum r)"
  using cd_frame [of "step_momentum r epoch" g X True _ _]
  by (auto simp: step_def step_momentum_def hyper_def split: sum.splits)

lemma step_momentum_after:
  assumes "step_n_gibbs r epoch ne = Inr n" "step_lr r epoch = Inr lr"
  shows "momentum (fst (step r g X epoch ne)) =
           (if 5 < epoch then final_momentum r else momentum r)"
  using cd_frame [of "step_momentum r epoch" g X True n lr] assms
  by (simp add: step_def step_momentum_def)

lemma train_batches_frame:
  "hyper (fst (train_batches r g epoch ne bs)) = hyper r \<and>
   (momentum (fst (train_batches r g epoch ne bs)) = momentum r \<or>
    5 < epoch \<and> momentum (fst (train_batches r g epoch ne bs)) = final_momentum r)"
proof (induction bs arbitrary: r g)
  case Nil
  then show ?case by simp
next
  case (Cons b bs)
  show ?case
  proof (cases "view b (nrows b) (visible_units r)")
    case (Inl e)
    then show ?thesis by simp
  next
    case (Inr b')
    obtain r' res where s: "step r g b' epoch ne = (r', res)"
      by (cases "step r g b' epoch ne")
    from step_frame [of r g b' epoch ne] s
    have f: "hyper r' = hyper r"
      "momentum r' = momentum r \<or> 5 < epoch \<and> momentum r' = final_momentum r"
      by simp_all
    show ?thesis
    proof (cases res)
      case (Inl e)
      with Inr s f show ?thesis by simp
    next
      case (Inr out)
      obtain o1 g' where out: "out = (o1, g')" by (cases out)
      from Cons.IH [of r' g'] f
      have "hyper (fst (train_batches r' g' epoch ne bs)) = hyper r \<and>
        (momentum (fst (train_batches r' g' epoch ne bs)) = momentum r \<or>
         5 < epoch \<and> momentum (fst (train_batches r' g' epoch ne bs)) = final_momentum r)"
        by (auto simp: hyper_def)
      with \<open>view b (nrows b) (visible_units r) = Inr b'\<close> s Inr out show ?thesis
        by simp
    qed
  qed
qed

lemma train_epochs_frame:
  "hyper (fst (train_epochs r g loader ne es)) = hyper r \<and>
   (momentum (fst (train_epochs r g loader ne es)) = momentum r \<or>
    (\<exists>e\<in>set es. 5 < e) \<and> momentum (fst (train_epochs r g loader ne es)) = final_momentum r)"
proof (induction es arbitrary: r g)
  case Nil
  then show ?case by simp
next
  case (Cons e es)
  obtain r' res where s: "train_batches r g e ne loader = (r', res)"
    by (cases "train_batches r g e ne loader")
  from train_batches_frame [of r g e ne loader] s
  have f: "hyper r' = hyper r"
    "momentum r' = momentum r \<or> 5 < e \<and> momentum r' = final_momentum r"
    by simp_all
  show ?case
  proof (cases res)
    case (Inl err)
    with s f show ?thesis by auto
  next
    case (Inr g')
    from Cons.IH [of r' g'] f
    have "hyper (fst (train_epochs r' g' loader ne es)) = hyper r \<and>
      (momentum (fst (train_epochs r' g' loader ne es)) = momentum r \<or>
       (\<exists>e\<in>set (e # es). 5 < e) \<and>
         momentum (fst (train_epochs r' g' loader ne es)) = final_momentum r)"
      by (auto simp: hyper_def)
    with s Inr show ?thesis by simp
  qed
qed

lemma to_hidden_momentum [simp]: "to_hidden (r\<lparr>momentum := x\<rparr>) = to_hidden r"
  by (intro ext) (simp add: to_hidden_def cong: sum.case_cong)

lemma to_visible_momentum [simp]: "to_visible (r\<lparr>momentum := x\<rparr>) = to_visible r"
  by (intro ext) (simp add: to_visible_def cong: sum.case_cong)

lemma gibbs_loop_momentum [simp]:
  "gibbs_loop (r\<lparr>momentum := x\<rparr>) n g h p = gibbs_loop r n g h p"
  by (induction n arbitrary: g h p) (simp_all split: sum.splits)

lemma cd_phases_momentum [simp]: "cd_phases (r\<lparr>momentum := x\<rparr>) g X n = cd_phases r g X n"
  by (simp add: cd_phases_def split: sum.splits prod.splits)

lemma train_frame:
  "hyper (fst (train r g src ne bs)) = hyper (r\<lparr>batch_size := bs\<rparr>) \<and>
   (momentum (fst (train r g src ne bs)) = momentum r \<or>
    5 < ne \<and> momentum (fst (train r g src ne bs)) = final_momentum r)"
proof (cases "make_loader src bs")
  case (Inl e)
  then show ?thesis by (simp add: train_def)
next
  case (Inr loader)
  from train_epochs_frame [of "r\<lparr>batch_size := bs\<rparr>" g loader ne "[1..ne]"] Inr
  show ?thesis by (auto simp: train_def)
qed

section \<open>Rounding to a double\<close>

lemma pow2_nonneg_exp: "0 \<le> b \<Longrightarrow> pow2 b = 2 ^ nat b"
  by (simp add: pow2_def)

lemma pow2_neg_exp: "0 \<le> b \<Longrightarrow> pow2 (- b) = 1 / 2 ^ nat b"
  by (cases "b = 0") (simp_all add: pow2_def)

lemma pow2_pos [simp]: "0 < pow2 e"
  by (simp add: pow2_def)

lemma pow2_nz [simp]: "pow2 e \<noteq> 0"
  by (simp add: pow2_def)

lemma pow2_ge0 [simp]: "0 \<le> pow2 e"
  by (simp add: pow2_def)

lemma pow2_powi: "pow2 e = 2 powi e"
  by (simp add: pow2_def power_int_def field_simps)

lemma pow2_add: "pow2 (a + b) = pow2 a * pow2 b"
  by (simp add: pow2_powi power_int_add)

lemma pow2_mono: "a \<le> b \<Longrightarrow> pow2 a \<le> pow2 b"
  by (simp add: pow2_powi power_int_increasing)

lemma rhe_err: "\<bar>of_int (round_half_even x) - x\<bar> \<le> 1 / 2"
proof -
  have "of_int \<lfloor>x\<rfloor> \<le> x" "x < of_int \<lfloor>x\<rfloor> + 1"
    by linarith+
  then show ?thesis
    by (auto simp: round_half_even_def Let_def abs_le_iff)
qed

lemma rhe_int: "round_half_even (of_int z) = z"
  by (simp add: round_half_even_def)

lemma ilog2_lower:
  assumes "0 < a"
  shows "pow2 (ilog2 a) \<le> a"
proof (cases "1 \<le> a")
  case True
  then have f: "0 < \<lfloor>a\<rfloor>" by linarith
  then have b: "0 \<le> bitlen \<lfloor>a\<rfloor> - 1"
    by (meson bitlen_eq_zero_iff bitlen_nonneg dec_less_imp_less_eq
        linorder_not_less order_antisym_conv)
  from bitlen_bounds [OF f] have "2 ^ nat (bitlen \<lfloor>a\<rfloor> - 1) \<le> \<lfloor>a\<rfloor>" by simp
  then have "(2::rat) ^ nat (bitlen \<lfloor>a\<rfloor> - 1) \<le> of_int \<lfloor>a\<rfloor>"
    by (metis of_int_le_iff of_int_numeral of_int_power)
  also have "\<dots> \<le> a" by simp
  finally show ?thesis
    using True b by (simp add: ilog2_def pow2_nonneg_exp)
next
  case False
  with assms have "1 < 1 / a" by simp
  then have c: "0 < \<lceil>1 / a\<rceil> - 1" by linarith
  let ?B = "bitlen (\<lceil>1 / a\<rceil> - 1)"
  from bitlen_bounds [OF c] have "\<lceil>1 / a\<rceil> - 1 < 2 ^ nat ?B" by simp
  then have "\<lceil>1 / a\<rceil> \<le> 2 ^ nat ?B" by simp
  then have "(of_int \<lceil>1 / a\<rceil> :: rat) \<le> 2 ^ nat ?B"
    by (metis of_int_le_iff of_int_numeral of_int_power)
  then have "1 / a \<le> 2 ^ nat ?B"
    by linarith
  then have "1 / 2 ^ nat ?B \<le> a"
    using assms by (simp add: field_simps)
  then show ?thesis
    using False by (simp add: ilog2_def pow2_neg_exp bitlen_nonneg)
qed

lemma ilog2_upper:
  assumes "0 < a"
  shows "a < pow2 (ilog2 a + 1)"
proof (cases "1 \<le> a")
  case True
  then have f: "0 < \<lfloor>a\<rfloor>" by linarith
  from bitlen_bounds [OF f] have "\<lfloor>a\<rfloor> < 2 ^ nat (bitlen \<lfloor>a\<rfloor>)" by simp
  then have "\<lfloor>a\<rfloor> + 1 \<le> 2 ^ nat (bitlen \<lfloor>a\<rfloor>)" by simp
  then have "(of_int (\<lfloor>a\<rfloor> + 1) :: rat) \<le> 2 ^ nat (bitlen \<lfloor>a\<rfloor>)"
    by (metis of_int_le_iff of_int_numeral of_int_power)
  then have "a < 2 ^ nat (bitlen \<lfloor>a\<rfloor>)"
    by linarith
  then show ?thesis
    using True by (simp add: ilog2_def pow2_nonneg_exp bitlen_nonneg)
next
  case False
  with assms have "1 < 1 / a" by simp
  then have c: "0 < \<lceil>1 / a\<rceil> - 1" by linarith
  let ?B = "bitlen (\<lceil>1 / a\<rceil> - 1)"
  have B: "1 \<le> ?B"
    by (metis c bitlen_nonneg bitlen_eq_zero_iff zle_diff1_eq linorder_not_le
        order_antisym_conv diff_ge_0_iff_ge)
  from bitlen_bounds [OF c] have "2 ^ nat (?B - 1) \<le> \<lceil>1 / a\<rceil> - 1" by simp
  then have "(2::rat) ^ nat (?B - 1) \<le> of_int (\<lceil>1 / a\<rceil> - 1)"
    by (metis of_int_le_iff of_int_numeral of_int_power)
  then have "(2::rat) ^ nat (?B - 1) < 1 / a"
    by linarith
  then have "a < 1 / 2 ^ nat (?B - 1)"
    using assms by (simp add: field_simps)
  moreover have "pow2 (- ?B + 1) = 1 / 2 ^ nat (?B - 1)"
    using pow2_neg_exp [of "?B - 1"] B by simp
  ultimately show ?thesis
    using False by (simp add: ilog2_def)
qed

lemma to_double_err:
  assumes lo: "pow2 (- 1022) \<le> a" and hi: "a < pow2 1023"
  shows "\<exists>y. to_double a = Inr y \<and> \<bar>y - a\<bar> \<le> a / 2 ^ 53"
proof -
  have pos: "0 < a"
    using lo pow2_pos [of "- 1022"] by linarith
  let ?e = "ilog2 a"
  have e1: "- 1022 \<le> ?e"
  proof (rule ccontr)
    assume "\<not> - 1022 \<le> ?e"
    then have "?e + 1 \<le> - 1022" by simp
    then have "pow2 (?e + 1) \<le> pow2 (- 1022)" by (rule pow2_mono)
    with ilog2_upper [OF pos] lo show False by linarith
  qed
  have e2: "?e \<le> 1022"
  proof (rule ccontr)
    assume "\<not> ?e \<le> 1022"
    then have "1023 \<le> ?e" by simp
    then have "pow2 1023 \<le> pow2 ?e" by (rule pow2_mono)
    with ilog2_lower [OF pos] hi show False by linarith
  qed
  let ?q = "pow2 (?e - 52)"
  let ?m = "round_half_even (a / ?q)"
  let ?y = "of_int ?m * ?q"
  have q: "0 < ?q" by simp
  have "\<bar>?y - a\<bar> = \<bar>of_int ?m - a / ?q\<bar> * ?q"
  proof -
    have "?y - a = (of_int ?m - a / ?q) * ?q"
      by (simp add: field_simps)
    then show ?thesis
      by (simp add: abs_mult abs_of_pos)
  qed
  also have "\<dots> \<le> 1 / 2 * ?q"
    using rhe_err [of "a / ?q"] q by (intro mult_right_mono) simp_all
  also have "\<dots> = pow2 ?e / 2 ^ 53"
  proof -
    have "pow2 ?e = pow2 (?e - 52) * pow2 52"
      using pow2_add [of "?e - 52" 52] by simp
    then show ?thesis by (simp add: pow2_def)
  qed
  also have "\<dots> \<le> a / 2 ^ 53"
    using ilog2_lower [OF pos] by (simp add: divide_right_mono)
  finally have err: "\<bar>?y - a\<bar> \<le> a / 2 ^ 53" .
  have "?y \<le> a + a / 2 ^ 53"
    using err by linarith
  also have "\<dots> < 2 * a"
    using pos by simp
  also have "\<dots> < 2 * pow2 1023"
    using hi by simp
  also have "\<dots> = pow2 1024"
  proof -
    have "pow2 1 = 2" by (simp add: pow2_def)
    then show ?thesis using pow2_add [of 1 1023] by simp
  qed
  finally have nov: "\<not> pow2 1024 \<le> ?y" by simp
  have "to_double a = Inr ?y"
    using pos e1 nov by (simp add: to_double_def Let_def max_def)
  with err show ?thesis by blast
qed


lemma to_double_int:
  assumes "0 \<le> z" "z < 2 ^ 53"
  shows "to_double (of_int z) = Inr (of_int z)"
proof (cases "z = 0")
  case True
  then show ?thesis by (simp add: to_double_def)
next
  case False
  with assms have z: "1 \<le> z" by simp
  let ?a = "of_int z :: rat"
  have pos: "0 < ?a" using z by simp
  let ?e = "ilog2 ?a"
  have e0: "0 \<le> ?e"
  proof (rule ccontr)
    assume "\<not> 0 \<le> ?e"
    then have "?e + 1 \<le> 0" by simp
    then have "pow2 (?e + 1) \<le> pow2 0" by (rule pow2_mono)
    moreover have "pow2 0 = 1" by (simp add: pow2_def)
    moreover have "1 \<le> ?a" using z by simp
    ultimately show False using ilog2_upper [OF pos] by linarith
  qed
  have e52: "?e \<le> 52"
  proof (rule ccontr)
    assume "\<not> ?e \<le> 52"
    then have "53 \<le> ?e" by simp
    then have "pow2 53 \<le> pow2 ?e" by (rule pow2_mono)
    moreover have "pow2 53 = 2 ^ 53" by (simp add: pow2_def)
    moreover have "?a < 2 ^ 53"
      using assms(2) by (metis of_int_less_iff of_int_numeral of_int_power)
    ultimately show False using ilog2_lower [OF pos] by linarith
  qed
  let ?q = "pow2 (?e - 52)"
  have q: "?q = 1 / 2 ^ nat (52 - ?e)"
    using pow2_neg_exp [of "52 - ?e"] e52 by simp
  have "?a / ?q = of_int (z * 2 ^ nat (52 - ?e))"
    by (simp add: q)
  then have m: "round_half_even (?a / ?q) = z * 2 ^ nat (52 - ?e)"
    by (simp only: rhe_int)
  have y: "of_int (round_half_even (?a / ?q)) * ?q = ?a"
    unfolding m by (simp add: q)
  have "?a < 2 ^ 53"
    using assms(2) by (metis of_int_less_iff of_int_numeral of_int_power)
  also have "\<dots> = pow2 53" by (simp add: pow2_def)
  also have "\<dots> \<le> pow2 1024" by (rule pow2_mono) simp
  finally have nov: "\<not> pow2 1024 \<le> ?a" by simp
  have mx: "max ?e (- 1022) = ?e" using e0 by simp
  show ?thesis
    using pos nov y mx by (simp add: to_double_def Let_def del: of_int_mult)
qed

lemma ceiling_close:
  fixes z n :: int and y :: rat
  assumes n: "1 \<le> n" and close: "\<bar>y - of_int z / of_int n\<bar> < 1 / of_int n"
  shows "\<lceil>of_int z / of_int n :: rat\<rceil> \<le> \<lceil>y\<rceil>"
    and "\<lceil>y\<rceil> \<le> \<lceil>of_int z / of_int n :: rat\<rceil> + 1"
    and "\<not> n dvd z \<Longrightarrow> \<lceil>y\<rceil> = \<lceil>of_int z / of_int n :: rat\<rceil>"
proof -
  let ?x = "of_int z / of_int n :: rat"
  let ?c = "\<lceil>?x\<rceil>"
  have np: "0 < (of_int n :: rat)" using n by simp
  have inv: "1 / (of_int n :: rat) \<le> 1"
    using n by simp
  have "of_int (?c - 1) < ?x" by linarith
  then have "of_int (?c - 1) * of_int n < (of_int z :: rat)"
    using np by (simp add: pos_less_divide_eq)
  then have "(?c - 1) * n < z"
    by (metis of_int_less_iff of_int_mult)
  then have "(?c - 1) * n + 1 \<le> z" by simp
  then have "(of_int ((?c - 1) * n + 1) :: rat) \<le> of_int z"
    by (simp only: of_int_le_iff)
  then have "(of_int ((?c - 1) * n + 1) :: rat) / of_int n \<le> ?x"
    using np by (simp only: divide_right_mono less_imp_le)
  moreover have "(of_int ((?c - 1) * n + 1) :: rat) / of_int n = of_int (?c - 1) + 1 / of_int n"
    using np by (simp add: add_divide_distrib)
  ultimately have "of_int (?c - 1) + 1 / of_int n \<le> ?x"
    by simp
  with close have lo: "of_int (?c - 1) < y"
    by (simp add: abs_less_iff; linarith)
  then show c1: "?c \<le> \<lceil>y\<rceil>"
    by (simp add: le_ceiling_iff)
  have "?x \<le> of_int ?c" by linarith
  with close inv have "y \<le> of_int (?c + 1)"
    by (simp add: abs_less_iff; linarith)
  then show "\<lceil>y\<rceil> \<le> ?c + 1"
    by (simp only: ceiling_le_iff)
  show "\<lceil>y\<rceil> = ?c" if nd: "\<not> n dvd z"
  proof -
    have "?x \<noteq> of_int ?c"
    proof
      assume "?x = of_int ?c"
      then have "(of_int z :: rat) = of_int (?c * n)"
        using np by (simp add: field_simps)
      then have "z = ?c * n" by (simp only: of_int_eq_iff)
      then have "n dvd z" by (metis dvd_triv_right)
      with nd show False by blast
    qed
    moreover have "?x \<le> of_int ?c" by linarith
    ultimately have "?x < of_int ?c" by linarith
    then have "(of_int z :: rat) < of_int ?c * of_int n"
      using np by (simp add: pos_divide_less_eq)
    then have "z < ?c * n"
      by (metis of_int_less_iff of_int_mult)
    then have "z + 1 \<le> ?c * n" by simp
    then have "(of_int (z + 1) :: rat) \<le> of_int (?c * n)"
      by (simp only: of_int_le_iff)
    then have "(of_int (z + 1) :: rat) / of_int n \<le> of_int (?c * n) / of_int n"
      using np by (simp only: divide_right_mono less_imp_le)
    moreover have "(of_int (z + 1) :: rat) / of_int n = ?x + 1 / of_int n"
      by (simp add: add_divide_distrib)
    moreover have "(of_int (?c * n) :: rat) / of_int n = of_int ?c"
      using np by simp
    ultimately have "?x + 1 / of_int n \<le> of_int ?c"
      by simp
    with close have "y \<le> of_int ?c"
      by (simp add: abs_less_iff; linarith)
    then have "\<lceil>y\<rceil> \<le> ?c" by (simp only: ceiling_le_iff)
    with c1 show ?thesis by simp
  qed
qed


lemma ramp_steps_close:
  assumes e: "1 \<le> e" "e \<le> n" and kk: "1 \<le> kk" and small: "n * kk \<le> 2 ^ 51"
  shows "\<exists>y::rat. ramp_steps e n kk = Inr \<lceil>y\<rceil> \<and>
             \<bar>y - of_int (e * kk) / of_int n\<bar> < 1 / of_int n"
proof -
  have n1: "1 \<le> n" using e by simp
  have "n * 1 \<le> n * kk" using n1 kk by (intro mult_left_mono) simp_all
  with small have n51: "n \<le> 2 ^ 51" by simp
  have "1 * kk \<le> n * kk" using n1 kk by (intro mult_right_mono) simp_all
  with small have k51: "kk \<le> 2 ^ 51" by simp
  define N K E :: rat where "N = of_int n" and "K = of_int kk" and "E = of_int e"
  have np: "0 < N" "1 \<le> N" using n1 by (simp_all add: N_def)
  have kp: "0 < K" "1 \<le> K" using kk by (simp_all add: K_def)
  have ep: "1 \<le> E" "E \<le> N" using e by (simp_all add: E_def N_def)
  have nr: "N \<le> 2 ^ 51"
    unfolding N_def using n51 by (metis of_int_le_iff of_int_numeral of_int_power)
  have kr: "K \<le> 2 ^ 51"
    unfolding K_def using k51 by (metis of_int_le_iff of_int_numeral of_int_power)
  have "N * K = of_int (n * kk)" by (simp add: N_def K_def)
  also have "\<dots> \<le> 2 ^ 51"
    using small by (metis of_int_le_iff of_int_numeral of_int_power)
  finally have nk: "N * K \<le> 2 ^ 51" .
  define x1 where "x1 = E / N"
  have x1_le: "x1 \<le> 1" using ep np by (simp add: x1_def)
  have "1 / 2 ^ 51 \<le> 1 / N"
    using nr np by (intro divide_left_mono) simp_all
  also have "\<dots> \<le> x1"
    unfolding x1_def using ep np by (intro divide_right_mono) simp_all
  finally have x1_ge: "1 / 2 ^ 51 \<le> x1" .
  have x1p: "0 < x1" using ep np by (simp add: x1_def)
  have p51: "pow2 (- 51) = 1 / 2 ^ 51" by (simp add: pow2_def)
  have p52: "pow2 (- 52) = 1 / 2 ^ 52" by (simp add: pow2_def)
  have p53: "pow2 53 = 2 ^ 53" by (simp add: pow2_def)
  have lo51: "pow2 (- 1022) \<le> pow2 (- 51)" by (rule pow2_mono) simp
  have lo52: "pow2 (- 1022) \<le> pow2 (- 52)" by (rule pow2_mono) simp
  have hi53: "pow2 53 \<le> pow2 1023" by (rule pow2_mono) simp
  have big: "(2::rat) < 2 ^ 53" "(2::rat) * 2 ^ 51 < 2 ^ 53" by simp_all
  have a1: "pow2 (- 1022) \<le> x1" using lo51 p51 x1_ge by linarith
  have a2: "x1 < pow2 1023" using hi53 p53 x1_le big(1) by linarith
  from to_double_err [OF a1 a2] obtain p where
    p: "to_double x1 = Inr p" "\<bar>p - x1\<bar> \<le> x1 / 2 ^ 53"
    by blast
  have kf: "to_double K = Inr K"
    unfolding K_def using to_double_int [of kk] kk k51 by simp
  define x where "x = x1 * K"
  have xp: "0 < x" unfolding x_def using x1p kp(1) by (rule mult_pos_pos)
  have x_le: "x \<le> K"
    unfolding x_def using mult_right_mono [of x1 1 K] x1_le kp(1) by simp
  have x_ge: "x1 \<le> x"
    unfolding x_def using mult_left_mono [of 1 K x1] x1p kp(2) by simp
  define x2 where "x2 = p * K"
  have d1: "\<bar>x2 - x\<bar> \<le> x / 2 ^ 53"
  proof -
    have "x2 - x = (p - x1) * K"
      by (simp add: x2_def x_def left_diff_distrib)
    then have "\<bar>x2 - x\<bar> = \<bar>p - x1\<bar> * K"
      using kp(1) by (simp add: abs_mult abs_of_pos)
    also have "\<dots> \<le> x1 / 2 ^ 53 * K"
      using p(2) kp(1) by (intro mult_right_mono) simp_all
    also have "\<dots> = x / 2 ^ 53"
      by (simp add: x_def)
    finally show ?thesis .
  qed
  have x53: "x / 2 ^ 53 \<le> x / 2"
    using xp by (intro divide_left_mono) simp_all
  have x2_lo: "x / 2 \<le> x2" using d1 x53 by (simp only: abs_le_iff) linarith
  have x2_hi: "x2 \<le> 2 * x" using d1 x53 xp by (simp only: abs_le_iff) linarith
  have "(1::rat) / 2 ^ 52 \<le> x1 / 2"
    using x1_ge by simp
  then have h52: "pow2 (- 52) \<le> x1 / 2"
    by (simp only: p52)
  have b1: "pow2 (- 1022) \<le> x2"
    using x2_lo x_ge h52 lo52 by linarith
  have b2: "x2 < pow2 1023"
    using x2_hi x_le kr big(2) hi53 p53 by linarith
  from to_double_err [OF b1 b2] obtain y where
    y: "to_double x2 = Inr y" "\<bar>y - x2\<bar> \<le> x2 / 2 ^ 53"
    by blast
  have run: "ramp_steps e n kk = Inr \<lceil>y\<rceil>"
    using n1 p(1) kf y(1)
    by (simp add: ramp_steps_def x1_def x2_def E_def N_def K_def del: of_int_mult)
  have x2d: "x2 / 2 ^ 53 \<le> 2 * x / 2 ^ 53"
    using x2_hi by (intro divide_right_mono) simp_all
  have xk: "3 * x / 2 ^ 53 \<le> 3 * K / 2 ^ 53"
    using x_le by (intro divide_right_mono) simp_all
  have k3: "3 * K / 2 ^ 53 < K / 2 ^ 51"
    using kp(1) by simp
  have kn: "K / 2 ^ 51 \<le> 1 / N"
  proof -
    have "K * N \<le> 2 ^ 51" using nk by (simp add: mult.commute)
    then have "K \<le> 2 ^ 51 / N" using np(1) by (simp add: pos_le_divide_eq)
    then have "K / 2 ^ 51 \<le> 2 ^ 51 / N / 2 ^ 51"
      by (intro divide_right_mono) simp_all
    then show ?thesis by simp
  qed
  have tri: "\<bar>y - x\<bar> \<le> \<bar>y - x2\<bar> + \<bar>x2 - x\<bar>" by simp
  have s3: "2 * x / 2 ^ 53 + x / 2 ^ 53 = 3 * x / 2 ^ 53" by simp
  have "\<bar>y - x\<bar> < 1 / N"
    using tri y(2) d1 x2d s3 xk k3 kn by linarith
  moreover have "x = of_int (e * kk) / of_int n"
    by (simp add: x_def x1_def E_def K_def N_def)
  ultimately have "\<bar>y - of_int (e * kk) / of_int n\<bar> < 1 / of_int n"
    by (simp add: N_def)
  with run show ?thesis by blast
qed


lemma pow2_strict_mono: "a < b \<Longrightarrow> pow2 a < pow2 b"
  by (simp add: pow2_powi power_int_strict_increasing)

lemma ilog2_unique:
  assumes "pow2 e \<le> a" "a < pow2 (e + 1)"
  shows "ilog2 a = e"
proof -
  have pos: "0 < a" using assms(1) pow2_pos [of e] by linarith
  have "ilog2 a < e + 1"
  proof (rule ccontr)
    assume "\<not> ilog2 a < e + 1"
    then have "pow2 (e + 1) \<le> pow2 (ilog2 a)" by (intro pow2_mono) simp
    with ilog2_lower [OF pos] assms(2) show False by linarith
  qed
  moreover have "e < ilog2 a + 1"
  proof (rule ccontr)
    assume "\<not> e < ilog2 a + 1"
    then have "pow2 (ilog2 a + 1) \<le> pow2 e" by (intro pow2_mono) simp
    with ilog2_upper [OF pos] assms(1) show False by linarith
  qed
  ultimately show ?thesis by simp
qed

lemma to_double_eval:
  assumes "pow2 e \<le> a" "a < pow2 (e + 1)" "- 1022 \<le> e" "e \<le> 1022"
  shows "to_double a = Inr (of_int (round_half_even (a / pow2 (e - 52))) * pow2 (e - 52))"
proof -
  have pos: "0 < a" using assms(1) pow2_pos [of e] by linarith
  have "pow2 (- 1022) \<le> pow2 e" using assms(3) by (rule pow2_mono)
  then have lo: "pow2 (- 1022) \<le> a" using assms(1) by linarith
  have "pow2 (e + 1) \<le> pow2 1023" using assms(4) by (intro pow2_mono) simp
  then have hi: "a < pow2 1023" using assms(2) by linarith
  from to_double_err [OF lo hi] obtain y where y: "to_double a = Inr y"
    by blast
  have mx: "max e (- 1022) = e" using assms(3) by simp
  from y show ?thesis
    using pos by (simp add: to_double_def Let_def ilog2_unique [OF assms(1,2)] mx
        split: if_splits)
qed

lemma floor_rat_numeral:
  "\<lfloor>(numeral a :: rat) / numeral b\<rfloor> = numeral a div numeral b"
  using floor_divide_of_int_eq [of "numeral a" "numeral b", where ?'a = rat] by simp

lemma ceiling_rat_numeral:
  "\<lceil>(numeral a :: rat) / numeral b\<rceil> = - (- numeral a div numeral b)"
  using floor_divide_of_int_eq [of "- numeral a" "numeral b", where ?'a = rat]
  by (simp add: ceiling_def)

lemma ramp_steps_7_25_25: "ramp_steps 7 25 25 = Inr 8"
proof -
  have 1: "to_double (7 / 25) = Inr (5044031582654956 * pow2 (- 54))"
    using to_double_eval [of "- 2" "7 / 25"]
    by (simp add: pow2_def round_half_even_def Let_def floor_rat_numeral)
  have 2: "to_double 25 = Inr 25"
    using to_double_int [of 25] by simp
  have 3: "to_double (5044031582654956 * pow2 (- 54) * 25) = Inr (7881299347898369 * pow2 (- 50))"
    using to_double_eval [of 2 "5044031582654956 * pow2 (- 54) * 25"]
    by (simp add: pow2_def round_half_even_def Let_def floor_rat_numeral)
  have 4: "\<lceil>7881299347898369 * pow2 (- 50)\<rceil> = 8"
    by (simp add: pow2_def ceiling_rat_numeral)
  show ?thesis
    using 1 2 3 4 by (simp add: ramp_steps_def)
qed

lemma ramp_steps_last:
  assumes "1 \<le> n" "0 \<le> kk" "kk < 2 ^ 53"
  shows "ramp_steps n n kk = Inr kk"
proof -
  have "(of_int n :: rat) / of_int n = of_int 1"
    using assms(1) by simp
  moreover have "to_double (of_int 1) = Inr (of_int 1)"
    by (rule to_double_int) simp_all
  ultimately have 1: "to_double (of_int n / of_int n) = Inr 1"
    by simp
  have 2: "to_double (of_int kk) = Inr (of_int kk)"
    using assms(2,3) by (rule to_double_int)
  show ?thesis
    using assms(1) 1 2 by (simp add: ramp_steps_def del: div_self)
qed

lemma ramp_steps_ceiling:
  assumes "1 \<le> e" "e \<le> n" "1 \<le> kk" "n * kk \<le> 2 ^ 51"
  shows "\<exists>m. ramp_steps e n kk = Inr m \<and>
           \<lceil>of_int (e * kk) / of_int n :: rat\<rceil> \<le> m \<and>
           m \<le> \<lceil>of_int (e * kk) / of_int n :: rat\<rceil> + 1 \<and>
           (\<not> n dvd e * kk \<longrightarrow> m = \<lceil>of_int (e * kk) / of_int n :: rat\<rceil>)"
proof -
  from ramp_steps_close [OF assms] obtain y :: rat where
    y: "ramp_steps e n kk = Inr \<lceil>y\<rceil>"
       "\<bar>y - of_int (e * kk) / of_int n\<bar> < 1 / of_int n"
    by blast
  have n: "1 \<le> n" using assms(1,2) by simp
  from ceiling_close [OF n y(2)] y(1) show ?thesis
    by blast
qed

section \<open>Training runs that cannot fail\<close>

text \<open>With shapes as the constructor gives them, batches of the right width, at least
  one Gibbs step and a constant number of them, every step returns, whatever the batch
  size, the momentum and the weight decay are; so then does the whole of \<open>train\<close>.\<close>

lemma step_ok:
  assumes wf: "wf_rbm r" and X: "ncols X = visible_units r" and k: "1 \<le> k r"
    and inc: "\<not> increase_to_cd_k r" and ep: "epoch \<noteq> 0"
  shows "\<exists>r' out. step r g X epoch ne = (r', Inr out) \<and> wf_rbm r'"
proof -
  let ?r = "step_momentum r epoch"
  have wf1: "wf_rbm ?r" "ncols X = visible_units ?r"
    using wf X by (simp_all add: wf_rbm_def step_momentum_def)
  obtain lr where lr: "step_lr r epoch = Inr lr"
    using ep by (cases "learning_rate_decay r") (simp_all add: step_lr_def)
  have n: "step_n_gibbs r epoch ne = Inr (k r)"
    using inc by (simp add: step_n_gibbs_def)
  from cd_train_ok [OF wf1 k, of g lr] obtain out gu vu hu w vb hb where
    c: "contrastive_divergence ?r g X True (k r) lr =
             (?r\<lparr>grad_update := gu, v_bias_update_acc := vu, h_bias_update_acc := hu,
                W := w, v_bias := vb, h_bias := hb\<rparr>, Inr out)"
       "nrows gu = visible_units ?r" "ncols gu = hidden_units ?r"
       "len vu = visible_units ?r" "len hu = hidden_units ?r"
       "nrows w = visible_units ?r" "ncols w = hidden_units ?r"
       "len vb = visible_units ?r" "len hb = hidden_units ?r"
    by blast
  have "wf_rbm (?r\<lparr>grad_update := gu, v_bias_update_acc := vu, h_bias_update_acc := hu,
                W := w, v_bias := vb, h_bias := hb\<rparr>)"
    using c(2-) by (simp add: wf_rbm_def)
  with c(1) n lr show ?thesis
    by (simp add: step_def)
qed

lemma train_batches_ok:
  assumes "wf_rbm r" "\<forall>b\<in>set bs. ncols b = visible_units r" "1 \<le> k r"
    "\<not> increase_to_cd_k r" "epoch \<noteq> 0"
  shows "\<exists>r' g'. train_batches r g epoch ne bs = (r', Inr g') \<and> wf_rbm r'"
  using assms(1-4)
proof (induction bs arbitrary: r g)
  case Nil
  then show ?case by simp
next
  case (Cons b bs)
  let ?b = "\<lparr>nrows = nrows b, ncols = visible_units r,
             cell = (\<lambda>i j. cell b ((i * visible_units r + j) div ncols b)
                                   ((i * visible_units r + j) mod ncols b))\<rparr>"
  have v: "view b (nrows b) (visible_units r) = Inr ?b"
    using Cons.prems(2) by (simp add: view_def)
  from step_ok [OF Cons.prems(1) _ Cons.prems(3,4) assms(5), of ?b g ne]
  obtain r' out where s: "step r g ?b epoch ne = (r', Inr out)" "wf_rbm r'"
    by auto
  obtain o1 g' where out: "out = (o1, g')" by (cases out)
  from step_frame [of r g ?b epoch ne] s(1) have h: "hyper r' = hyper r"
    by simp
  then have "\<forall>b\<in>set bs. ncols b = visible_units r'" "1 \<le> k r'" "\<not> increase_to_cd_k r'"
    using Cons.prems by (simp_all add: hyper_def)
  from Cons.IH [OF s(2) this, of g'] v s(1) out show ?case
    by simp
qed

lemma train_epochs_ok:
  assumes "wf_rbm r" "\<forall>b\<in>set loader. ncols b = visible_units r" "1 \<le> k r"
    "\<not> increase_to_cd_k r" "\<forall>e\<in>set es. e \<noteq> 0"
  shows "\<exists>r' g'. train_epochs r g loader ne es = (r', Inr g') \<and> wf_rbm r'"
  using assms
proof (induction es arbitrary: r g)
  case Nil
  then show ?case by simp
next
  case (Cons e es)
  from Cons.prems(5) have e: "e \<noteq> 0" by simp
  from train_batches_ok [OF Cons.prems(1-4) e, of g ne]
  obtain r' g' where s: "train_batches r g e ne loader = (r', Inr g')" "wf_rbm r'"
    by blast
  from train_batches_frame [of r g e ne loader] s(1) have h: "hyper r' = hyper r"
    by simp
  then have "\<forall>b\<in>set loader. ncols b = visible_units r'" "1 \<le> k r'"
    "\<not> increase_to_cd_k r'" "\<forall>e\<in>set es. e \<noteq> 0"
    using Cons.prems by (simp_all add: hyper_def)
  from Cons.IH [OF s(2) this, of g'] s(1) show ?case
    by simp
qed

lemma train_ok:
  assumes "wf_rbm r" "\<forall>b\<in>set batches. ncols b = visible_units r" "1 \<le> k r"
    "\<not> increase_to_cd_k r"
  shows "\<exists>r' g'. train r g (DataLoader batches) ne bs = (r', Inr g') \<and> wf_rbm r'"
proof -
  let ?r = "r\<lparr>batch_size := bs\<rparr>"
  have a: "wf_rbm ?r" "\<forall>b\<in>set batches. ncols b = visible_units ?r" "1 \<le> k ?r"
    "\<not> increase_to_cd_k ?r" "\<forall>e\<in>set [1..ne]. e \<noteq> 0"
    using assms by (simp_all add: wf_rbm_def)
  from train_epochs_ok [OF a, of g ne] show ?thesis
    by (simp add: train_def make_loader_def)
qed

section \<open>Evaluation, sampling and the hidden layer\<close>

text \<open>
  Claim C3. Calling \<open>contrastive_divergence\<close> with \<open>training = False\<close>, for any batch,
  any number of Gibbs steps and any learning rate, and so calling
  \<open>reconstruction_error\<close>, leaves the whole object as it was: the weights, both biases
  and the three momentum accumulators (and every other field) are unchanged, whether
  the call returns or raises.
\<close>

theorem cd_eval_frame:
  "fst (contrastive_divergence r g X False n lr) = r \<and> fst (reconstruction_error r g X) = r"
  by (simp add: reconstruction_error_def contrastive_divergence_def
      split: sum.splits prod.splits)

text \<open>
  Claim C4, as amended. Each element of the sample is 1 when the probability is at
  least the number drawn for it and 0 otherwise (0 also when the probability is not a
  number). With draws in \<open>[0, 1)\<close> a probability of 1 always gives 1. A probability of
  0 gives 0 when the draw is positive; the draw \<open>0\<close>, which \<open>[0, 1)\<close> contains, gives 1.
\<close>

theorem sampling_threshold:
  "cell (fst (sampling g prob)) i j
     = (if ge_fl (cell prob i j) (Fin (g 0 i j)) then Fin 1 else Fin 0) \<and>
   (cell prob i j = Fin p \<longrightarrow>
      cell (fst (sampling g prob)) i j = (if g 0 i j \<le> p then Fin 1 else Fin 0)) \<and>
   (unit_draws g \<longrightarrow> cell prob i j = Fin 1 \<longrightarrow> cell (fst (sampling g prob)) i j = Fin 1) \<and>
   (cell prob i j = Fin 0 \<longrightarrow> 0 < g 0 i j \<longrightarrow> cell (fst (sampling g prob)) i j = Fin 0)"
  by (auto simp: sampling_def rand_like_def unit_draws_def less_imp_le)

theorem sampling_threshold_witness:
  "unit_draws ex_rng \<and> cell (const_mat 1 1 (Fin 1)) 0 0 = Fin 1 \<and>
   cell (fst (sampling ex_rng (const_mat 1 1 (Fin 1)))) 0 0 = Fin 1 \<and>
   cell (const_mat 1 1 (Fin 0)) 0 0 = Fin 0 \<and> 0 < ex_rng 0 0 0 \<and>
   cell (fst (sampling ex_rng (const_mat 1 1 (Fin 0)))) 0 0 = Fin 0"
proof -
  have u: "unit_draws ex_rng"
    by (simp add: unit_draws_def ex_rng_def const_rng_def)
  have p: "0 < ex_rng 0 0 0"
    by (simp add: ex_rng_def const_rng_def)
  have c: "cell (const_mat 1 1 (Fin 1)) 0 0 = Fin 1" "cell (const_mat 1 1 (Fin 0)) 0 0 = Fin 0"
    by (simp_all add: const_mat_def)
  from sampling_threshold [of ex_rng "const_mat 1 1 (Fin 1)" 0 0] u c(1)
  have one: "cell (fst (sampling ex_rng (const_mat 1 1 (Fin 1)))) 0 0 = Fin 1"
    by blast
  from sampling_threshold [of ex_rng "const_mat 1 1 (Fin 0)" 0 0] p c(2)
  have zero: "cell (fst (sampling ex_rng (const_mat 1 1 (Fin 0)))) 0 0 = Fin 0"
    by blast
  show ?thesis
    using u p c one zero by simp
qed

text \<open>The claim as it stands fails: a draw of 0 lies in \<open>[0, 1)\<close>, and with it a
  probability of 0 is sampled as 1.\<close>

theorem sampling_zero_draw:
  "unit_draws (const_rng 0) \<and> cell (const_mat 1 1 (Fin 0)) 0 0 = Fin 0 \<and>
   cell (fst (sampling (const_rng 0) (const_mat 1 1 (Fin 0)))) 0 0 = Fin 1"
  by (simp add: unit_draws_def const_rng_def const_mat_def sampling_def rand_like_def)

text \<open>
  Claim C5. When the batch has as many columns as the weight matrix has rows and the
  hidden bias has one entry for each column of the weight matrix, \<open>to_hidden\<close> returns;
  the activation it returns is the rectified \<open>V \<cdot> W + c\<close> at every position, which for
  real numbers in the batch, the weights and the bias is the real number
  \<open>max 0 (V \<cdot> W + c)\<close>, and every element of the sample it returns is 0 or 1.
\<close>

theorem to_hidden_relu_binary:
  assumes "ncols X = nrows (W r)" and "len (h_bias r) = ncols (W r)"
  shows "\<exists>P S g'. to_hidden r g X = Inr (P, S, g') \<and>
           nrows P = nrows X \<and> ncols P = ncols (W r) \<and>
           nrows S = nrows X \<and> ncols S = ncols (W r) \<and>
           (\<forall>i<nrows X. \<forall>j<ncols (W r).
              cell P i j =
                relu_fl ((\<Sum>l<ncols X. cell X i l * cell (W r) l j) + elt (h_bias r) j) \<and>
              (cell S i j = Fin 0 \<or> cell S i j = Fin 1)) \<and>
           (fin_mat X \<longrightarrow> fin_mat (W r) \<longrightarrow> fin_vec (h_bias r) \<longrightarrow>
              (\<forall>i<nrows X. \<forall>j<ncols (W r).
                 cell P i j =
                   Fin (max 0 ((\<Sum>l<ncols X. val (cell X i l) * val (cell (W r) l j))
                               + val (elt (h_bias r) j)))))"
proof -
  from to_hidden_ok [OF assms, of g] obtain P S where
    h: "to_hidden r g X = Inr (P, S, (\<lambda>n. g (Suc n)))"
      "nrows P = nrows X" "ncols P = ncols (W r)" "nrows S = nrows X" "ncols S = ncols (W r)"
      "\<forall>i. \<forall>j<ncols (W r). cell P i j =
               relu_fl ((\<Sum>l<ncols X. cell X i l * cell (W r) l j) + elt (h_bias r) j)"
      "\<forall>i j. cell S i j = (if ge_fl (cell P i j) (Fin (g 0 i j)) then Fin 1 else Fin 0)"
    by blast
  have f: "\<forall>i<nrows X. \<forall>j<ncols (W r).
                 cell P i j =
                   Fin (max 0 ((\<Sum>l<ncols X. val (cell X i l) * val (cell (W r) l j))
                               + val (elt (h_bias r) j)))"
    if "fin_mat X" "fin_mat (W r)" "fin_vec (h_bias r)"
    using to_hidden_fin [OF assms that, of g] h(1) by auto
  show ?thesis
    apply (rule exI [of _ P], rule exI [of _ S], rule exI [of _ "\<lambda>n. g (Suc n)"])
    using h f by simp
qed

theorem to_hidden_relu_binary_witness:
  "ncols ex_batch = nrows (W ex_rbm) \<and> len (h_bias ex_rbm) = ncols (W ex_rbm) \<and>
   fin_mat ex_batch \<and> fin_mat (W ex_rbm) \<and> fin_vec (h_bias ex_rbm) \<and>
   (\<exists>P S g'. to_hidden ex_rbm ex_rng ex_batch = Inr (P, S, g') \<and> nrows P = 2 \<and>
      cell P 1 0 = Fin 1 \<and> (cell S 1 0 = Fin 0 \<or> cell S 1 0 = Fin 1))"
proof -
  have a: "ncols ex_batch = nrows (W ex_rbm)" "len (h_bias ex_rbm) = ncols (W ex_rbm)"
    by (simp_all add: ex_batch_def ex_rbm_def const_mat_def const_vec_def)
  have f: "fin_mat ex_batch" "fin_mat (W ex_rbm)" "fin_vec (h_bias ex_rbm)"
    by (simp_all add: fin_mat_def fin_vec_def ex_batch_def ex_rbm_def const_mat_def
        const_vec_def)
  from to_hidden_relu_binary [OF a, of ex_rng] f obtain P S g' where
    h: "to_hidden ex_rbm ex_rng ex_batch = Inr (P, S, g')" "nrows P = nrows ex_batch"
      "\<forall>i<nrows ex_batch. \<forall>j<ncols (W ex_rbm).
         cell P i j =
           relu_fl ((\<Sum>l<ncols ex_batch. cell ex_batch i l * cell (W ex_rbm) l j)
                  + elt (h_bias ex_rbm) j) \<and>
         (cell S i j = Fin 0 \<or> cell S i j = Fin 1)"
      "\<forall>i<nrows ex_batch. \<forall>j<ncols (W ex_rbm).
         cell P i j =
           Fin (max 0 ((\<Sum>l<ncols ex_batch. val (cell ex_batch i l) * val (cell (W ex_rbm) l j))
                  + val (elt (h_bias ex_rbm) j)))"
    by blast
  from h(3,4) have "cell P 1 0 = Fin 1 \<and> (cell S 1 0 = Fin 0 \<or> cell S 1 0 = Fin 1)"
    by (simp add: ex_batch_def ex_rbm_def const_mat_def const_vec_def)
  with h(1,2) a f show ?thesis
    by (simp add: ex_batch_def const_mat_def)
qed

section \<open>The reconstruction error\<close>

text \<open>
  Claim C1, as amended. On a model with the constructor's shapes, for a batch with one
  column for each visible unit and at least one Gibbs step, \<open>contrastive_divergence\<close>
  returns, training or not and whatever the batch size, and the error it returns is
  the sum over the samples of the batch of the squared differences between the batch
  and the negative-phase visible reconstruction, taken for each feature and then
  averaged over the features. When the model and the batch hold real numbers and
  there is at least one visible unit, the reconstruction holds real numbers and the
  error is that real number.
\<close>

theorem cd_error_feature_mean:
  assumes "wf_rbm r" and "ncols X = visible_units r" and "1 \<le> n"
  shows "\<exists>ph g' G. cd_phases r g X n = Inr (ph, g') \<and>
           returned (contrastive_divergence r g X training n lr) =
             Inr (feature_mean_error X (negative_visible_probabilities ph), G) \<and>
           (fin_rbm r \<longrightarrow> fin_mat X \<longrightarrow> 0 < visible_units r \<longrightarrow>
              fin_mat (negative_visible_probabilities ph) \<and>
              feature_mean_error X (negative_visible_probabilities ph) =
                Fin ((\<Sum>j<visible_units r. \<Sum>i<nrows X.
                        (val (cell X i j)
                           - val (cell (negative_visible_probabilities ph) i j))\<^sup>2)
                     / real (visible_units r)))"
proof -
  from cd_phases_ok [OF assms, of g] obtain ph g' where
    p: "cd_phases r g X n = Inr (ph, g')" "phases_ok r X ph"
       "fin_rbm r \<longrightarrow> fin_mat X \<longrightarrow> fin_phases ph"
    by blast
  have f: "fin_mat (negative_visible_probabilities ph) \<and>
           feature_mean_error X (negative_visible_probabilities ph) =
                Fin ((\<Sum>j<visible_units r. \<Sum>i<nrows X.
                        (val (cell X i j)
                           - val (cell (negative_visible_probabilities ph) i j))\<^sup>2)
                     / real (visible_units r))"
    if "fin_rbm r" "fin_mat X" "0 < visible_units r"
  proof -
    from p(3) that have v: "fin_mat (negative_visible_probabilities ph)"
      by (simp add: fin_phases_def)
    from feature_mean_error_fin [OF that(2) v] p(2) assms(2) that(3) v show ?thesis
      by (simp add: phases_ok_def)
  qed
  have "\<exists>G. returned (contrastive_divergence r g X training n lr) =
             Inr (feature_mean_error X (negative_visible_probabilities ph), G)"
  proof (cases training)
    case False
    from cd_eval_ok [OF assms, of g lr] p(1) False show ?thesis
      by (auto simp: returned_def)
  next
    case True
    from cd_train_ok [OF assms, of g lr] p(1) True show ?thesis
      by (auto simp: returned_def)
  qed
  then obtain G where G: "returned (contrastive_divergence r g X training n lr) =
             Inr (feature_mean_error X (negative_visible_probabilities ph), G)" ..
  show ?thesis
    apply (rule exI [of _ ph], rule exI [of _ g'], rule exI [of _ G])
    using p(1) G f by (intro conjI impI) simp_all
qed

theorem cd_error_feature_mean_witness:
  "wf_rbm ex_rbm \<and> ncols ex_batch = visible_units ex_rbm \<and>
   fin_rbm ex_rbm \<and> fin_mat ex_batch \<and> 0 < visible_units ex_rbm \<and>
   returned (contrastive_divergence ex_rbm ex_rng ex_batch False 1 (1 / 1000))
     = Inr (Fin 2, Fin 2) \<and>
   Fin 2 = Fin (((1 - 2)\<^sup>2 + (1 - 2)\<^sup>2) / 1)"
proof -
  have a: "wf_rbm ex_rbm" "ncols ex_batch = visible_units ex_rbm" "(1::int) \<le> 1"
    by (simp_all add: wf_rbm_def ex_defs)
  have f: "fin_rbm ex_rbm" "fin_mat ex_batch" "0 < visible_units ex_rbm"
    by (simp_all add: fin_rbm_def fin_mat_def fin_vec_def ex_defs)
  from cd_error_feature_mean [OF a, of ex_rng False "1 / 1000"] f obtain ph g' G where
    h: "cd_phases ex_rbm ex_rng ex_batch 1 = Inr (ph, g')"
       "returned (contrastive_divergence ex_rbm ex_rng ex_batch False 1 (1 / 1000)) =
          Inr (feature_mean_error ex_batch (negative_visible_probabilities ph), G)"
       "feature_mean_error ex_batch (negative_visible_probabilities ph) =
          Fin ((\<Sum>j<visible_units ex_rbm. \<Sum>i<nrows ex_batch.
                  (val (cell ex_batch i j)
                     - val (cell (negative_visible_probabilities ph) i j))\<^sup>2)
               / real (visible_units ex_rbm))"
    by blast
  from h(1) have ph: "negative_visible_probabilities ph = const_mat 2 1 (Fin 2)"
    by (auto simp: ex_phases)
  have G: "G = Fin 2"
    using h(2) by (simp add: returned_def contrastive_divergence_def ex_phases
        split: sum.splits) (simp add: ex_defs sum_abs_def sum_list_upt)
  from h(3) have "feature_mean_error ex_batch (negative_visible_probabilities ph) = Fin 2"
    unfolding ph by (simp add: ex_defs)
  with h(2) G a f show ?thesis
    by simp
qed

text \<open>The claim as it stands fails on a batch of two samples with one feature: the
  error returned is 2, and the per-sample sums averaged over the two samples give 1.\<close>

theorem cd_error_counterexample:
  "map_sum id fst (returned (contrastive_divergence ex_rbm ex_rng ex_batch False 1 (1 / 1000)))
     = Inr (Fin 2) \<and>
   cd_claimed_error ex_rbm ex_rng ex_batch 1 = Inr (Fin 1)"
  unfolding contrastive_divergence_def returned_def cd_claimed_error_def ex_phases
  by (simp add: cd_error_def batch_mean_error_def ex_defs op_defs sum_list_upt sum_Fin)

section \<open>The update rule\<close>

text \<open>
  Claim C2, as amended. On a model with the constructor's shapes, for a batch with one
  column for each visible unit and at least one Gibbs step, a training call of
  \<open>contrastive_divergence\<close> sets
  \<open>\<Delta>W \<leftarrow> m\<cdot>\<Delta>W + lr\<cdot>((positive association - negative association) / batch_size - \<lambda>\<cdot>W)\<close>,
  \<open>W \<leftarrow> W + \<Delta>W\<close>,
  \<open>\<Delta>b \<leftarrow> m\<cdot>\<Delta>b + lr\<cdot>(sum over the batch rows of (V0 - negative visible reconstruction)) / batch_size\<close>
  and \<open>b \<leftarrow> b + \<Delta>b\<close>, and likewise for the hidden bias with the hidden probabilities
  of the two phases, where the divisor is the \<open>batch_size\<close> field of the model (which
  the call leaves as it is), whatever the number of rows of the batch. This holds for
  every batch size, zero included, where the quotients are infinite or not a number;
  when the model and the batch hold real numbers and the batch size is not zero, the
  new values are the real numbers these formulas give.
\<close>

theorem cd_update_rule:
  assumes "wf_rbm r" and "ncols X = visible_units r" and "1 \<le> n"
  shows "\<exists>ph g' r'.
           cd_phases r g X n = Inr (ph, g') \<and>
           fst (contrastive_divergence r g X True n lr) = r' \<and>
           batch_size r' = batch_size r \<and>
           (\<forall>i<visible_units r. \<forall>j<hidden_units r.
              cell (grad_update r') i j =
                Fin (momentum r) * cell (grad_update r) i j
                + Fin lr * (div_int (cell (positive_associations ph) i j
                                       - cell (negative_associations ph) i j) (batch_size r)
                            - Fin (weight_decay r) * cell (W r) i j) \<and>
              cell (W r') i j = cell (W r) i j + cell (grad_update r') i j) \<and>
           (\<forall>j<visible_units r.
              elt (v_bias_update_acc r') j =
                Fin (momentum r) * elt (v_bias_update_acc r) j
                + div_int (Fin lr * (\<Sum>i<nrows X. cell X i j
                                        - cell (negative_visible_probabilities ph) i j))
                    (batch_size r) \<and>
              elt (v_bias r') j = elt (v_bias r) j + elt (v_bias_update_acc r') j) \<and>
           (\<forall>j<hidden_units r.
              elt (h_bias_update_acc r') j =
                Fin (momentum r) * elt (h_bias_update_acc r) j
                + div_int (Fin lr * (\<Sum>i<nrows X. cell (positive_hidden_probabilities ph) i j
                                        - cell (negative_hidden_probabilities ph) i j))
                    (batch_size r) \<and>
              elt (h_bias r') j = elt (h_bias r) j + elt (h_bias_update_acc r') j) \<and>
           (fin_rbm r \<longrightarrow> fin_mat X \<longrightarrow> batch_size r \<noteq> 0 \<longrightarrow>
              (\<forall>i<visible_units r. \<forall>j<hidden_units r.
                 cell (grad_update r') i j =
                   Fin (momentum r * val (cell (grad_update r) i j)
                        + lr * ((val (cell (positive_associations ph) i j)
                                   - val (cell (negative_associations ph) i j))
                                  / real_of_int (batch_size r)
                                - weight_decay r * val (cell (W r) i j))) \<and>
                 cell (W r') i j =
                   Fin (val (cell (W r) i j) + val (cell (grad_update r') i j))) \<and>
              (\<forall>j<visible_units r.
                 elt (v_bias_update_acc r') j =
                   Fin (momentum r * val (elt (v_bias_update_acc r) j)
                        + lr * ((\<Sum>i<nrows X. val (cell X i j)
                                    - val (cell (negative_visible_probabilities ph) i j))
                                  / real_of_int (batch_size r))) \<and>
                 elt (v_bias r') j =
                   Fin (val (elt (v_bias r) j) + val (elt (v_bias_update_acc r') j))) \<and>
              (\<forall>j<hidden_units r.
                 elt (h_bias_update_acc r') j =
                   Fin (momentum r * val (elt (h_bias_update_acc r) j)
                        + lr * ((\<Sum>i<nrows X. val (cell (positive_hidden_probabilities ph) i j)
                                    - val (cell (negative_hidden_probabilities ph) i j))
                                  / real_of_int (batch_size r))) \<and>
                 elt (h_bias r') j =
                   Fin (val (elt (h_bias r) j) + val (elt (h_bias_update_acc r') j))))"
proof -
  from cd_train_ok [OF assms, of g lr] obtain ph g' gu vu hu w vb hb where
    h: "cd_phases r g X n = Inr (ph, g')" "phases_ok r X ph"
       "fin_rbm r \<longrightarrow> fin_mat X \<longrightarrow> fin_phases ph"
       "contrastive_divergence r g X True n lr =
             (r\<lparr>grad_update := gu, v_bias_update_acc := vu, h_bias_update_acc := hu,
                W := w, v_bias := vb, h_bias := hb\<rparr>,
              Inr ((feature_mean_error X (negative_visible_probabilities ph), sum_abs gu),
                   g'))"
    and W: "\<forall>i<visible_units r. \<forall>j<hidden_units r.
              cell gu i j = grad_update_rule r ph lr i j \<and>
              cell w i j = cell (W r) i j + cell gu i j"
    and V: "\<forall>j<visible_units r.
              elt vu j = v_bias_update_rule r X ph lr j \<and>
              elt vb j = elt (v_bias r) j + elt vu j"
    and H: "\<forall>j<hidden_units r.
              elt hu j = h_bias_update_rule r X ph lr j \<and>
              elt hb j = elt (h_bias r) j + elt hu j"
    by blast
  let ?r = "r\<lparr>grad_update := gu, v_bias_update_acc := vu, h_bias_update_acc := hu,
                W := w, v_bias := vb, h_bias := hb\<rparr>"
  have r': "fst (contrastive_divergence r g X True n lr) = ?r" "batch_size ?r = batch_size r"
    using h(4) by simp_all
  have fields: "grad_update ?r = gu" "W ?r = w" "v_bias_update_acc ?r = vu" "v_bias ?r = vb"
    "h_bias_update_acc ?r = hu" "h_bias ?r = hb"
    by simp_all
  have fW: "\<forall>i<visible_units r. \<forall>j<hidden_units r.
                 cell gu i j =
                   Fin (momentum r * val (cell (grad_update r) i j)
                        + lr * ((val (cell (positive_associations ph) i j)
                                   - val (cell (negative_associations ph) i j))
                                  / real_of_int (batch_size r)
                                - weight_decay r * val (cell (W r) i j))) \<and>
                 cell w i j = Fin (val (cell (W r) i j) + val (cell gu i j))"
    and fV: "\<forall>j<visible_units r.
                 elt vu j =
                   Fin (momentum r * val (elt (v_bias_update_acc r) j)
                        + lr * ((\<Sum>i<nrows X. val (cell X i j)
                                    - val (cell (negative_visible_probabilities ph) i j))
                                  / real_of_int (batch_size r))) \<and>
                 elt vb j = Fin (val (elt (v_bias r) j) + val (elt vu j))"
    and fH: "\<forall>j<hidden_units r.
                 elt hu j =
                   Fin (momentum r * val (elt (h_bias_update_acc r) j)
                        + lr * ((\<Sum>i<nrows X. val (cell (positive_hidden_probabilities ph) i j)
                                    - val (cell (negative_hidden_probabilities ph) i j))
                                  / real_of_int (batch_size r))) \<and>
                 elt hb j = Fin (val (elt (h_bias r) j) + val (elt hu j))"
    if f: "fin_rbm r" "fin_mat X" "batch_size r \<noteq> 0"
  proof -
    from h(3) f have fp: "fin_phases ph" by simp
    note rf = rules_fin [OF assms(1) h(2) assms(2) f(1,2) fp f(3), of lr]
    have wfin: "is_Fin (cell (W r) i j)" if "i < visible_units r" "j < hidden_units r" for i j
      using f(1) assms(1) that by (simp add: fin_rbm_def fin_mat_def wf_rbm_def)
    have vfin: "is_Fin (elt (v_bias r) j)" if "j < visible_units r" for j
      using f(1) assms(1) that by (simp add: fin_rbm_def fin_vec_def wf_rbm_def)
    have hfin: "is_Fin (elt (h_bias r) j)" if "j < hidden_units r" for j
      using f(1) assms(1) that by (simp add: fin_rbm_def fin_vec_def wf_rbm_def)
    show "\<forall>i<visible_units r. \<forall>j<hidden_units r.
                 cell gu i j =
                   Fin (momentum r * val (cell (grad_update r) i j)
                        + lr * ((val (cell (positive_associations ph) i j)
                                   - val (cell (negative_associations ph) i j))
                                  / real_of_int (batch_size r)
                                - weight_decay r * val (cell (W r) i j))) \<and>
                 cell w i j = Fin (val (cell (W r) i j) + val (cell gu i j))"
    proof (intro allI impI)
      fix i j assume ij: "i < visible_units r" "j < hidden_units r"
      from W rf(1) ij have g: "cell gu i j =
                   Fin (momentum r * val (cell (grad_update r) i j)
                        + lr * ((val (cell (positive_associations ph) i j)
                                   - val (cell (negative_associations ph) i j))
                                  / real_of_int (batch_size r)
                                - weight_decay r * val (cell (W r) i j)))"
        by simp
      then have "is_Fin (cell gu i j)" by simp
      with W ij wfin [OF ij] have "cell w i j = Fin (val (cell (W r) i j) + val (cell gu i j))"
        by (simp add: fin_plus)
      with g show "cell gu i j =
                   Fin (momentum r * val (cell (grad_update r) i j)
                        + lr * ((val (cell (positive_associations ph) i j)
                                   - val (cell (negative_associations ph) i j))
                                  / real_of_int (batch_size r)
                                - weight_decay r * val (cell (W r) i j))) \<and>
                 cell w i j = Fin (val (cell (W r) i j) + val (cell gu i j))"
        by simp
    qed
    show "\<forall>j<visible_units r.
                 elt vu j =
                   Fin (momentum r * val (elt (v_bias_update_acc r) j)
                        + lr * ((\<Sum>i<nrows X. val (cell X i j)
                                    - val (cell (negative_visible_probabilities ph) i j))
                                  / real_of_int (batch_size r))) \<and>
                 elt vb j = Fin (val (elt (v_bias r) j) + val (elt vu j))"
    proof (intro allI impI)
      fix j assume j: "j < visible_units r"
      from V rf(2) j have g: "elt vu j =
                   Fin (momentum r * val (elt (v_bias_update_acc r) j)
                        + lr * ((\<Sum>i<nrows X. val (cell X i j)
                                    - val (cell (negative_visible_probabilities ph) i j))
                                  / real_of_int (batch_size r)))"
        by simp
      then have "is_Fin (elt vu j)" by simp
      with V j vfin [OF j] have "elt vb j = Fin (val (elt (v_bias r) j) + val (elt vu j))"
        by (simp add: fin_plus)
      with g show "elt vu j =
                   Fin (momentum r * val (elt (v_bias_update_acc r) j)
                        + lr * ((\<Sum>i<nrows X. val (cell X i j)
                                    - val (cell (negative_visible_probabilities ph) i j))
                                  / real_of_int (batch_size r))) \<and>
                 elt vb j = Fin (val (elt (v_bias r) j) + val (elt vu j))"
        by simp
    qed
    show "\<forall>j<hidden_units r.
                 elt hu j =
                   Fin (momentum r * val (elt (h_bias_update_acc r) j)
                        + lr * ((\<Sum>i<nrows X. val (cell (positive_hidden_probabilities ph) i j)
                                    - val (cell (negative_hidden_probabilities ph) i j))
                                  / real_of_int (batch_size r))) \<and>
                 elt hb j = Fin (val (elt (h_bias r) j) + val (elt hu j))"
    proof (intro allI impI)
      fix j assume j: "j < hidden_units r"
      from H rf(3) j have g: "elt hu j =
                   Fin (momentum r * val (elt (h_bias_update_acc r) j)
                        + lr * ((\<Sum>i<nrows X. val (cell (positive_hidden_probabilities ph) i j)
                                    - val (cell (negative_hidden_probabilities ph) i j))
                                  / real_of_int (batch_size r)))"
        by simp
      then have "is_Fin (elt hu j)" by simp
      with H j hfin [OF j] have "elt hb j = Fin (val (elt (h_bias r) j) + val (elt hu j))"
        by (simp add: fin_plus)
      with g show "elt hu j =
                   Fin (momentum r * val (elt (h_bias_update_acc r) j)
                        + lr * ((\<Sum>i<nrows X. val (cell (positive_hidden_probabilities ph) i j)
                                    - val (cell (negative_hidden_probabilities ph) i j))
                                  / real_of_int (batch_size r))) \<and>
                 elt hb j = Fin (val (elt (h_bias r) j) + val (elt hu j))"
        by simp
    qed
  qed
  show ?thesis
    apply (rule exI [of _ ph], rule exI [of _ g'], rule exI [of _ ?r])
    unfolding fields
    using h(1) r' W V H fW fV fH
    unfolding grad_update_rule_def v_bias_update_rule_def h_bias_update_rule_def
    by (intro conjI impI) assumption+
qed

theorem cd_update_rule_witness:
  "wf_rbm ex_rbm \<and> ncols ex_batch = visible_units ex_rbm \<and>
   fin_rbm ex_rbm \<and> fin_mat ex_batch \<and> batch_size ex_rbm \<noteq> 0 \<and>
   cell (grad_update (fst (contrastive_divergence ex_rbm ex_rng ex_batch True 1 1))) 0 0
     = Fin (1 / 2 * 2 + 1 * ((2 - 8) / 16 - 1 / 2 * 1)) \<and>
   elt (v_bias_update_acc (fst (contrastive_divergence ex_rbm ex_rng ex_batch True 1 1))) 0
     = Fin (1 / 2 * 0 + 1 * (((1 - 2) + (1 - 2)) / 16)) \<and>
   elt (h_bias_update_acc (fst (contrastive_divergence ex_rbm ex_rng ex_batch True 1 1))) 0
     = Fin (1 / 2 * 0 + 1 * (((1 - 2) + (1 - 2)) / 16))"
proof -
  have a: "wf_rbm ex_rbm" "ncols ex_batch = visible_units ex_rbm" "(1::int) \<le> 1"
    by (simp_all add: wf_rbm_def ex_defs)
  have f: "fin_rbm ex_rbm" "fin_mat ex_batch" "batch_size ex_rbm \<noteq> 0"
    by (simp_all add: fin_rbm_def fin_mat_def fin_vec_def ex_defs)
  from cd_update_rule [OF a, of ex_rng 1] f obtain ph g' r' where
    h: "cd_phases ex_rbm ex_rng ex_batch 1 = Inr (ph, g')"
       "fst (contrastive_divergence ex_rbm ex_rng ex_batch True 1 1) = r'"
       "\<forall>i<visible_units ex_rbm. \<forall>j<hidden_units ex_rbm.
                 cell (grad_update r') i j =
                   Fin (momentum ex_rbm * val (cell (grad_update ex_rbm) i j)
                        + 1 * ((val (cell (positive_associations ph) i j)
                                   - val (cell (negative_associations ph) i j))
                                  / real_of_int (batch_size ex_rbm)
                                - weight_decay ex_rbm * val (cell (W ex_rbm) i j))) \<and>
                 cell (W r') i j =
                   Fin (val (cell (W ex_rbm) i j) + val (cell (grad_update r') i j))"
       "\<forall>j<visible_units ex_rbm.
                 elt (v_bias_update_acc r') j =
                   Fin (momentum ex_rbm * val (elt (v_bias_update_acc ex_rbm) j)
                        + 1 * ((\<Sum>i<nrows ex_batch. val (cell ex_batch i j)
                                    - val (cell (negative_visible_probabilities ph) i j))
                                  / real_of_int (batch_size ex_rbm))) \<and>
                 elt (v_bias r') j =
                   Fin (val (elt (v_bias ex_rbm) j) + val (elt (v_bias_update_acc r') j))"
       "\<forall>j<hidden_units ex_rbm.
                 elt (h_bias_update_acc r') j =
                   Fin (momentum ex_rbm * val (elt (h_bias_update_acc ex_rbm) j)
                        + 1 * ((\<Sum>i<nrows ex_batch.
                                    val (cell (positive_hidden_probabilities ph) i j)
                                    - val (cell (negative_hidden_probabilities ph) i j))
                                  / real_of_int (batch_size ex_rbm))) \<and>
                 elt (h_bias r') j =
                   Fin (val (elt (h_bias ex_rbm) j) + val (elt (h_bias_update_acc r') j))"
    by blast
  from h(1) have ph: "ph = \<lparr>positive_hidden_probabilities = const_mat 2 1 (Fin 1),
           positive_associations = const_mat 1 1 (Fin 2),
           negative_visible_probabilities = const_mat 2 1 (Fin 2),
           negative_hidden_probabilities = const_mat 2 1 (Fin 2),
           negative_associations = const_mat 1 1 (Fin 8)\<rparr>"
    by (simp add: ex_phases)
  from h(3) have g: "cell (grad_update r') 0 0
                       = Fin (1 / 2 * 2 + 1 * ((2 - 8) / 16 - 1 / 2 * 1))"
    unfolding ph by (simp add: ex_defs)
  from h(4) have v: "elt (v_bias_update_acc r') 0
                       = Fin (1 / 2 * 0 + 1 * (((1 - 2) + (1 - 2)) / 16))"
    unfolding ph by (simp add: ex_defs)
  from h(5) have hh: "elt (h_bias_update_acc r') 0
                       = Fin (1 / 2 * 0 + 1 * (((1 - 2) + (1 - 2)) / 16))"
    unfolding ph by (simp add: ex_defs)
  from a f g v hh h(2) show ?thesis
    by simp
qed

text \<open>The claim as it stands fails on a batch of two rows while \<open>batch_size\<close> is the
  constructor's 16: the weight accumulator becomes \<open>1/8\<close>, and with the number of rows
  as divisor it would be \<open>-5/2\<close>.\<close>

theorem cd_update_rule_counterexample:
  "nrows ex_batch = 2 \<and> batch_size ex_rbm = 16 \<and>
   cell (grad_update (fst (contrastive_divergence ex_rbm ex_rng ex_batch True 1 1))) 0 0
     = Fin (1 / 8) \<and>
   cd_claimed_grad_update ex_rbm ex_rng ex_batch 1 1 0 0 = Inr (Fin (- 5 / 2))"
  unfolding ex_step_state cd_claimed_grad_update_def ex_phases
  by (simp add: claimed_grad_update_def ex_defs minus_fl_def)

section \<open>What the evaluation entry point returns\<close>

text \<open>
  Claim C8, as amended. On a model with the constructor's shapes, for a batch with one
  column for each visible unit, \<open>reconstruction_error\<close> returns a pair: the
  reconstruction error of one Gibbs step (a scalar) and, as second component, the sum
  of the absolute values of the weight accumulator; the model is unchanged.
\<close>

theorem reconstruction_error_pair:
  assumes "wf_rbm r" and "ncols X = visible_units r"
  shows "\<exists>ph g'. cd_phases r g X 1 = Inr (ph, g') \<and>
           reconstruction_error r g X =
             (r, Inr ((feature_mean_error X (negative_visible_probabilities ph),
                       (\<Sum>i<visible_units r. \<Sum>j<hidden_units r. \<bar>cell (grad_update r) i j\<bar>)),
                      g'))"
proof -
  have n: "(1::int) \<le> 1" by simp
  from cd_eval_ok [OF assms n, of g "0.001"] assms(1) show ?thesis
    by (auto simp: reconstruction_error_def sum_abs_def sum_list_upt wf_rbm_def)
qed

theorem reconstruction_error_pair_witness:
  "wf_rbm ex_rbm \<and> ncols ex_batch = visible_units ex_rbm \<and>
   reconstruction_error ex_rbm ex_rng ex_batch = (ex_rbm, Inr ((Fin 2, Fin 2), ex_rng))"
proof -
  have a: "wf_rbm ex_rbm" "ncols ex_batch = visible_units ex_rbm"
    by (simp_all add: wf_rbm_def ex_defs)
  from reconstruction_error_pair [OF a, of ex_rng] obtain ph g' where
    h: "cd_phases ex_rbm ex_rng ex_batch 1 = Inr (ph, g')"
       "reconstruction_error ex_rbm ex_rng ex_batch =
             (ex_rbm, Inr ((feature_mean_error ex_batch (negative_visible_probabilities ph),
                       (\<Sum>i<visible_units ex_rbm. \<Sum>j<hidden_units ex_rbm.
                           \<bar>cell (grad_update ex_rbm) i j\<bar>)), g'))"
    by blast
  from h(1) have ph: "negative_visible_probabilities ph = const_mat 2 1 (Fin 2)" "g' = ex_rng"
    by (auto simp: ex_phases)
  have "feature_mean_error ex_batch (const_mat 2 1 (Fin 2)) = Fin 2"
    by (simp add: feature_mean_error_def ex_defs minus_fl_def sum_Fin)
  moreover have "(\<Sum>i<visible_units ex_rbm. \<Sum>j<hidden_units ex_rbm.
                           \<bar>cell (grad_update ex_rbm) i j\<bar>) = Fin 2"
    by (simp add: ex_defs)
  ultimately show ?thesis
    using h(2) ph a by simp
qed

text \<open>The claim as it stands fails: what is returned is not one scalar. On the same
  batch two models that differ only in the weight accumulator have the same error, 2,
  and are given different values, \<open>(2, 2)\<close> and \<open>(2, 5)\<close>.\<close>

theorem reconstruction_error_second_component:
  "returned (reconstruction_error ex_rbm ex_rng ex_batch) = Inr (Fin 2, Fin 2) \<and>
   returned (reconstruction_error (ex_rbm\<lparr>grad_update := const_mat 1 1 (Fin 5)\<rparr>) ex_rng ex_batch)
     = Inr (Fin 2, Fin 5)"
  by (simp add: reconstruction_error_def contrastive_divergence_def returned_def
      cd_phases_def cd_error_def ex_defs op_defs sum_list_upt sum_Fin)

section \<open>Reconstruction\<close>

text \<open>
  Claim C10. With \<open>n_gibbs \<le> 0\<close> the loop of \<open>reconstruct\<close> never runs and the call fails
  with \<open>UnboundLocalError\<close>, since the names it returns were never bound. With
  \<open>n_gibbs \<ge> 1\<close>, on a model with the constructor's shapes and a batch with one column
  for each visible unit, the call returns: the first pass of the loop is \<open>to_hidden\<close>
  on the batch followed by \<open>to_visible\<close> on the hidden probabilities; with
  \<open>n_gibbs = 1\<close> the visible probabilities and the sample of that pass are the result,
  and with \<open>n_gibbs > 1\<close> the result is that of \<open>reconstruct\<close> with \<open>n_gibbs - 1\<close> on the
  visible sample of that pass. The result is a pair of tensors of the shape of the
  batch, and two draws of the generator are used for each of the \<open>n_gibbs\<close> passes. In
  every case the model is unchanged.
\<close>

theorem reconstruct_needs_a_step:
  "(n_gibbs \<le> 0 \<longrightarrow> reconstruct r g X n_gibbs = (r, Inl UnboundLocalError)) \<and>
   fst (reconstruct r g X n_gibbs) = r \<and>
   (1 \<le> n_gibbs \<longrightarrow> wf_rbm r \<longrightarrow> ncols X = visible_units r \<longrightarrow>
      (\<exists>prob_h h prob_v v.
         to_hidden r g X = Inr (prob_h, h, (\<lambda>m. g (Suc m))) \<and>
         to_visible r (\<lambda>m. g (Suc m)) prob_h = Inr (prob_v, v, (\<lambda>m. g (Suc (Suc m)))) \<and>
         nrows v = nrows X \<and> ncols v = visible_units r \<and>
         reconstruct r g X n_gibbs =
           (if n_gibbs = 1 then (r, Inr ((prob_v, v), (\<lambda>m. g (Suc (Suc m)))))
            else reconstruct r (\<lambda>m. g (Suc (Suc m))) v (n_gibbs - 1))) \<and>
      (\<exists>prob_v v.
         reconstruct r g X n_gibbs = (r, Inr ((prob_v, v), (\<lambda>m. g (2 * nat n_gibbs + m)))) \<and>
         nrows prob_v = nrows X \<and> ncols prob_v = visible_units r \<and>
         nrows v = nrows X \<and> ncols v = visible_units r))"
proof (intro conjI impI)
  assume "n_gibbs \<le> 0"
  then show "reconstruct r g X n_gibbs = (r, Inl UnboundLocalError)"
    by (simp add: reconstruct_def)
next
  show "fst (reconstruct r g X n_gibbs) = r"
    by (simp add: reconstruct_def split: sum.splits prod.splits option.splits)
next
  assume n: "1 \<le> n_gibbs" and wf: "wf_rbm r" and X: "ncols X = visible_units r"
  from reconstruct_unfold [OF wf X n, of g]
  show "\<exists>prob_h h prob_v v.
         to_hidden r g X = Inr (prob_h, h, (\<lambda>m. g (Suc m))) \<and>
         to_visible r (\<lambda>m. g (Suc m)) prob_h = Inr (prob_v, v, (\<lambda>m. g (Suc (Suc m)))) \<and>
         nrows v = nrows X \<and> ncols v = visible_units r \<and>
         reconstruct r g X n_gibbs =
           (if n_gibbs = 1 then (r, Inr ((prob_v, v), (\<lambda>m. g (Suc (Suc m)))))
            else reconstruct r (\<lambda>m. g (Suc (Suc m))) v (n_gibbs - 1))" .
next
  assume n: "1 \<le> n_gibbs" and wf: "wf_rbm r" and X: "ncols X = visible_units r"
  from n obtain m where m: "nat n_gibbs = Suc m"
    by (cases "nat n_gibbs") auto
  from reconstruct_loop_ok [OF wf X, of m g None] obtain v pv where
    l: "reconstruct_loop r (Suc m) g X None = Inr ((\<lambda>k. g (2 * Suc m + k)), v, Some pv)"
       "nrows pv = nrows X" "ncols pv = visible_units r"
       "nrows v = nrows X" "ncols v = visible_units r"
    by blast
  show "\<exists>prob_v v.
         reconstruct r g X n_gibbs = (r, Inr ((prob_v, v), (\<lambda>m. g (2 * nat n_gibbs + m)))) \<and>
         nrows prob_v = nrows X \<and> ncols prob_v = visible_units r \<and>
         nrows v = nrows X \<and> ncols v = visible_units r"
    apply (rule exI [of _ pv], rule exI [of _ v])
    using l m by (simp add: reconstruct_def del: reconstruct_loop.simps)
qed

theorem reconstruct_needs_a_step_witness:
  "reconstruct ex_rbm ex_rng ex_batch 0 = (ex_rbm, Inl UnboundLocalError) \<and>
   wf_rbm ex_rbm \<and> ncols ex_batch = visible_units ex_rbm \<and>
   to_hidden ex_rbm ex_rng ex_batch
     = Inr (const_mat 2 1 (Fin 1), const_mat 2 1 (Fin 1), ex_rng) \<and>
   to_visible ex_rbm ex_rng (const_mat 2 1 (Fin 1))
     = Inr (const_mat 2 1 (Fin 2), const_mat 2 1 (Fin 1), ex_rng) \<and>
   reconstruct ex_rbm ex_rng ex_batch 1
     = (ex_rbm, Inr ((const_mat 2 1 (Fin 2), const_mat 2 1 (Fin 1)), ex_rng)) \<and>
   reconstruct ex_rbm ex_rng ex_batch 2
     = (ex_rbm, Inr ((const_mat 2 1 (Fin 2), const_mat 2 1 (Fin 1)), ex_rng))"
proof -
  have a: "wf_rbm ex_rbm" "ncols ex_batch = visible_units ex_rbm"
    "ncols (const_mat 2 1 (Fin 1)) = visible_units ex_rbm"
    by (simp_all add: wf_rbm_def ex_defs)
  have g: "(\<lambda>m. ex_rng (Suc m)) = ex_rng" "(\<lambda>m. ex_rng (Suc (Suc m))) = ex_rng"
    by (simp_all add: ex_rng_def const_rng_def)
  have th: "to_hidden ex_rbm ex_rng ex_batch
              = Inr (const_mat 2 1 (Fin 1), const_mat 2 1 (Fin 1), ex_rng)"
    by (simp add: ex_defs op_defs sum_list_upt sum_Fin)
  have tv: "to_visible ex_rbm ex_rng (const_mat 2 1 (Fin 1))
              = Inr (const_mat 2 1 (Fin 2), const_mat 2 1 (Fin 1), ex_rng)"
    by (simp add: ex_defs op_defs sum_list_upt sum_Fin)
  have b: "ex_batch = const_mat 2 1 (Fin 1)"
    by (simp add: ex_batch_def)
  from reconstruct_needs_a_step [of 0 ex_rbm ex_rng ex_batch]
  have z: "reconstruct ex_rbm ex_rng ex_batch 0 = (ex_rbm, Inl UnboundLocalError)"
    by simp
  have n: "(1::int) \<le> 1" "(1::int) \<le> 2"
    by simp_all
  note r1 = reconstruct_needs_a_step [of 1 ex_rbm ex_rng ex_batch, THEN conjunct2,
      THEN conjunct2, rule_format, OF n(1) a(1,2), THEN conjunct1]
  note r2 = reconstruct_needs_a_step [of 2 ex_rbm ex_rng ex_batch, THEN conjunct2,
      THEN conjunct2, rule_format, OF n(2) a(1,2), THEN conjunct1]
  from r1 obtain ph h pv v where
    s: "to_hidden ex_rbm ex_rng ex_batch = Inr (ph, h, (\<lambda>m. ex_rng (Suc m)))"
       "to_visible ex_rbm (\<lambda>m. ex_rng (Suc m)) ph = Inr (pv, v, (\<lambda>m. ex_rng (Suc (Suc m))))"
       "reconstruct ex_rbm ex_rng ex_batch 1 =
          (if (1::int) = 1 then (ex_rbm, Inr ((pv, v), (\<lambda>m. ex_rng (Suc (Suc m)))))
           else reconstruct ex_rbm (\<lambda>m. ex_rng (Suc (Suc m))) v (1 - 1))"
    by blast
  from s(1) th have ph: "ph = const_mat 2 1 (Fin 1)"
    by simp
  from s(2) tv have pv: "pv = const_mat 2 1 (Fin 2)" "v = const_mat 2 1 (Fin 1)"
    unfolding ph g by simp_all
  from s(3) have one: "reconstruct ex_rbm ex_rng ex_batch 1
     = (ex_rbm, Inr ((const_mat 2 1 (Fin 2), const_mat 2 1 (Fin 1)), ex_rng))"
    unfolding pv g by simp
  from r2 obtain ph' h' pv' v' where
    t: "to_hidden ex_rbm ex_rng ex_batch = Inr (ph', h', (\<lambda>m. ex_rng (Suc m)))"
       "to_visible ex_rbm (\<lambda>m. ex_rng (Suc m)) ph' = Inr (pv', v', (\<lambda>m. ex_rng (Suc (Suc m))))"
       "reconstruct ex_rbm ex_rng ex_batch 2 =
          (if (2::int) = 1 then (ex_rbm, Inr ((pv', v'), (\<lambda>m. ex_rng (Suc (Suc m)))))
           else reconstruct ex_rbm (\<lambda>m. ex_rng (Suc (Suc m))) v' (2 - 1))"
    by blast
  from t(1) th have ph': "ph' = const_mat 2 1 (Fin 1)"
    by simp
  from t(2) tv have pv': "v' = const_mat 2 1 (Fin 1)"
    unfolding ph' g by simp
  from t(3) have "reconstruct ex_rbm ex_rng ex_batch 2
          = reconstruct ex_rbm ex_rng ex_batch 1"
    unfolding pv' g b by simp
  with one have two: "reconstruct ex_rbm ex_rng ex_batch 2
     = (ex_rbm, Inr ((const_mat 2 1 (Fin 2), const_mat 2 1 (Fin 1)), ex_rng))"
    by simp
  from z a th tv one two show ?thesis
    by simp
qed

section \<open>The momentum schedule\<close>

text \<open>
  Claim C6, as amended. A step whose schedule is computed and whose batch fits leaves
  the model with \<open>momentum\<close> equal to \<open>final_momentum\<close> when \<open>epoch > 5\<close> and to the
  momentum the model held before the step when \<open>epoch \<le> 5\<close>, and that value is the
  factor of the old weight accumulator in the new one (with \<open>initial_momentum = 0.5\<close>,
  \<open>final_momentum = 0.9\<close> and \<open>epoch = 6\<close> the factor is 0.9). The momentum a fresh model
  holds is \<open>initial_momentum\<close>, and it stays so over any run of epochs that are all at
  most 5. No step changes \<open>final_momentum\<close>, and a step that finds
  \<open>momentum = final_momentum\<close> leaves it so, whatever its epoch and outcome, and so does
  a run of epochs: the switch never reverts. A step with \<open>epoch \<le> 5\<close> on a model that
  has been through a step with \<open>epoch > 5\<close> therefore uses \<open>final_momentum\<close>, not
  \<open>initial_momentum\<close>.
\<close>

theorem momentum_switch:
  "(wf_rbm r \<longrightarrow> ncols X = visible_units r \<longrightarrow>
    step_n_gibbs r epoch ne = Inr n \<longrightarrow> 1 \<le> n \<longrightarrow> step_lr r epoch = Inr lr \<longrightarrow>
      (\<exists>ph g' r'.
         cd_phases r g X n = Inr (ph, g') \<and> fst (step r g X epoch ne) = r' \<and>
         momentum r' = (if 5 < epoch then final_momentum r else momentum r) \<and>
         final_momentum r' = final_momentum r \<and>
         (\<forall>i<visible_units r. \<forall>j<hidden_units r.
            cell (grad_update r') i j =
              Fin (if 5 < epoch then final_momentum r else momentum r)
                * cell (grad_update r) i j
              + Fin lr * (div_int (cell (positive_associations ph) i j
                                     - cell (negative_associations ph) i j) (batch_size r)
                          - Fin (weight_decay r) * cell (W r) i j)))) \<and>
   (final_momentum (fst (step r g X epoch ne)) = final_momentum r \<and>
    (momentum r = final_momentum r \<longrightarrow>
       momentum (fst (step r g X epoch ne)) = final_momentum r)) \<and>
   (final_momentum (fst (train_epochs r g loader ne es)) = final_momentum r \<and>
    ((\<forall>e\<in>set es. e \<le> 5) \<longrightarrow>
       momentum (fst (train_epochs r g loader ne es)) = momentum r) \<and>
    (momentum r = final_momentum r \<longrightarrow>
       momentum (fst (train_epochs r g loader ne es)) = final_momentum r)) \<and>
   (final_momentum (fst (train r g src ne bs)) = final_momentum r \<and>
    (ne \<le> 5 \<longrightarrow> momentum (fst (train r g src ne bs)) = momentum r) \<and>
    (momentum r = final_momentum r \<longrightarrow>
       momentum (fst (train r g src ne bs)) = final_momentum r)) \<and>
   (RBM_init v h kk lr0 lrd wd initial_momentum mf xav inc gpu g0 = Inr r0 \<longrightarrow>
      momentum r0 = initial_momentum \<and> final_momentum r0 = mf)"
proof (intro conjI impI)
  assume wf: "wf_rbm r" and X: "ncols X = visible_units r"
    and n: "step_n_gibbs r epoch ne = Inr n" "1 \<le> n" and lr: "step_lr r epoch = Inr lr"
  let ?m = "if 5 < epoch then final_momentum r else momentum r"
  let ?r = "step_momentum r epoch"
  have r1: "?r = r\<lparr>momentum := ?m\<rparr>"
    by (simp add: step_momentum_def)
  have wf1: "wf_rbm ?r" "ncols X = visible_units ?r"
    using wf X by (simp_all add: wf_rbm_def step_momentum_def)
  from cd_train_ok [OF wf1(1,2) n(2), of g lr] obtain ph g' gu vu hu w vb hb where
    c: "cd_phases ?r g X n = Inr (ph, g')"
       "contrastive_divergence ?r g X True n lr =
             (?r\<lparr>grad_update := gu, v_bias_update_acc := vu, h_bias_update_acc := hu,
                W := w, v_bias := vb, h_bias := hb\<rparr>,
              Inr ((feature_mean_error X (negative_visible_probabilities ph), sum_abs gu),
                   g'))"
       "\<forall>i<visible_units ?r. \<forall>j<hidden_units ?r.
              cell gu i j = grad_update_rule ?r ph lr i j \<and>
              cell w i j = cell (W ?r) i j + cell gu i j"
    by blast
  define r' where "r' = fst (contrastive_divergence ?r g X True n lr)"
  have h: "cd_phases ?r g X n = Inr (ph, g')"
       "fst (contrastive_divergence ?r g X True n lr) = r'"
       "\<forall>i<visible_units ?r. \<forall>j<hidden_units ?r.
              cell (grad_update r') i j = grad_update_rule ?r ph lr i j"
    using c by (simp_all add: r'_def)
  have s: "fst (step r g X epoch ne) = r'"
    using n lr h(2) by (simp add: step_def)
  have p: "cd_phases r g X n = Inr (ph, g')"
    using h(1) unfolding r1 by simp
  have m: "momentum r' = ?m"
    using step_momentum_after [OF n(1) lr, of g X] s by simp
  have f: "final_momentum r' = final_momentum r"
    using step_frame [of r g X epoch ne] s by (simp add: hyper_def)
  have b: "\<forall>i<visible_units r. \<forall>j<hidden_units r.
            cell (grad_update r') i j =
              Fin ?m * cell (grad_update r) i j
              + Fin lr * (div_int (cell (positive_associations ph) i j
                                     - cell (negative_associations ph) i j) (batch_size r)
                          - Fin (weight_decay r) * cell (W r) i j)"
    using h(3) unfolding r1 grad_update_rule_def by simp
  show "\<exists>ph g' r'.
         cd_phases r g X n = Inr (ph, g') \<and> fst (step r g X epoch ne) = r' \<and>
         momentum r' = ?m \<and> final_momentum r' = final_momentum r \<and>
         (\<forall>i<visible_units r. \<forall>j<hidden_units r.
            cell (grad_update r') i j =
              Fin ?m * cell (grad_update r) i j
              + Fin lr * (div_int (cell (positive_associations ph) i j
                                     - cell (negative_associations ph) i j) (batch_size r)
                          - Fin (weight_decay r) * cell (W r) i j))"
    using p s m f b by blast
next
  show "final_momentum (fst (step r g X epoch ne)) = final_momentum r"
    using step_frame [of r g X epoch ne] by (simp add: hyper_def)
next
  assume "momentum r = final_momentum r"
  then show "momentum (fst (step r g X epoch ne)) = final_momentum r"
    using step_frame [of r g X epoch ne] by auto
next
  show "final_momentum (fst (train_epochs r g loader ne es)) = final_momentum r"
    using train_epochs_frame [of r g loader ne es] by (simp add: hyper_def)
next
  assume "\<forall>e\<in>set es. e \<le> 5"
  then show "momentum (fst (train_epochs r g loader ne es)) = momentum r"
    using train_epochs_frame [of r g loader ne es] by fastforce
next
  assume "momentum r = final_momentum r"
  then show "momentum (fst (train_epochs r g loader ne es)) = final_momentum r"
    using train_epochs_frame [of r g loader ne es] by auto
next
  show "final_momentum (fst (train r g src ne bs)) = final_momentum r"
    using train_frame [of r g src ne bs] by (simp add: hyper_def)
next
  assume "ne \<le> 5"
  then show "momentum (fst (train r g src ne bs)) = momentum r"
    using train_frame [of r g src ne bs] by auto
next
  assume "momentum r = final_momentum r"
  then show "momentum (fst (train r g src ne bs)) = final_momentum r"
    using train_frame [of r g src ne bs] by auto
next
  assume "RBM_init v h kk lr0 lrd wd initial_momentum mf xav inc gpu g0 = Inr r0"
  then show "momentum r0 = initial_momentum"
    by (auto simp: RBM_init_def split: sum.splits)
next
  assume "RBM_init v h kk lr0 lrd wd initial_momentum mf xav inc gpu g0 = Inr r0"
  then show "final_momentum r0 = mf"
    by (auto simp: RBM_init_def split: sum.splits)
qed

theorem momentum_switch_witness:
  "wf_rbm ex_rbm \<and> ncols ex_batch = visible_units ex_rbm \<and>
   step_n_gibbs ex_rbm 6 10 = Inr 1 \<and> step_lr ex_rbm 6 = Inr 1 \<and>
   momentum ex_rbm = 1 / 2 \<and> final_momentum ex_rbm = 9 / 10 \<and>
   momentum (fst (step ex_rbm ex_rng ex_batch 6 10)) = 9 / 10 \<and>
   cell (grad_update (fst (step ex_rbm ex_rng ex_batch 6 10))) 0 0
     = Fin (9 / 10 * 2 + 1 * ((2 - 8) / 16 - 1 / 2 * 1)) \<and>
   momentum (fst (train_epochs ex_rbm ex_rng [ex_batch] 10 [1, 2, 3])) = 1 / 2"
proof -
  have a: "wf_rbm ex_rbm" "ncols ex_batch = visible_units ex_rbm"
    "step_n_gibbs ex_rbm 6 10 = Inr 1" "step_lr ex_rbm 6 = Inr 1"
    "momentum ex_rbm = 1 / 2" "final_momentum ex_rbm = 9 / 10"
    by (simp_all add: wf_rbm_def step_n_gibbs_def step_lr_def ex_defs)
  note sw = momentum_switch [of ex_rbm ex_batch 6 10 1 1 ex_rng "[ex_batch]" "[1, 2, 3]"]
  from sw [THEN conjunct1] a
  obtain ph g' r' where
    h: "cd_phases ex_rbm ex_rng ex_batch 1 = Inr (ph, g')"
       "fst (step ex_rbm ex_rng ex_batch 6 10) = r'"
       "momentum r' = final_momentum ex_rbm"
       "\<forall>i<visible_units ex_rbm. \<forall>j<hidden_units ex_rbm.
            cell (grad_update r') i j =
              Fin (final_momentum ex_rbm) * cell (grad_update ex_rbm) i j
              + Fin 1 * (div_int (cell (positive_associations ph) i j
                                    - cell (negative_associations ph) i j)
                           (batch_size ex_rbm)
                         - Fin (weight_decay ex_rbm) * cell (W ex_rbm) i j)"
    by (simp del: One_nat_def) blast
  from h(1) have ph: "ph = \<lparr>positive_hidden_probabilities = const_mat 2 1 (Fin 1),
           positive_associations = const_mat 1 1 (Fin 2),
           negative_visible_probabilities = const_mat 2 1 (Fin 2),
           negative_hidden_probabilities = const_mat 2 1 (Fin 2),
           negative_associations = const_mat 1 1 (Fin 8)\<rparr>"
    by (simp add: ex_phases)
  from h(4) have g: "cell (grad_update r') 0 0
                       = Fin (9 / 10 * 2 + 1 * ((2 - 8) / 16 - 1 / 2 * 1))"
    unfolding ph by (simp add: ex_defs minus_fl_def)
  have le5: "\<forall>e\<in>set [1, 2, 3 :: int]. e \<le> 5"
    by simp
  from sw [THEN conjunct2, THEN conjunct2, THEN conjunct1, THEN conjunct2, THEN conjunct1] le5
  have t: "momentum (fst (train_epochs ex_rbm ex_rng [ex_batch] 10 [1, 2, 3])) = momentum ex_rbm"
    by (rule mp)
  from a g t h(2,3) show ?thesis
    by simp
qed

text \<open>The claim as it stands fails for a step with \<open>epoch \<le> 5\<close> that comes after one
  with \<open>epoch > 5\<close>, as the first step of a second call of \<open>train\<close> does. On the model the
  constructor returns with \<open>initial_momentum = 1/2\<close> and \<open>final_momentum = 9/10\<close>, a step
  with epoch 6 leaves the weight accumulator at \<open>-1/2\<close>; the step with epoch 1 that
  follows it multiplies that by \<open>9/10\<close>, not by \<open>1/2\<close>, and leaves the momentum at
  \<open>9/10\<close>.\<close>

theorem momentum_after_switch:
  "RBM_init 1 1 1 1 False (1 / 2) (1 / 2) (9 / 10) False False False (const_rng 10)
     = Inr ex_fresh \<and>
   momentum ex_fresh = 1 / 2 \<and>
   cell (grad_update (fst (step ex_fresh ex_rng ex_batch 6 10))) 0 0 = Fin (- 1 / 2) \<and>
   step_n_gibbs (fst (step ex_fresh ex_rng ex_batch 6 10)) 1 10 = Inr 1 \<and>
   step_lr (fst (step ex_fresh ex_rng ex_batch 6 10)) 1 = Inr 1 \<and>
   map_sum id (positive_associations \<circ> fst)
     (cd_phases (fst (step ex_fresh ex_rng ex_batch 6 10)) ex_rng ex_batch 1)
     = Inr (const_mat 1 1 (Fin 1)) \<and>
   map_sum id (negative_associations \<circ> fst)
     (cd_phases (fst (step ex_fresh ex_rng ex_batch 6 10)) ex_rng ex_batch 1)
     = Inr (const_mat 1 1 (Fin (1 / 4))) \<and>
   cell (W (fst (step ex_fresh ex_rng ex_batch 6 10))) 0 0 = Fin (1 / 2) \<and>
   momentum (fst (step (fst (step ex_fresh ex_rng ex_batch 6 10)) ex_rng ex_batch 1 10))
     = 9 / 10 \<and>
   cell (grad_update
           (fst (step (fst (step ex_fresh ex_rng ex_batch 6 10)) ex_rng ex_batch 1 10))) 0 0
     = Fin (9 / 10 * (- 1 / 2) + 1 * ((1 - 1 / 4) / 16 - 1 / 2 * (1 / 2)))"
  unfolding ex_fresh_step_6 ex_fresh_step_6_1
  apply (intro conjI)
           apply (simp add: RBM_init_def init_W_def ex_fresh_def ex_defs zeros_vec_def
      zeros_mat_def)
          apply (simp add: ex_fresh_def ex_defs)
         apply (simp add: ex_fresh_def ex_defs)
        apply (simp add: step_n_gibbs_def ex_fresh_def ex_defs)
       apply (simp add: step_lr_def ex_fresh_def ex_defs)
      apply (simp add: cd_phases_def ex_fresh_def ex_defs op_defs sum_list_upt sum_Fin)
     apply (simp add: cd_phases_def ex_fresh_def ex_defs op_defs sum_list_upt sum_Fin)
    apply (simp add: ex_fresh_def ex_defs)
   apply (simp add: ex_fresh_def ex_defs)
  apply (simp add: ex_fresh_def ex_defs)
  done

section \<open>Hyperparameters\<close>

text \<open>
  Claim C9, as amended. The constructor fails with \<open>ZeroDivisionError\<close> when
  \<open>xavier_init\<close> is set and \<open>visible_units + hidden_units = 0\<close>, and otherwise with
  \<open>RuntimeError\<close> when \<open>visible_units\<close> or \<open>hidden_units\<close> is negative (a tensor of
  negative size). Nothing else is checked at construction: otherwise it returns a
  model that holds \<open>k\<close>, the learning rate, the weight decay and both momenta as they
  were given, whatever their values. \<open>train\<close> stores the batch size it is given before
  anything else. Given a dataset it fails with \<open>ValueError\<close> when the batch size is not
  positive, since it builds a \<open>DataLoader\<close> with it; given a \<open>DataLoader\<close> it accepts
  every batch size: on a model with the constructor's shapes, \<open>k \<ge> 1\<close> and a constant
  number of Gibbs steps, and batches of the right width, it returns normally whatever
  the batch size, the number of epochs, the momenta and the weight decay are. With
  \<open>num_epochs \<le> 0\<close> it returns normally without a single step. A \<open>k \<le> 0\<close> is not
  refused at either time, but without \<open>increase_to_cd_k\<close> every step then fails. Of
  the hyperparameters, \<open>train\<close> changes only the batch size and, when there are more
  than 5 epochs, possibly the momentum, to \<open>final_momentum\<close>.
\<close>

theorem hyperparameters_unchecked:
  "(0 \<le> v \<longrightarrow> 0 \<le> h \<longrightarrow> (xav \<longrightarrow> v + h \<noteq> 0) \<longrightarrow>
      (\<exists>r. RBM_init v h kk lr lrd wd m0 mf xav inc gpu g = Inr r \<and>
           visible_units r = nat v \<and> hidden_units r = nat h \<and> k r = kk \<and>
           learning_rate r = lr \<and> weight_decay r = wd \<and> momentum r = m0 \<and>
           final_momentum r = mf \<and> batch_size r = 16 \<and> wf_rbm r)) \<and>
   (xav \<longrightarrow> v + h = 0 \<longrightarrow>
      RBM_init v h kk lr lrd wd m0 mf xav inc gpu g = Inl ZeroDivisionError) \<and>
   ((v < 0 \<or> h < 0) \<longrightarrow> (xav \<longrightarrow> v + h \<noteq> 0) \<longrightarrow>
      RBM_init v h kk lr lrd wd m0 mf xav inc gpu g = Inl RuntimeError) \<and>
   (bs \<le> 0 \<longrightarrow>
      train r0 g0 (Dataset samples) ne bs = (r0\<lparr>batch_size := bs\<rparr>, Inl ValueError)) \<and>
   (ne \<le> 0 \<longrightarrow>
      train r0 g0 (DataLoader batches) ne bs = (r0\<lparr>batch_size := bs\<rparr>, Inr g0)) \<and>
   (ne \<le> 0 \<longrightarrow> 0 < bs \<longrightarrow>
      train r0 g0 (Dataset samples) ne bs = (r0\<lparr>batch_size := bs\<rparr>, Inr g0)) \<and>
   (k r0 \<le> 0 \<longrightarrow> \<not> increase_to_cd_k r0 \<longrightarrow> isl (snd (step r0 g0 X epoch ne))) \<and>
   (wf_rbm r0 \<longrightarrow> (\<forall>b\<in>set batches. ncols b = visible_units r0) \<longrightarrow> 1 \<le> k r0 \<longrightarrow>
    \<not> increase_to_cd_k r0 \<longrightarrow>
      (\<exists>r' g'. train r0 g0 (DataLoader batches) ne bs = (r', Inr g'))) \<and>
   hyper (fst (train r0 g0 src ne bs)) = hyper (r0\<lparr>batch_size := bs\<rparr>) \<and>
   (momentum (fst (train r0 g0 src ne bs)) = momentum r0 \<or>
    5 < ne \<and> momentum (fst (train r0 g0 src ne bs)) = final_momentum r0)"
proof (intro conjI impI)
  assume "0 \<le> v" "0 \<le> h" "xav \<longrightarrow> v + h \<noteq> 0"
  then show "\<exists>r. RBM_init v h kk lr lrd wd m0 mf xav inc gpu g = Inr r \<and>
           visible_units r = nat v \<and> hidden_units r = nat h \<and> k r = kk \<and>
           learning_rate r = lr \<and> weight_decay r = wd \<and> momentum r = m0 \<and>
           final_momentum r = mf \<and> batch_size r = 16 \<and> wf_rbm r"
    by (cases xav) (simp_all add: RBM_init_def init_W_def wf_rbm_def zeros_vec_def
        zeros_mat_def Let_def)
next
  assume "xav" "v + h = 0"
  then show "RBM_init v h kk lr lrd wd m0 mf xav inc gpu g = Inl ZeroDivisionError"
    by (simp add: RBM_init_def init_W_def)
next
  assume "v < 0 \<or> h < 0" "xav \<longrightarrow> v + h \<noteq> 0"
  then show "RBM_init v h kk lr lrd wd m0 mf xav inc gpu g = Inl RuntimeError"
    by (cases xav) (auto simp: RBM_init_def init_W_def)
next
  assume "bs \<le> 0"
  then show "train r0 g0 (Dataset samples) ne bs = (r0\<lparr>batch_size := bs\<rparr>, Inl ValueError)"
    by (simp add: train_def make_loader_def)
next
  assume "ne \<le> 0"
  then show "train r0 g0 (DataLoader batches) ne bs = (r0\<lparr>batch_size := bs\<rparr>, Inr g0)"
    by (simp add: train_def make_loader_def)
next
  assume "ne \<le> 0" "0 < bs"
  then show "train r0 g0 (Dataset samples) ne bs = (r0\<lparr>batch_size := bs\<rparr>, Inr g0)"
    by (simp add: train_def make_loader_def)
next
  assume "k r0 \<le> 0" "\<not> increase_to_cd_k r0"
  then show "isl (snd (step r0 g0 X epoch ne))"
    by (simp add: step_def step_n_gibbs_def contrastive_divergence_def cd_phases_def
        split: sum.splits prod.splits)
next
  assume "wf_rbm r0" "\<forall>b\<in>set batches. ncols b = visible_units r0" "1 \<le> k r0"
    "\<not> increase_to_cd_k r0"
  from train_ok [OF this, of g0 ne bs]
  show "\<exists>r' g'. train r0 g0 (DataLoader batches) ne bs = (r', Inr g')"
    by blast
next
  show "hyper (fst (train r0 g0 src ne bs)) = hyper (r0\<lparr>batch_size := bs\<rparr>)"
    using train_frame [of r0 g0 src ne bs] by simp
next
  show "momentum (fst (train r0 g0 src ne bs)) = momentum r0 \<or>
    5 < ne \<and> momentum (fst (train r0 g0 src ne bs)) = final_momentum r0"
    using train_frame [of r0 g0 src ne bs] by simp
qed

theorem hyperparameters_unchecked_witness:
  "(\<exists>r. RBM_init 0 0 0 1 False (- 1) 2 (- 3) False False False ex_rng = Inr r \<and>
        k r = 0 \<and> weight_decay r = - 1 \<and> momentum r = 2 \<and> final_momentum r = - 3) \<and>
   RBM_init 0 0 1 1 False 0 0 0 True False False ex_rng = Inl ZeroDivisionError \<and>
   RBM_init (- 1) 1 1 1 False 0 0 0 False False False ex_rng = Inl RuntimeError \<and>
   train ex_rbm ex_rng (Dataset ex_batch) 1 0 = (ex_rbm\<lparr>batch_size := 0\<rparr>, Inl ValueError) \<and>
   train ex_rbm ex_rng (DataLoader [ex_batch]) 0 0 = (ex_rbm\<lparr>batch_size := 0\<rparr>, Inr ex_rng) \<and>
   train ex_rbm ex_rng (Dataset ex_batch) 0 1 = (ex_rbm\<lparr>batch_size := 1\<rparr>, Inr ex_rng) \<and>
   isl (snd (step (ex_rbm\<lparr>k := 0\<rparr>) ex_rng ex_batch 1 1)) \<and>
   wf_rbm ex_rbm \<and> ncols ex_batch = visible_units ex_rbm \<and> 1 \<le> k ex_rbm \<and>
   \<not> increase_to_cd_k ex_rbm \<and>
   (\<exists>r' g'. train ex_rbm ex_rng (DataLoader [ex_batch]) 1 0 = (r', Inr g'))"
proof -
  note t = hyperparameters_unchecked
         [where v = 0 and h = 0 and xav = False and kk = 0 and lr = 1 and lrd = False
            and wd = "- 1" and ?m0.0 = 2 and mf = "- 3" and inc = False and gpu = False
            and g = ex_rng and ?r0.0 = ex_rbm and ?g0.0 = ex_rng and batches = "[ex_batch]"
            and ne = 0 and bs = 0]
  from t [THEN conjunct1]
  have a: "\<exists>r. RBM_init 0 0 0 1 False (- 1) 2 (- 3) False False False ex_rng = Inr r \<and>
        k r = 0 \<and> weight_decay r = - 1 \<and> momentum r = 2 \<and> final_momentum r = - 3"
    by auto
  from t [THEN conjunct2, THEN conjunct2, THEN conjunct2, THEN conjunct2, THEN conjunct1]
  have c: "train ex_rbm ex_rng (DataLoader [ex_batch]) 0 0
                    = (ex_rbm\<lparr>batch_size := 0\<rparr>, Inr ex_rng)"
    by simp
  note u = hyperparameters_unchecked
         [where v = 0 and h = 0 and xav = True and kk = 1 and lr = 1 and lrd = False
            and wd = 0 and ?m0.0 = 0 and mf = 0 and inc = False and gpu = False
            and g = ex_rng and ?r0.0 = ex_rbm and ?g0.0 = ex_rng and samples = ex_batch
            and ne = 1 and bs = 0]
  from u [THEN conjunct2, THEN conjunct1]
  have z: "RBM_init 0 0 1 1 False 0 0 0 True False False ex_rng = Inl ZeroDivisionError"
    by simp
  from u [THEN conjunct2, THEN conjunct2, THEN conjunct2, THEN conjunct1]
  have d: "train ex_rbm ex_rng (Dataset ex_batch) 1 0
              = (ex_rbm\<lparr>batch_size := 0\<rparr>, Inl ValueError)"
    by simp
  note w = hyperparameters_unchecked
         [where v = "- 1" and h = 1 and xav = False and kk = 1 and lr = 1 and lrd = False
            and wd = 0 and ?m0.0 = 0 and mf = 0 and inc = False and gpu = False
            and g = ex_rng and ?r0.0 = ex_rbm and ?g0.0 = ex_rng and samples = ex_batch
            and ne = 0 and bs = 1]
  from w [THEN conjunct2, THEN conjunct2, THEN conjunct1]
  have b: "RBM_init (- 1) 1 1 1 False 0 0 0 False False False ex_rng = Inl RuntimeError"
    by simp
  from w [THEN conjunct2, THEN conjunct2, THEN conjunct2, THEN conjunct2, THEN conjunct2,
      THEN conjunct1]
  have e: "train ex_rbm ex_rng (Dataset ex_batch) 0 1
              = (ex_rbm\<lparr>batch_size := 1\<rparr>, Inr ex_rng)"
    by simp
  from hyperparameters_unchecked [where ?r0.0 = "ex_rbm\<lparr>k := 0\<rparr>" and ?g0.0 = ex_rng
      and X = ex_batch and epoch = 1 and ne = 1,
      THEN conjunct2, THEN conjunct2, THEN conjunct2, THEN conjunct2, THEN conjunct2,
      THEN conjunct2, THEN conjunct1]
  have s: "isl (snd (step (ex_rbm\<lparr>k := 0\<rparr>) ex_rng ex_batch 1 1))"
    by (simp add: ex_rbm_def)
  have p: "wf_rbm ex_rbm" "\<forall>b\<in>set [ex_batch]. ncols b = visible_units ex_rbm"
    "1 \<le> k ex_rbm" "\<not> increase_to_cd_k ex_rbm"
    by (simp_all add: wf_rbm_def ex_defs)
  from hyperparameters_unchecked [where ?r0.0 = ex_rbm and ?g0.0 = ex_rng
      and batches = "[ex_batch]" and ne = 1 and bs = 0,
      THEN conjunct2, THEN conjunct2, THEN conjunct2, THEN conjunct2, THEN conjunct2,
      THEN conjunct2, THEN conjunct2, THEN conjunct1] p
  have q: "\<exists>r' g'. train ex_rbm ex_rng (DataLoader [ex_batch]) 1 0 = (r', Inr g')"
    by (simp del: One_nat_def)
  from p have p': "ncols ex_batch = visible_units ex_rbm"
    by simp
  from a b c d e z s p(1,3,4) p' q show ?thesis
    by blast
qed

text \<open>The claim as it stands fails: the constructor accepts no units at all,
  \<open>k = 0\<close>, a negative weight decay and momenta outside \<open>[0, 1)\<close>; \<open>train\<close> accepts
  \<open>num_epochs = 0\<close>; and given a \<open>DataLoader\<close> of one batch it runs its epoch to the end
  with a momentum of 2, a weight decay of \<open>-1\<close> and a batch size of \<open>-4\<close>, which takes
  the weight from 1 to \<open>15/2\<close>, and with a batch size of 0, which leaves an infinite
  weight.\<close>

theorem hyperparameters_accepted:
  "\<not> isl (RBM_init 0 0 0 1 False (- 1) 2 (- 3) False False False ex_rng) \<and>
   map_sum id k (RBM_init 0 0 0 1 False (- 1) 2 (- 3) False False False ex_rng) = Inr 0 \<and>
   map_sum id weight_decay (RBM_init 0 0 0 1 False (- 1) 2 (- 3) False False False ex_rng)
     = Inr (- 1) \<and>
   map_sum id momentum (RBM_init 0 0 0 1 False (- 1) 2 (- 3) False False False ex_rng)
     = Inr 2 \<and>
   train ex_rbm ex_rng (DataLoader [ex_batch]) 0 16 = (ex_rbm, Inr ex_rng) \<and>
   cell (W ex_rbm) 0 0 = Fin 1 \<and>
   snd (train (ex_rbm\<lparr>weight_decay := - 1, momentum := 2\<rparr>) ex_rng (DataLoader [ex_batch])
          1 (- 4)) = Inr ex_rng \<and>
   cell (W (fst (train (ex_rbm\<lparr>weight_decay := - 1, momentum := 2\<rparr>) ex_rng
                   (DataLoader [ex_batch]) 1 (- 4)))) 0 0 = Fin (15 / 2) \<and>
   snd (train ex_rbm ex_rng (DataLoader [ex_batch]) 1 0) = Inr ex_rng \<and>
   cell (W (fst (train ex_rbm ex_rng (DataLoader [ex_batch]) 1 0))) 0 0 = NInf"
  apply (intro conjI)
           apply (simp add: RBM_init_def init_W_def)
          apply (simp add: RBM_init_def init_W_def)
         apply (simp add: RBM_init_def init_W_def)
        apply (simp add: RBM_init_def init_W_def)
       apply (simp add: train_def make_loader_def ex_rbm_def)
      apply (simp add: ex_defs)
     apply (simp add: train_def make_loader_def view_def step_defs ex_defs op_defs
      sum_list_upt sum_Fin)
    apply (simp add: train_def make_loader_def view_def step_defs ex_defs op_defs
      sum_list_upt sum_Fin)
   apply (simp add: train_def make_loader_def view_def step_defs ex_defs op_defs
      sum_list_upt sum_Fin)
  apply (simp add: train_def make_loader_def view_def step_defs ex_defs op_defs
      sum_list_upt sum_Fin)
  done

section \<open>The Gibbs-step schedule\<close>

text \<open>
  Claim C7, as amended. Without \<open>increase_to_cd_k\<close> the step runs exactly \<open>k\<close> Gibbs
  steps. With it, the number of steps is the ceiling of the double-precision product
  \<^verbatim>\<open>(epoch / num_epochs) * k\<close>: for \<open>1 \<le> epoch \<le> num_epochs\<close>, \<open>k \<ge> 1\<close> and
  \<open>num_epochs \<cdot> k \<le> 2\<^sup>5\<^sup>1\<close> it is \<open>\<lceil>epoch \<cdot> k / num_epochs\<rceil>\<close> whenever \<open>num_epochs\<close> does not
  divide \<open>epoch \<cdot> k\<close> (with \<open>k = 4\<close>, \<open>num_epochs = 10\<close>, \<open>epoch = 3\<close> it is 2), and that value
  or one more when it does; at \<open>epoch = num_epochs\<close> it is \<open>k\<close>. The number so computed is
  the one \<open>contrastive_divergence\<close> is called with.
\<close>

theorem gibbs_ramp:
  "(\<not> increase_to_cd_k r \<longrightarrow> step_n_gibbs r epoch ne = Inr (k r)) \<and>
   (increase_to_cd_k r \<longrightarrow> 1 \<le> epoch \<longrightarrow> epoch \<le> ne \<longrightarrow> 1 \<le> k r \<longrightarrow> ne * k r \<le> 2 ^ 51 \<longrightarrow>
      (\<exists>m. step_n_gibbs r epoch ne = Inr m \<and>
           \<lceil>of_int (epoch * k r) / of_int ne :: rat\<rceil> \<le> m \<and>
           m \<le> \<lceil>of_int (epoch * k r) / of_int ne :: rat\<rceil> + 1 \<and>
           (\<not> ne dvd epoch * k r \<longrightarrow> m = \<lceil>of_int (epoch * k r) / of_int ne :: rat\<rceil>))) \<and>
   (increase_to_cd_k r \<longrightarrow> 1 \<le> ne \<longrightarrow> 0 \<le> k r \<longrightarrow> k r < 2 ^ 53 \<longrightarrow>
      step_n_gibbs r ne ne = Inr (k r)) \<and>
   (step_n_gibbs r epoch ne = Inr m' \<longrightarrow> step_lr r epoch = Inr lr \<longrightarrow>
      step r g X epoch ne =
        contrastive_divergence (step_momentum r epoch) g X True m' lr)"
proof (intro conjI impI)
  assume "\<not> increase_to_cd_k r"
  then show "step_n_gibbs r epoch ne = Inr (k r)"
    by (simp add: step_n_gibbs_def)
next
  assume "increase_to_cd_k r" "1 \<le> epoch" "epoch \<le> ne" "1 \<le> k r" "ne * k r \<le> 2 ^ 51"
  then show "\<exists>m. step_n_gibbs r epoch ne = Inr m \<and>
           \<lceil>of_int (epoch * k r) / of_int ne :: rat\<rceil> \<le> m \<and>
           m \<le> \<lceil>of_int (epoch * k r) / of_int ne :: rat\<rceil> + 1 \<and>
           (\<not> ne dvd epoch * k r \<longrightarrow> m = \<lceil>of_int (epoch * k r) / of_int ne :: rat\<rceil>)"
    using ramp_steps_ceiling [of epoch ne "k r"] by (simp add: step_n_gibbs_def)
next
  assume "increase_to_cd_k r" "1 \<le> ne" "0 \<le> k r" "k r < 2 ^ 53"
  then show "step_n_gibbs r ne ne = Inr (k r)"
    using ramp_steps_last [of ne "k r"] by (simp add: step_n_gibbs_def)
next
  assume "step_n_gibbs r epoch ne = Inr m'" "step_lr r epoch = Inr lr"
  then show "step r g X epoch ne =
        contrastive_divergence (step_momentum r epoch) g X True m' lr"
    by (simp add: step_def)
qed

theorem gibbs_ramp_witness:
  "step_n_gibbs ex_rbm 3 10 = Inr 1 \<and>
   step_n_gibbs (ex_rbm\<lparr>k := 4, increase_to_cd_k := True\<rparr>) 3 10 = Inr 2 \<and>
   step_n_gibbs (ex_rbm\<lparr>k := 4, increase_to_cd_k := True\<rparr>) 10 10 = Inr 4"
proof -
  let ?r = "ex_rbm\<lparr>k := 4, increase_to_cd_k := True\<rparr>"
  have f: "\<not> increase_to_cd_k ex_rbm" "k ex_rbm = 1" "increase_to_cd_k ?r" "k ?r = 4"
    by (simp_all add: ex_rbm_def)
  from gibbs_ramp [of ex_rbm 3 10] f(1,2)
  have a: "step_n_gibbs ex_rbm 3 10 = Inr 1"
    by simp
  have nd: "\<not> (10::int) dvd 3 * 4" by simp
  have c: "\<lceil>of_int (3 * 4) / of_int 10 :: rat\<rceil> = 2"
    by (simp add: ceiling_rat_numeral)
  from gibbs_ramp [of ?r 3 10] f(3,4) nd c
  have b: "step_n_gibbs ?r 3 10 = Inr 2"
    by auto
  from gibbs_ramp [of ?r 10 10] f(3,4)
  have d: "step_n_gibbs ?r 10 10 = Inr 4"
    by simp
  from a b d show ?thesis
    by simp
qed

text \<open>The claim as it stands fails where rounding lifts the product over an
  integer: with \<open>k = 25\<close>, \<open>num_epochs = 25\<close> and \<open>epoch = 7\<close> the step runs 8 Gibbs steps,
  and \<open>\<lceil>(7 / 25) \<cdot> 25\<rceil> = 7\<close>.\<close>

theorem gibbs_ramp_rounding:
  "step_n_gibbs (ex_rbm\<lparr>k := 25, increase_to_cd_k := True\<rparr>) 7 25 = Inr 8 \<and>
   \<lceil>(7 / 25) * 25 :: rat\<rceil> = 7"
  by (simp add: step_n_gibbs_def ex_rbm_def ramp_steps_7_25_25)

end
